(* ===== verification/Prelude.thy ===== *)
theory Prelude
  imports Main "HOL-Library.AList" "HOL-Library.Sublist"
begin

section \<open>Prelude: Go strings, maps and the shared lemma collections\<close>

text \<open>
  What every component of the proxy shares.  A Go \<open>string\<close> and a Go \<open>[]byte\<close> are both a finite
  sequence of bytes; HOL's \<open>char\<close> is a byte, so both are modelled by \<open>string\<close> (\<open>char list\<close>), and
  the conversions \<open>string(token)\<close> and \<open>[]byte(key)\<close> of the source are the identity.  A nil slice
  and an empty slice are both \<open>[]\<close>: the source only ever asks for the length.  A call that returns
  \<open>(value, error)\<close> is modelled by a sum, \<open>Inl\<close> carrying the error.
\<close>

type_synonym bytes = string

text \<open>An instant of \<open>time.Now()\<close> and a \<open>time.Duration\<close>, both in nanoseconds.\<close>

type_synonym instant = int
type_synonym duration = int

subsection \<open>Bytes\<close>

text \<open>The definitions of the classes of bytes: what decides whether a character is in one.\<close>

named_theorems byte_class

abbreviation ord :: "char \<Rightarrow> nat" where
  "ord c \<equiv> of_char c"

definition in_range :: "nat \<Rightarrow> nat \<Rightarrow> char \<Rightarrow> bool" where
  "in_range lo hi c \<longleftrightarrow> lo \<le> ord c \<and> ord c \<le> hi"

definition is_digit :: "char \<Rightarrow> bool" where
  "is_digit c = in_range 0x30 0x39 c"

declare in_range_def [byte_class] is_digit_def [byte_class]

subsection \<open>The functions of package strings that the source calls\<close>

definition hasPrefix :: "string \<Rightarrow> string \<Rightarrow> bool" where
  "hasPrefix s p \<longleftrightarrow> take (length p) s = p"

definition trimPrefix :: "string \<Rightarrow> string \<Rightarrow> string" where
  "trimPrefix s p = (if hasPrefix s p then drop (length p) s else s)"

text \<open>\<open>strings.LastIndex\<close> for a separator of one byte; \<open>None\<close> is the result -1.\<close>

fun lastIndexFrom :: "nat \<Rightarrow> string \<Rightarrow> char \<Rightarrow> nat option" where
  "lastIndexFrom i [] c = None"
| "lastIndexFrom i (x # xs) c =
     (case lastIndexFrom (Suc i) xs c of
        Some j \<Rightarrow> Some j
      | None \<Rightarrow> (if x = c then Some i else None))"

definition lastIndex :: "string \<Rightarrow> char \<Rightarrow> nat option" where
  "lastIndex s c = lastIndexFrom 0 s c"

lemma hasPrefix_iff_prefix: "hasPrefix s p \<longleftrightarrow> prefix p s"
  by (auto simp: hasPrefix_def prefix_def) (metis append_take_drop_id)

lemma hasPrefix_append [simp]: "hasPrefix (p @ s) p"
  by (simp add: hasPrefix_def)

lemma trimPrefix_append [simp]: "trimPrefix (p @ s) p = s"
  by (simp add: trimPrefix_def)

lemma lastIndexFrom_None: "lastIndexFrom i s c = None \<longleftrightarrow> c \<notin> set s"
  by (induction s arbitrary: i) (auto split: option.splits, metis option.distinct(1))

lemma lastIndexFrom_append:
  assumes "c \<notin> set t"
  shows "lastIndexFrom i (s @ c # t) c = Some (i + length s)"
  using assms
proof (induction s arbitrary: i)
  case Nil
  then show ?case by (simp add: lastIndexFrom_None [THEN iffD2])
next
  case (Cons x s)
  then show ?case by simp
qed

lemma lastIndex_None [simp]: "lastIndex s c = None \<longleftrightarrow> c \<notin> set s"
  by (simp add: lastIndex_def lastIndexFrom_None)

lemma lastIndex_append [simp]: "c \<notin> set t \<Longrightarrow> lastIndex (s @ c # t) c = Some (length s)"
  by (simp add: lastIndex_def lastIndexFrom_append)

subsection \<open>Maps\<close>

lemma map_of_Some_fst: "map_of xs k = Some v \<Longrightarrow> k \<in> fst ` set xs"
  by (force dest: map_of_SomeD)

lemma map_le_upd_trans: "m \<subseteq>\<^sub>m m' \<Longrightarrow> m(k \<mapsto> v) \<subseteq>\<^sub>m m'(k \<mapsto> v)"
  by (auto simp: map_le_def)

lemma map_le_SomeD: "m \<subseteq>\<^sub>m m' \<Longrightarrow> m k = Some v \<Longrightarrow> m' k = Some v"
  by (auto simp: map_le_def dom_def)

subsection \<open>Lists\<close>

lemma filter_fst_distinct_singleton:
  assumes "distinct (map fst xs)" and "(i, v) \<in> set xs"
  shows "filter (\<lambda>p. fst p = i) xs = [(i, v)]"
  using assms
  by (induction xs) (auto simp: filter_empty_conv image_iff)

lemma butlast_eq_filter_last:
  assumes "distinct (map f xs)" and "xs \<noteq> []"
  shows "filter (\<lambda>p. f p \<noteq> f (last xs)) xs = butlast xs"
proof -
  obtain ys y where xs: "xs = ys @ [y]" using assms(2) by (metis rev_exhaust)
  with assms(1) have "f y \<notin> f ` set ys" by simp
  then have "\<forall>p \<in> set ys. f p \<noteq> f y" by (metis imageI)
  then show ?thesis by (simp add: xs)
qed

lemma update_new: "k \<notin> fst ` set xs \<Longrightarrow> AList.update k v xs = xs @ [(k, v)]"
  by (induction xs) auto

end
