(* ===== verification/Rpc_Policy.thy ===== *)
theory Rpc_Policy
  imports Prelude
begin

section \<open>internal/rpcpolicy: the RPC allowlist\<close>

text \<open>
  The table \<open>Allowed\<close> of \<open>allowlist.go\<close>, with its categories and the terminal flag, and the lemmas
  that read it: which names it has, and that only a token RPC is terminal.
\<close>

datatype category =
    CategoryPoll
  | CategoryToken
  | CategoryUnscoped
  | CategoryNamespaceOnly
  | CategoryWorker
  | CategoryWorkerHeartbeat

record policy =
  Category :: category
  Terminal :: bool

abbreviation policy_of :: "category \<Rightarrow> bool \<Rightarrow> policy" where
  "policy_of c t \<equiv> \<lparr>Category = c, Terminal = t\<rparr>"

definition allowed_table :: "(string \<times> policy) list" where
  "allowed_table = [
     (''PollWorkflowTaskQueue'', policy_of CategoryPoll False),
     (''PollActivityTaskQueue'', policy_of CategoryPoll False),
     (''PollNexusTaskQueue'', policy_of CategoryPoll False),
     (''RespondWorkflowTaskCompleted'', policy_of CategoryToken True),
     (''RespondWorkflowTaskFailed'', policy_of CategoryToken True),
     (''RecordActivityTaskHeartbeat'', policy_of CategoryToken False),
     (''RespondActivityTaskCompleted'', policy_of CategoryToken True),
     (''RespondActivityTaskFailed'', policy_of CategoryToken True),
     (''RespondActivityTaskCanceled'', policy_of CategoryToken True),
     (''RespondNexusTaskCompleted'', policy_of CategoryToken True),
     (''RespondNexusTaskFailed'', policy_of CategoryToken True),
     (''RespondQueryTaskCompleted'', policy_of CategoryToken False),
     (''GetSystemInfo'', policy_of CategoryUnscoped False),
     (''DescribeNamespace'', policy_of CategoryNamespaceOnly False),
     (''ShutdownWorker'', policy_of CategoryWorker False),
     (''RecordWorkerHeartbeat'', policy_of CategoryWorkerHeartbeat False)]"

definition Allowed :: "string \<Rightarrow> policy option" where
  "Allowed = map_of allowed_table"

lemma allowed_names_distinct: "distinct (map fst allowed_table)"
  by (simp add: allowed_table_def)

lemma Allowed_iff: "Allowed m = Some p \<longleftrightarrow> (m, p) \<in> set allowed_table"
  unfolding Allowed_def by (rule map_of_eq_Some_iff [OF allowed_names_distinct])

lemma dom_Allowed: "dom Allowed = fst ` set allowed_table"
  by (simp add: Allowed_def dom_map_of_conv_image_fst)

text \<open>A fact about every row of the table holds of every entry that is looked up.\<close>

lemma Allowed_rows: "Allowed m = Some p \<Longrightarrow> list_all (\<lambda>(m, p). P m p) allowed_table \<Longrightarrow> P m p"
  by (auto simp: Allowed_iff list_all_iff)

lemma Terminal_token: "Allowed m = Some p \<Longrightarrow> Terminal p \<longrightarrow> Category p = CategoryToken"
  by (erule Allowed_rows) (simp add: allowed_table_def)

lemma Allowed_CategoryPoll:
  "Allowed m = Some p \<Longrightarrow> Category p = CategoryPoll \<longrightarrow>
   m \<in> {''PollWorkflowTaskQueue'', ''PollActivityTaskQueue'', ''PollNexusTaskQueue''}"
  by (erule Allowed_rows) (simp add: allowed_table_def)

subsection \<open>Properties\<close>

text \<open>
  The proxy lets through exactly the sixteen RPCs of the worker surface, and of these exactly the
  seven that finish a task drop the task's token: all that present a token except the activity
  heartbeat and the query answer.
\<close>

lemma allowed_rpcs:
  "dom Allowed = set (map fst allowed_table) \<and> length allowed_table = 16 \<and> distinct (map fst allowed_table) \<and>
   (\<forall>m p. Allowed m = Some p \<longrightarrow>
      (Terminal p \<longleftrightarrow> Category p = CategoryToken \<and>
         m \<noteq> ''RecordActivityTaskHeartbeat'' \<and> m \<noteq> ''RespondQueryTaskCompleted''))"
proof (intro conjI allI impI)
  fix m p
  assume "Allowed m = Some p"
  then show "Terminal p \<longleftrightarrow> Category p = CategoryToken \<and>
         m \<noteq> ''RecordActivityTaskHeartbeat'' \<and> m \<noteq> ''RespondQueryTaskCompleted''"
    by (rule Allowed_rows) (simp add: allowed_table_def)
qed (simp_all add: dom_Allowed allowed_names_distinct, simp add: allowed_table_def)

end
