(* ===== verification/Api_Messages.thy ===== *)
theory Api_Messages
  imports Prelude
begin

section \<open>The WorkflowService messages, as far as the proxy reads them\<close>

text \<open>
  The message types are generated code of \<open>go.temporal.io/api\<close>, which is not part of the
  repository.  What is modelled here is the interface the source uses: one constructor for each
  concrete Go type a type switch of \<open>internal/scope\<close>, \<open>internal/actions\<close> or \<open>internal/proxy\<close>
  names, carrying exactly the fields read through its getters, and one constructor for every other
  message.  A nil message pointer is \<open>None\<close>; the getters are nil-safe and give the zero value.
\<close>

subsection \<open>Task queues, heartbeats and commands\<close>

datatype task_queue_kind = KIND_UNSPECIFIED | KIND_NORMAL | KIND_STICKY | KIND_OTHER int

record task_queue =
  tq_name :: string
  tq_kind :: task_queue_kind
  tq_normal_name :: string

text \<open>\<open>GetName\<close>, \<open>GetKind\<close> and \<open>GetNormalName\<close> on a possibly nil \<open>*TaskQueue\<close>.\<close>

definition GetName :: "task_queue option \<Rightarrow> string" where
  "GetName tq = (case tq of None \<Rightarrow> '''' | Some t \<Rightarrow> tq_name t)"

definition GetKind :: "task_queue option \<Rightarrow> task_queue_kind" where
  "GetKind tq = (case tq of None \<Rightarrow> KIND_UNSPECIFIED | Some t \<Rightarrow> tq_kind t)"

definition GetNormalName :: "task_queue option \<Rightarrow> string" where
  "GetNormalName tq = (case tq of None \<Rightarrow> '''' | Some t \<Rightarrow> tq_normal_name t)"

lemma getters_None [simp]:
  "GetName None = ''''" "GetKind None = KIND_UNSPECIFIED" "GetNormalName None = ''''"
  by (simp_all add: GetName_def GetKind_def GetNormalName_def)

lemma getters_Some [simp]:
  "GetName (Some t) = tq_name t" "GetKind (Some t) = tq_kind t"
  "GetNormalName (Some t) = tq_normal_name t"
  by (simp_all add: GetName_def GetKind_def GetNormalName_def)

record worker_heartbeat =
  hb_task_queue :: string

text \<open>
  The \<open>attributes\<close> oneof of a workflow command.  The eight kinds that a type switch of the source
  names have their own constructor; \<open>OtherAttributes\<close> stands for each of the remaining kinds, by
  its name, and for an unset oneof.
\<close>

datatype command =
    ScheduleActivityTask "task_queue option"
  | StartChildWorkflowExecution string "task_queue option"
  | ContinueAsNewWorkflowExecution "task_queue option"
  | StartTimer
  | SignalExternalWorkflowExecution
  | UpsertWorkflowSearchAttributes
  | ScheduleNexusOperation
  | RequestCancelNexusOperation
  | OtherAttributes string

subsection \<open>Requests\<close>

datatype request =
    PollWorkflowTaskQueueRequest string "task_queue option"
  | PollActivityTaskQueueRequest string "task_queue option"
  | PollNexusTaskQueueRequest string "task_queue option" "worker_heartbeat list"
  | RespondWorkflowTaskCompletedRequest string bytes "command list"
  | RespondWorkflowTaskFailedRequest string bytes
  | RecordActivityTaskHeartbeatRequest string bytes
  | RespondActivityTaskCompletedRequest string bytes
  | RespondActivityTaskFailedRequest string bytes
  | RespondActivityTaskCanceledRequest string bytes
  | RespondQueryTaskCompletedRequest string bytes
  | RespondNexusTaskCompletedRequest string bytes
  | RespondNexusTaskFailedRequest string bytes
  | GetSystemInfoRequest
  | DescribeNamespaceRequest string
  | ShutdownWorkerRequest string string
  | RecordWorkerHeartbeatRequest string "worker_heartbeat list"
  | OtherRequest string

text \<open>
  The method a request type belongs to.  The generated gRPC service description decodes the body
  of a call as the request type of the method that was called, so a request that reaches the
  interceptor under the name \<open>m\<close> satisfies \<open>method_of req = m\<close>.
\<close>

fun method_of :: "request \<Rightarrow> string" where
  "method_of (PollWorkflowTaskQueueRequest _ _) = ''PollWorkflowTaskQueue''"
| "method_of (PollActivityTaskQueueRequest _ _) = ''PollActivityTaskQueue''"
| "method_of (PollNexusTaskQueueRequest _ _ _) = ''PollNexusTaskQueue''"
| "method_of (RespondWorkflowTaskCompletedRequest _ _ _) = ''RespondWorkflowTaskCompleted''"
| "method_of (RespondWorkflowTaskFailedRequest _ _) = ''RespondWorkflowTaskFailed''"
| "method_of (RecordActivityTaskHeartbeatRequest _ _) = ''RecordActivityTaskHeartbeat''"
| "method_of (RespondActivityTaskCompletedRequest _ _) = ''RespondActivityTaskCompleted''"
| "method_of (RespondActivityTaskFailedRequest _ _) = ''RespondActivityTaskFailed''"
| "method_of (RespondActivityTaskCanceledRequest _ _) = ''RespondActivityTaskCanceled''"
| "method_of (RespondQueryTaskCompletedRequest _ _) = ''RespondQueryTaskCompleted''"
| "method_of (RespondNexusTaskCompletedRequest _ _) = ''RespondNexusTaskCompleted''"
| "method_of (RespondNexusTaskFailedRequest _ _) = ''RespondNexusTaskFailed''"
| "method_of GetSystemInfoRequest = ''GetSystemInfo''"
| "method_of (DescribeNamespaceRequest _) = ''DescribeNamespace''"
| "method_of (ShutdownWorkerRequest _ _) = ''ShutdownWorker''"
| "method_of (RecordWorkerHeartbeatRequest _ _) = ''RecordWorkerHeartbeat''"
| "method_of (OtherRequest m) = m"

subsection \<open>Responses\<close>

record capabilities =
  WorkerCommands :: bool
  other_capabilities :: "(string \<times> bool) list"

record namespace_info =
  info_name :: string
  Capabilities :: "capabilities option"

datatype response =
    PollWorkflowTaskQueueResponse bytes
  | PollActivityTaskQueueResponse bytes
  | PollNexusTaskQueueResponse bytes
  | RespondWorkflowTaskCompletedResponse "bytes option" "bytes list"
      \<comment> \<open>task token of the new workflow task, if there is one, and of each eager activity task\<close>
  | DescribeNamespaceResponse "namespace_info option"
  | OtherResponse string

text \<open>The method whose response type this is.\<close>

fun response_method :: "response \<Rightarrow> string" where
  "response_method (PollWorkflowTaskQueueResponse _) = ''PollWorkflowTaskQueue''"
| "response_method (PollActivityTaskQueueResponse _) = ''PollActivityTaskQueue''"
| "response_method (PollNexusTaskQueueResponse _) = ''PollNexusTaskQueue''"
| "response_method (RespondWorkflowTaskCompletedResponse _ _) = ''RespondWorkflowTaskCompleted''"
| "response_method (DescribeNamespaceResponse _) = ''DescribeNamespace''"
| "response_method (OtherResponse m) = m"

end
