(* ===== verification/Scope.thy ===== *)
theory Scope
  imports Api_Messages
begin

section \<open>internal/scope: extraction of scoping fields and validation of commands\<close>

text \<open>
  The extractors of \<open>scope.go\<close>, each a type switch over the request or response, and the two
  validators.  An extractor returns a Go pair \<open>(value, ok)\<close>.  The lemmas at the end say what a
  validator that returns no error guarantees, in terms of where Temporal would dispatch the work.
\<close>

subsection \<open>Extraction\<close>

fun RequestNamespace :: "request \<Rightarrow> string \<times> bool" where
  "RequestNamespace (PollWorkflowTaskQueueRequest ns _) = (ns, True)"
| "RequestNamespace (PollActivityTaskQueueRequest ns _) = (ns, True)"
| "RequestNamespace (PollNexusTaskQueueRequest ns _ _) = (ns, True)"
| "RequestNamespace (RespondWorkflowTaskCompletedRequest ns _ _) = (ns, True)"
| "RequestNamespace (RespondWorkflowTaskFailedRequest ns _) = (ns, True)"
| "RequestNamespace (RecordActivityTaskHeartbeatRequest ns _) = (ns, True)"
| "RequestNamespace (RespondActivityTaskCompletedRequest ns _) = (ns, True)"
| "RequestNamespace (RespondActivityTaskFailedRequest ns _) = (ns, True)"
| "RequestNamespace (RespondActivityTaskCanceledRequest ns _) = (ns, True)"
| "RequestNamespace (RespondQueryTaskCompletedRequest ns _) = (ns, True)"
| "RequestNamespace (RespondNexusTaskCompletedRequest ns _) = (ns, True)"
| "RequestNamespace (RespondNexusTaskFailedRequest ns _) = (ns, True)"
| "RequestNamespace (DescribeNamespaceRequest ns) = (ns, True)"
| "RequestNamespace (ShutdownWorkerRequest ns _) = (ns, True)"
| "RequestNamespace (RecordWorkerHeartbeatRequest ns _) = (ns, True)"
| "RequestNamespace _ = ('''', False)"

fun RequestTaskQueueName :: "request \<Rightarrow> string \<times> bool" where
  "RequestTaskQueueName (PollWorkflowTaskQueueRequest _ tq) = (GetName tq, True)"
| "RequestTaskQueueName (PollActivityTaskQueueRequest _ tq) = (GetName tq, True)"
| "RequestTaskQueueName (ShutdownWorkerRequest _ q) = (q, True)"
| "RequestTaskQueueName _ = ('''', False)"

fun RequestTaskQueue :: "request \<Rightarrow> task_queue option \<times> bool" where
  "RequestTaskQueue (PollWorkflowTaskQueueRequest _ tq) = (tq, True)"
| "RequestTaskQueue (PollActivityTaskQueueRequest _ tq) = (tq, True)"
| "RequestTaskQueue (PollNexusTaskQueueRequest _ tq _) = (tq, True)"
| "RequestTaskQueue _ = (None, False)"

fun RequestTaskToken :: "request \<Rightarrow> bytes \<times> bool" where
  "RequestTaskToken (RespondWorkflowTaskCompletedRequest _ t _) = (t, True)"
| "RequestTaskToken (RespondWorkflowTaskFailedRequest _ t) = (t, True)"
| "RequestTaskToken (RecordActivityTaskHeartbeatRequest _ t) = (t, True)"
| "RequestTaskToken (RespondActivityTaskCompletedRequest _ t) = (t, True)"
| "RequestTaskToken (RespondActivityTaskFailedRequest _ t) = (t, True)"
| "RequestTaskToken (RespondActivityTaskCanceledRequest _ t) = (t, True)"
| "RequestTaskToken (RespondQueryTaskCompletedRequest _ t) = (t, True)"
| "RequestTaskToken (RespondNexusTaskCompletedRequest _ t) = (t, True)"
| "RequestTaskToken (RespondNexusTaskFailedRequest _ t) = (t, True)"
| "RequestTaskToken _ = ([], False)"

text \<open>The loop \<open>for _, at := range r.GetActivityTasks()\<close> with its accumulator \<open>tokens\<close>.\<close>

fun append_tokens :: "bytes list \<Rightarrow> bytes list \<Rightarrow> bytes list" where
  "append_tokens tokens [] = tokens"
| "append_tokens tokens (tok # ts) =
     append_tokens (if length tok > 0 then tokens @ [tok] else tokens) ts"

fun CollectResponseTaskTokens :: "response \<Rightarrow> bytes list" where
  "CollectResponseTaskTokens (PollWorkflowTaskQueueResponse tok) =
     (if length tok > 0 then [tok] else [])"
| "CollectResponseTaskTokens (PollActivityTaskQueueResponse tok) =
     (if length tok > 0 then [tok] else [])"
| "CollectResponseTaskTokens (PollNexusTaskQueueResponse tok) =
     (if length tok > 0 then [tok] else [])"
| "CollectResponseTaskTokens (RespondWorkflowTaskCompletedResponse wt ats) =
     (let tokens = (case wt of
                      None \<Rightarrow> []
                    | Some tok \<Rightarrow> (if length tok > 0 then [tok] else []))
      in append_tokens tokens ats)"
| "CollectResponseTaskTokens _ = []"

subsection \<open>Validation of worker heartbeats\<close>

datatype heartbeat_error =
    HeartbeatMissingTaskQueue nat
  | HeartbeatNotAuthorized nat string

fun containsTaskQueue :: "string list \<Rightarrow> string \<Rightarrow> bool" where
  "containsTaskQueue [] tq = False"
| "containsTaskQueue (allowed # qs) tq = (if allowed = tq then True else containsTaskQueue qs tq)"

fun validate_heartbeats_from ::
  "nat \<Rightarrow> worker_heartbeat list \<Rightarrow> string list \<Rightarrow> heartbeat_error option" where
  "validate_heartbeats_from i [] qs = None"
| "validate_heartbeats_from i (hb # hbs) qs =
     (let tq = hb_task_queue hb in
      if tq = '''' then Some (HeartbeatMissingTaskQueue i)
      else if \<not> containsTaskQueue qs tq then Some (HeartbeatNotAuthorized i tq)
      else validate_heartbeats_from (Suc i) hbs qs)"

definition ValidateWorkerHeartbeatTaskQueues ::
  "worker_heartbeat list \<Rightarrow> string list \<Rightarrow> heartbeat_error option" where
  "ValidateWorkerHeartbeatTaskQueues hbs qs = validate_heartbeats_from 0 hbs qs"

subsection \<open>Validation of commands\<close>

datatype command_error =
    ScheduleActivityWrongQueue string string
  | StartChildWrongQueue string string
  | StartChildWrongNamespace string string
  | ContinueAsNewWrongQueue string string

fun ValidateCommands :: "command list \<Rightarrow> string \<Rightarrow> string \<Rightarrow> command_error option" where
  "ValidateCommands [] namespace taskQueue = None"
| "ValidateCommands (cmd # cmds) namespace taskQueue =
     (case cmd of
        ScheduleActivityTask q \<Rightarrow>
          (if GetName q \<noteq> taskQueue
           then Some (ScheduleActivityWrongQueue (GetName q) taskQueue)
           else ValidateCommands cmds namespace taskQueue)
      | StartChildWorkflowExecution ns q \<Rightarrow>
          (if GetName q \<noteq> taskQueue then Some (StartChildWrongQueue (GetName q) taskQueue)
           else if ns \<noteq> '''' \<and> ns \<noteq> namespace then Some (StartChildWrongNamespace ns namespace)
           else ValidateCommands cmds namespace taskQueue)
      | ContinueAsNewWorkflowExecution q \<Rightarrow>
          (if GetName q \<noteq> '''' \<and> GetName q \<noteq> taskQueue
           then Some (ContinueAsNewWrongQueue (GetName q) taskQueue)
           else ValidateCommands cmds namespace taskQueue)
      | _ \<Rightarrow> ValidateCommands cmds namespace taskQueue)"

subsection \<open>What the extractors find\<close>

lemma append_tokens_filter: "append_tokens acc ts = acc @ filter (\<lambda>t. t \<noteq> []) ts"
  by (induction acc ts rule: append_tokens.induct) auto

lemma CollectResponseTaskTokens_nonempty: "t \<in> set (CollectResponseTaskTokens r) \<Longrightarrow> t \<noteq> []"
  by (cases r) (auto simp: append_tokens_filter split: if_splits option.splits)

text \<open>The tokens embedded in a response, written as a set comprehension of its fields.\<close>

fun embedded_tokens :: "response \<Rightarrow> bytes set" where
  "embedded_tokens (PollWorkflowTaskQueueResponse t) = {t}"
| "embedded_tokens (PollActivityTaskQueueResponse t) = {t}"
| "embedded_tokens (PollNexusTaskQueueResponse t) = {t}"
| "embedded_tokens (RespondWorkflowTaskCompletedResponse wt ats) = set_option wt \<union> set ats"
| "embedded_tokens _ = {}"

lemma set_CollectResponseTaskTokens:
  "set (CollectResponseTaskTokens r) = embedded_tokens r - {[]}"
  by (cases r) (auto simp: append_tokens_filter split: option.splits)

lemma containsTaskQueue_iff [simp]: "containsTaskQueue qs tq \<longleftrightarrow> tq \<in> set qs"
  by (induction qs) auto

subsection \<open>What the validators guarantee\<close>

lemma validate_heartbeats_from_None:
  "validate_heartbeats_from i hbs qs = None \<longleftrightarrow>
   (\<forall>hb \<in> set hbs. hb_task_queue hb \<noteq> '''' \<and> hb_task_queue hb \<in> set qs)"
  by (induction hbs arbitrary: i) (auto simp: Let_def)

lemma ValidateWorkerHeartbeatTaskQueues_None:
  "ValidateWorkerHeartbeatTaskQueues hbs qs = None \<longleftrightarrow>
   (\<forall>hb \<in> set hbs. hb_task_queue hb \<noteq> '''' \<and> hb_task_queue hb \<in> set qs)"
  by (simp add: ValidateWorkerHeartbeatTaskQueues_def validate_heartbeats_from_None)

text \<open>
  Where Temporal dispatches the work a command creates, for a workflow that runs in namespace
  \<open>ns\<close> on task queue \<open>tq\<close>: an activity runs in the workflow's namespace on the queue it names; a
  child workflow in the namespace it names or else the parent's; a continued run on the queue it
  names or else the current one.  The other commands create no work on a task queue.
\<close>

fun dispatch_target :: "string \<Rightarrow> string \<Rightarrow> command \<Rightarrow> (string \<times> string) option" where
  "dispatch_target ns tq (ScheduleActivityTask q) = Some (ns, GetName q)"
| "dispatch_target ns tq (StartChildWorkflowExecution n q) =
     Some (if n = '''' then ns else n, GetName q)"
| "dispatch_target ns tq (ContinueAsNewWorkflowExecution q) =
     Some (ns, if GetName q = '''' then tq else GetName q)"
| "dispatch_target ns tq _ = None"

definition confined :: "string \<Rightarrow> string \<Rightarrow> command list \<Rightarrow> bool" where
  "confined ns tq cmds \<longleftrightarrow> (\<forall>c \<in> set cmds. dispatch_target ns tq c \<in> {None, Some (ns, tq)})"

lemma confined_Nil [simp]: "confined ns tq []"
  by (simp add: confined_def)

lemma confined_Cons [simp]:
  "confined ns tq (c # cs) \<longleftrightarrow>
   dispatch_target ns tq c \<in> {None, Some (ns, tq)} \<and> confined ns tq cs"
  by (simp add: confined_def)

lemma ValidateCommands_confined: "ValidateCommands cmds ns tq = None \<longleftrightarrow> confined ns tq cmds"
  by (induction cmds) (auto split: command.splits)

text \<open>The error reported is the one of the first offending command.\<close>

lemma ValidateCommands_append:
  "ValidateCommands (xs @ ys) ns tq =
     (case ValidateCommands xs ns tq of None \<Rightarrow> ValidateCommands ys ns tq | Some e \<Rightarrow> Some e)"
  by (induction xs) (auto split: command.splits)

subsection \<open>Properties\<close>

text \<open>C21:
  The commands of a workflow task are accepted exactly if all the work they create is dispatched to
  the namespace and task queue the task was polled from, and otherwise the error names the first
  command that is not.
\<close>

theorem commands_confined:
  "(ValidateCommands cmds ns tq = None \<longleftrightarrow>
      (\<forall>c \<in> set cmds. \<forall>target. dispatch_target ns tq c = Some target \<longrightarrow> target = (ns, tq))) \<and>
   (\<forall>err. ValidateCommands cmds ns tq = Some err \<longrightarrow>
      (\<exists>xs c ys. cmds = xs @ c # ys \<and> confined ns tq xs \<and> \<not> confined ns tq [c] \<and>
                 ValidateCommands [c] ns tq = Some err))"
proof (intro conjI allI impI)
  show "ValidateCommands cmds ns tq = None \<longleftrightarrow>
      (\<forall>c \<in> set cmds. \<forall>target. dispatch_target ns tq c = Some target \<longrightarrow> target = (ns, tq))"
  proof -
    have "t \<in> {None, Some p} \<longleftrightarrow> (\<forall>u. t = Some u \<longrightarrow> u = p)" for t :: "(string \<times> string) option" and p
      by (cases t) auto
    then show ?thesis unfolding ValidateCommands_confined confined_def by blast
  qed
next
  fix err
  assume err: "ValidateCommands cmds ns tq = Some err"
  then have "\<not> confined ns tq cmds" by (metis ValidateCommands_confined option.distinct(1))
  then obtain xs c ys where split: "cmds = xs @ c # ys" and xs: "confined ns tq xs" and c: "\<not> confined ns tq [c]"
    unfolding confined_def using split_list_first_prop [of cmds "\<lambda>c. dispatch_target ns tq c \<notin> {None, Some (ns, tq)}"]
    by (metis list.set_intros(1))
  obtain e where e: "ValidateCommands [c] ns tq = Some e"
    using c [folded ValidateCommands_confined] by auto
  have "ValidateCommands (xs @ [c] @ ys) ns tq = Some e"
    using xs [folded ValidateCommands_confined] e by (simp only: ValidateCommands_append option.case)
  with err split e have "ValidateCommands [c] ns tq = Some err" by simp
  with split xs c show "\<exists>xs c ys. cmds = xs @ c # ys \<and> confined ns tq xs \<and> \<not> confined ns tq [c] \<and>
      ValidateCommands [c] ns tq = Some err" by blast
qed

theorem commands_confined_witness:
  "ValidateCommands [StartTimer, StartChildWorkflowExecution ''ns'' None] ''ns'' ''q'' \<noteq> None"
  using commands_confined [of "[StartTimer, StartChildWorkflowExecution ''ns'' None]" "''ns''" "''q''"] by simp

text \<open>The position of the first heartbeat that is refused.\<close>

lemma validate_heartbeats_from_Some:
  "validate_heartbeats_from i hbs qs = Some err \<Longrightarrow>
   \<exists>n < length hbs. (\<forall>m < n. hb_task_queue (hbs ! m) \<noteq> '''' \<and> hb_task_queue (hbs ! m) \<in> set qs) \<and>
     (if hb_task_queue (hbs ! n) = '''' then err = HeartbeatMissingTaskQueue (i + n)
      else hb_task_queue (hbs ! n) \<notin> set qs \<and> err = HeartbeatNotAuthorized (i + n) (hb_task_queue (hbs ! n)))"
proof (induction hbs arbitrary: i)
  case (Cons hb hbs)
  show ?case
  proof (cases "hb_task_queue hb \<noteq> '''' \<and> hb_task_queue hb \<in> set qs")
    case True
    with Cons.prems have "validate_heartbeats_from (Suc i) hbs qs = Some err" by (simp add: Let_def)
    from Cons.IH [OF this] True show ?thesis
      by (elim exE conjE) (rule exI [of _ "Suc n" for n], auto simp: less_Suc_eq_0_disj)
  next
    case False
    with Cons.prems show ?thesis by (intro exI [of _ 0]) (auto simp: Let_def split: if_splits)
  qed
qed simp

text \<open>
  The heartbeats of a worker are accepted exactly if each names a task queue of the identity, and
  otherwise the error carries the index of the first that names none or a foreign one.
\<close>

lemma heartbeats_validated:
  "case ValidateWorkerHeartbeatTaskQueues hbs qs of
     None \<Rightarrow> (\<forall>hb \<in> set hbs. hb_task_queue hb \<noteq> '''' \<and> hb_task_queue hb \<in> set qs)
   | Some err \<Rightarrow>
       (\<exists>n < length hbs. (\<forall>m < n. hb_task_queue (hbs ! m) \<noteq> '''' \<and> hb_task_queue (hbs ! m) \<in> set qs) \<and>
          (if hb_task_queue (hbs ! n) = '''' then err = HeartbeatMissingTaskQueue n
           else hb_task_queue (hbs ! n) \<notin> set qs \<and>
                err = HeartbeatNotAuthorized n (hb_task_queue (hbs ! n))))"
proof (cases "ValidateWorkerHeartbeatTaskQueues hbs qs")
  case None
  then have "\<forall>hb \<in> set hbs. hb_task_queue hb \<noteq> '''' \<and> hb_task_queue hb \<in> set qs"
    by (rule ValidateWorkerHeartbeatTaskQueues_None [THEN iffD1])
  with None show ?thesis by (simp only: option.case)
next
  case (Some err)
  then have "validate_heartbeats_from 0 hbs qs = Some err"
    by (simp only: ValidateWorkerHeartbeatTaskQueues_def)
  from validate_heartbeats_from_Some [OF this] show ?thesis by (simp only: Some option.case add_0)
qed

end
