(* ===== verification/Actions.thy ===== *)
theory Actions
  imports Api_Messages
begin

section \<open>internal/actions: billable Temporal Cloud actions\<close>

text \<open>
  \<open>FromRequest\<close> and \<open>fromCommand\<close> of \<open>actions.go\<close>, and the reference billing that the totals agree
  with: how many actions of each type a completed workflow task is charged for.
\<close>

record action =
  action_type :: string
  action_count :: nat

definition ScheduleActivity :: string where "ScheduleActivity = ''schedule_activity''"
definition StartTimerAction :: string where "StartTimerAction = ''start_timer''"
definition StartChildWorkflow :: string where "StartChildWorkflow = ''start_child_workflow''"
definition ContinueAsNewWorkflow :: string where "ContinueAsNewWorkflow = ''continue_as_new_workflow''"
definition SignalExternalWorkflow :: string where "SignalExternalWorkflow = ''signal_external_workflow''"
definition UpsertSearchAttributes :: string where
  "UpsertSearchAttributes = ''upsert_workflow_search_attributes''"
definition ScheduleNexusOperationAction :: string where
  "ScheduleNexusOperationAction = ''schedule_nexus_operation''"
definition RequestCancelNexusOperationAction :: string where
  "RequestCancelNexusOperationAction = ''request_nexus_operation_cancellation''"
definition RecordActivityHeartbeat :: string where
  "RecordActivityHeartbeat = ''record_activity_heartbeat''"

abbreviation act :: "string \<Rightarrow> nat \<Rightarrow> action" where
  "act t n \<equiv> \<lparr>action_type = t, action_count = n\<rparr>"

text \<open>The Go pair \<open>(Action, bool)\<close>: \<open>None\<close> is \<open>(Action{}, false)\<close>.\<close>

fun fromCommand :: "command \<Rightarrow> action option" where
  "fromCommand (ScheduleActivityTask _) = Some (act ScheduleActivity 1)"
| "fromCommand StartTimer = Some (act StartTimerAction 1)"
| "fromCommand (StartChildWorkflowExecution _ _) = Some (act StartChildWorkflow 2)"
| "fromCommand (ContinueAsNewWorkflowExecution _) = Some (act ContinueAsNewWorkflow 1)"
| "fromCommand SignalExternalWorkflowExecution = Some (act SignalExternalWorkflow 1)"
| "fromCommand UpsertWorkflowSearchAttributes = Some (act UpsertSearchAttributes 1)"
| "fromCommand ScheduleNexusOperation = Some (act ScheduleNexusOperationAction 1)"
| "fromCommand RequestCancelNexusOperation = Some (act RequestCancelNexusOperationAction 1)"
| "fromCommand (OtherAttributes _) = None"

fun actions_of_commands :: "action list \<Rightarrow> command list \<Rightarrow> action list" where
  "actions_of_commands out [] = out"
| "actions_of_commands out (cmd # cmds) =
     (case fromCommand cmd of
        Some a \<Rightarrow> actions_of_commands (out @ [a]) cmds
      | None \<Rightarrow> actions_of_commands out cmds)"

fun FromRequest :: "request \<Rightarrow> action list" where
  "FromRequest (RespondWorkflowTaskCompletedRequest _ _ cmds) = actions_of_commands [] cmds"
| "FromRequest (RecordActivityTaskHeartbeatRequest _ _) = [act RecordActivityHeartbeat 1]"
| "FromRequest _ = []"

lemma actions_of_commands_eq:
  "actions_of_commands out cmds = out @ List.map_filter fromCommand cmds"
  by (induction out cmds rule: actions_of_commands.induct)
     (auto simp: List.map_filter_simps split: option.splits)

text \<open>The reference billing: the number of actions charged for one command.\<close>

definition billed :: "command \<Rightarrow> nat" where
  "billed c = (case c of
       StartChildWorkflowExecution _ _ \<Rightarrow> 2
     | OtherAttributes _ \<Rightarrow> 0
     | _ \<Rightarrow> 1)"

lemma fromCommand_billed:
  "billed c = (case fromCommand c of None \<Rightarrow> 0 | Some a \<Rightarrow> action_count a)"
  by (cases c) (simp_all add: billed_def)

lemma sum_actions_billed:
  "sum_list (map action_count (actions_of_commands [] cmds)) = sum_list (map billed cmds)"
proof -
  have "sum_list (map action_count (List.map_filter fromCommand cmds)) = sum_list (map billed cmds)"
    by (induction cmds) (auto simp: List.map_filter_simps fromCommand_billed split: option.splits)
  then show ?thesis by (simp add: actions_of_commands_eq)
qed

subsection \<open>Properties\<close>

text \<open>
  The actions reported for a request add up to what its commands are billed: two for a child
  workflow, none for a command of another kind, one for each of the others; a heartbeat counts one,
  every other request nothing.  They are reported in the order of the commands.
\<close>

lemma actions_billed:
  "sum_list (map action_count (FromRequest req)) =
     (case req of
        RespondWorkflowTaskCompletedRequest _ _ cmds \<Rightarrow> sum_list (map billed cmds)
      | RecordActivityTaskHeartbeatRequest _ _ \<Rightarrow> 1
      | _ \<Rightarrow> 0) \<and>
   FromRequest (RespondWorkflowTaskCompletedRequest ns t (xs @ ys)) =
     FromRequest (RespondWorkflowTaskCompletedRequest ns t xs) @
     FromRequest (RespondWorkflowTaskCompletedRequest ns t ys)"
proof
  show "sum_list (map action_count (FromRequest req)) =
     (case req of
        RespondWorkflowTaskCompletedRequest _ _ cmds \<Rightarrow> sum_list (map billed cmds)
      | RecordActivityTaskHeartbeatRequest _ _ \<Rightarrow> 1
      | _ \<Rightarrow> 0)"
    by (cases req) (simp_all add: sum_actions_billed)
qed (simp add: actions_of_commands_eq List.map_filter_def)

end
