(* ===== verification/Sha256.thy ===== *)
theory Sha256
  imports Prelude "HOL-Library.Word"
begin

unbundle bit_operations_syntax

section \<open>crypto/sha256 and encoding/hex\<close>

text \<open>
  \<open>sha256.Sum256\<close> and \<open>hex.EncodeToString\<close> of Go's standard library (FIPS 180-4), which
  \<open>internal/auth\<close> applies to API keys and \<open>internal/tokencache\<close> to task tokens.  The digest is
  computed on 32-bit words, whose addition wraps as the standard asks.
\<close>

type_synonym u32 = "32 word"

definition rotr :: "nat \<Rightarrow> u32 \<Rightarrow> u32" where
  "rotr n w = drop_bit n w OR push_bit (32 - n) w"

definition Ch :: "u32 \<Rightarrow> u32 \<Rightarrow> u32 \<Rightarrow> u32" where
  "Ch x y z = (x AND y) XOR (NOT x AND z)"

definition Maj :: "u32 \<Rightarrow> u32 \<Rightarrow> u32 \<Rightarrow> u32" where
  "Maj x y z = (x AND y) XOR (x AND z) XOR (y AND z)"

definition big_sigma0 :: "u32 \<Rightarrow> u32" where
  "big_sigma0 x = rotr 2 x XOR rotr 13 x XOR rotr 22 x"

definition big_sigma1 :: "u32 \<Rightarrow> u32" where
  "big_sigma1 x = rotr 6 x XOR rotr 11 x XOR rotr 25 x"

definition small_sigma0 :: "u32 \<Rightarrow> u32" where
  "small_sigma0 x = rotr 7 x XOR rotr 18 x XOR drop_bit 3 x"

definition small_sigma1 :: "u32 \<Rightarrow> u32" where
  "small_sigma1 x = rotr 17 x XOR rotr 19 x XOR drop_bit 10 x"

definition round_constants :: "u32 list" where
  "round_constants = [
     1116352408, 1899447441, 3049323471, 3921009573, 961987163, 1508970993, 2453635748, 2870763221,
     3624381080, 310598401, 607225278, 1426881987, 1925078388, 2162078206, 2614888103, 3248222580,
     3835390401, 4022224774, 264347078, 604807628, 770255983, 1249150122, 1555081692, 1996064986,
     2554220882, 2821834349, 2952996808, 3210313671, 3336571891, 3584528711, 113926993, 338241895,
     666307205, 773529912, 1294757372, 1396182291, 1695183700, 1986661051, 2177026350, 2456956037,
     2730485921, 2820302411, 3259730800, 3345764771, 3516065817, 3600352804, 4094571909, 275423344,
     430227734, 506948616, 659060556, 883997877, 958139571, 1322822218, 1537002063, 1747873779,
     1955562222, 2024104815, 2227730452, 2361852424, 2428436474, 2756734187, 3204031479, 3329325298]"

subsection \<open>Padding and words\<close>

type_synonym u8 = "8 word"
type_synonym u64 = "64 word"

text \<open>Big-endian bytes of a word, and the words of a block of bytes.\<close>

definition u32_bytes :: "u32 \<Rightarrow> u8 list" where
  "u32_bytes w = [ucast (drop_bit 24 w), ucast (drop_bit 16 w), ucast (drop_bit 8 w), ucast w]"

definition u64_bytes :: "u64 \<Rightarrow> u8 list" where
  "u64_bytes w = u32_bytes (ucast (drop_bit 32 w)) @ u32_bytes (ucast w)"

definition sha_pad :: "u8 list \<Rightarrow> u8 list" where
  "sha_pad m = m @ [128] @ replicate ((119 - length m mod 64) mod 64) 0
     @ u64_bytes (push_bit 3 (of_nat (length m)))"

fun be_words :: "u8 list \<Rightarrow> u32 list" where
  "be_words (a # b # c # d # rest) =
     (push_bit 24 (ucast a) OR push_bit 16 (ucast b) OR push_bit 8 (ucast c) OR ucast d)
     # be_words rest"
| "be_words _ = []"

fun sha_blocks :: "u32 list \<Rightarrow> u32 list list" where
  "sha_blocks [] = []"
| "sha_blocks (w # ws) = take 16 (w # ws) # sha_blocks (drop 15 ws)"

text \<open>The message schedule, kept in reverse: its head is the latest word.\<close>

fun extend_schedule :: "nat \<Rightarrow> u32 list \<Rightarrow> u32 list" where
  "extend_schedule 0 r = r"
| "extend_schedule (Suc n) r =
     extend_schedule n
       ((small_sigma1 (r ! 1) + r ! 6 + small_sigma0 (r ! 14) + r ! 15) # r)"

definition schedule :: "u32 list \<Rightarrow> u32 list" where
  "schedule block = rev (extend_schedule 48 (rev block))"

subsection \<open>Compression\<close>

type_synonym sha_state = "u32 \<times> u32 \<times> u32 \<times> u32 \<times> u32 \<times> u32 \<times> u32 \<times> u32"

fun sha_rounds :: "(u32 \<times> u32) list \<Rightarrow> sha_state \<Rightarrow> sha_state" where
  "sha_rounds [] s = s"
| "sha_rounds ((k, w) # kws) (a, b, c, d, e, f, g, h) =
     (let t1 = h + big_sigma1 e + Ch e f g + k + w;
          t2 = big_sigma0 a + Maj a b c
      in sha_rounds kws (t1 + t2, a, b, c, d + t1, e, f, g))"

fun sha_compress :: "u32 list \<Rightarrow> sha_state \<Rightarrow> sha_state" where
  "sha_compress block (a, b, c, d, e, f, g, h) =
     (case sha_rounds (zip round_constants (schedule block)) (a, b, c, d, e, f, g, h) of
        (a', b', c', d', e', f', g', h') \<Rightarrow>
          (a + a', b + b', c + c', d + d', e + e', f + f', g + g', h + h'))"

fun sha_state_words :: "sha_state \<Rightarrow> u32 list" where
  "sha_state_words (a, b, c, d, e, f, g, h) = [a, b, c, d, e, f, g, h]"

definition initial_state :: sha_state where
  "initial_state = (1779033703, 3144134277, 1013904242, 2773480762,
                    1359893119, 2600822924, 528734635, 1541459225)"

definition Sum256 :: "bytes \<Rightarrow> u8 list" where
  "Sum256 m =
     concat (map u32_bytes (sha_state_words
       (fold sha_compress (sha_blocks (be_words (sha_pad (map of_char m)))) initial_state)))"

definition hex_digits :: string where
  "hex_digits = ''0123456789abcdef''"

definition EncodeToString :: "u8 list \<Rightarrow> string" where
  "EncodeToString bs =
     concat (map (\<lambda>b. [hex_digits ! unat (drop_bit 4 b), hex_digits ! unat (b AND 15)]) bs)"

definition sha256_hex :: "bytes \<Rightarrow> string" where
  "sha256_hex m = EncodeToString (Sum256 m)"

subsection \<open>The shape of a digest\<close>

lemma length_u32_bytes [simp]: "length (u32_bytes w) = 4"
  by (simp add: u32_bytes_def)

lemma length_sha_state_words [simp]: "length (sha_state_words s) = 8"
  by (cases s rule: sha_state_words.cases) simp

lemma length_concat_const: "(\<And>x. length (f x) = n) \<Longrightarrow> length (concat (map f xs)) = n * length xs"
  by (induction xs) simp_all

lemma length_Sum256 [simp]: "length (Sum256 m) = 32"
  by (simp add: Sum256_def length_concat_const [where n = 4])

lemma length_EncodeToString [simp]: "length (EncodeToString bs) = 2 * length bs"
  by (simp add: EncodeToString_def length_concat_const [where n = 2])

lemma length_sha256_hex: "length (sha256_hex m) = 64"
  by (simp add: sha256_hex_def)

lemma nibble_less: "unat (drop_bit 4 (b :: u8)) < 16" "unat (b AND 15) < 16"
proof -
  have "unat (drop_bit 4 b) = unat b div 2 ^ 4" by (simp add: drop_bit_eq_div unat_div)
  moreover have "unat b < 2 ^ LENGTH(8)" by (rule unsigned_less)
  ultimately show "unat (drop_bit 4 b) < 16" by simp
  have "b AND 15 = take_bit 4 b" by (simp add: take_bit_eq_mask mask_eq_exp_minus_1)
  then show "unat (b AND 15) < 16" by (simp add: take_bit_eq_mod unat_mod)
qed

lemma set_EncodeToString: "set (EncodeToString bs) \<subseteq> set hex_digits"
proof -
  have "length hex_digits = 16" by (simp add: hex_digits_def)
  then have "hex_digits ! unat (drop_bit 4 b) \<in> set hex_digits"
    and "hex_digits ! unat (b AND 15) \<in> set hex_digits" for b :: u8
    using nibble_less [of b] by (metis nth_mem)+
  then show ?thesis by (auto simp: EncodeToString_def)
qed

lemma set_sha256_hex: "set (sha256_hex m) \<subseteq> set hex_digits"
  unfolding sha256_hex_def by (rule set_EncodeToString)

end
