(* ===== verification/Auth.thy ===== *)
theory Auth
  imports Sha256 "HOL-Library.Multiset"
begin

section \<open>internal/auth: identities and authenticators\<close>

text \<open>
  \<open>auth.go\<close>, \<open>static.go\<close> and \<open>jwt.go\<close>: the identity a credential resolves to, the construction
  of the identity table from the entries of the auth file, and the two authenticators.  A Go map
  that is only ranged over is the list of its pairs in the order the iteration visits them, which
  Go leaves open; a Go map that is looked up is a partial function.
\<close>

subsection \<open>Identities\<close>

record identity =
  id_valid :: bool
  id_namespace :: string
  id_task_queues :: "string list"
  id_subject :: string

definition zero_identity :: identity where
  "zero_identity =
     \<lparr>id_valid = False, id_namespace = '''', id_task_queues = [], id_subject = ''''\<rparr>"

fun contains :: "string list \<Rightarrow> string \<Rightarrow> bool" where
  "contains [] taskQueue = False"
| "contains (allowed # qs) taskQueue =
     (if allowed = taskQueue then True else contains qs taskQueue)"

definition AllowsTaskQueue :: "identity \<Rightarrow> string \<Rightarrow> bool" where
  "AllowsTaskQueue i taskQueue = contains (id_task_queues i) taskQueue"

lemma contains_iff [simp]: "contains qs tq \<longleftrightarrow> tq \<in> set qs"
  by (induction qs) auto

lemma AllowsTaskQueue_iff [simp]: "AllowsTaskQueue i tq \<longleftrightarrow> tq \<in> set (id_task_queues i)"
  by (simp add: AllowsTaskQueue_def)

text \<open>
  What an identity that the shipped authenticators hand out looks like: valid, with a namespace
  and at least one task queue, none of them empty.
\<close>

definition well_formed_identity :: "identity \<Rightarrow> bool" where
  "well_formed_identity i \<longleftrightarrow>
     id_valid i \<and> id_namespace i \<noteq> '''' \<and> id_task_queues i \<noteq> [] \<and> '''' \<notin> set (id_task_queues i)"

subsection \<open>The auth file\<close>

record static_key_entry =
  ske_namespace :: string
  ske_task_queues :: "string list"
  ske_subject :: string

datatype auth_error =
    EntryMissingNamespace string
  | EntryMissingTaskQueues string
  | EntryEmptyTaskQueue string nat
  | ReadingAuthFile string
  | ParsingAuthFile
  | EmptyAudience
  | CreatingValidator string

definition hashKey :: "string \<Rightarrow> string" where
  "hashKey apiKey = sha256_hex apiKey"

fun validate_queues_from ::
  "string \<Rightarrow> nat \<Rightarrow> string list \<Rightarrow> string list \<Rightarrow> auth_error + string list" where
  "validate_queues_from key i out [] = Inr out"
| "validate_queues_from key i out (q # qs) =
     (if q = '''' then Inl (EntryEmptyTaskQueue key i)
      else validate_queues_from key (Suc i) (out @ [q]) qs)"

definition validateTaskQueues :: "string \<Rightarrow> string list \<Rightarrow> auth_error + string list" where
  "validateTaskQueues key qs =
     (if length qs = 0 then Inl (EntryMissingTaskQueues key)
      else validate_queues_from key 0 [] qs)"

fun build_identities_from ::
  "bool \<Rightarrow> (string \<Rightarrow> identity option) \<Rightarrow> (string \<times> static_key_entry) list
   \<Rightarrow> auth_error + (string \<Rightarrow> identity option)" where
  "build_identities_from hash identities [] = Inr identities"
| "build_identities_from hash identities ((lookupKey, entry) # entries) =
     (if ske_namespace entry = '''' then Inl (EntryMissingNamespace lookupKey)
      else (case validateTaskQueues lookupKey (ske_task_queues entry) of
              Inl err \<Rightarrow> Inl err
            | Inr taskQueues \<Rightarrow>
                build_identities_from hash
                  (identities((if hash then hashKey lookupKey else lookupKey) \<mapsto>
                     \<lparr>id_valid = True, id_namespace = ske_namespace entry,
                      id_task_queues = taskQueues, id_subject = ske_subject entry\<rparr>))
                  entries))"

definition buildIdentities ::
  "(string \<times> static_key_entry) list \<Rightarrow> bool \<Rightarrow> auth_error + (string \<Rightarrow> identity option)" where
  "buildIdentities entries hash = build_identities_from hash Map.empty entries"

subsection \<open>The authenticators\<close>

text \<open>\<open>Authenticate(ctx, apiKey) (Identity, error)\<close>; the error is a text.\<close>

type_synonym authenticator = "string \<Rightarrow> string + identity"

definition StaticAuthenticate :: "(string \<Rightarrow> identity option) \<Rightarrow> authenticator" where
  "StaticAuthenticate identities apiKey =
     (case identities (hashKey apiKey) of None \<Rightarrow> Inr zero_identity | Some i \<Rightarrow> Inr i)"

definition JWTAuthenticate ::
  "(string \<Rightarrow> identity option) \<Rightarrow> (string \<Rightarrow> string + string) \<Rightarrow> authenticator" where
  "JWTAuthenticate identities validate apiKey =
     (case validate apiKey of
        Inl err \<Rightarrow> Inr zero_identity
      | Inr email \<Rightarrow>
          (case identities email of
             None \<Rightarrow> Inr zero_identity
           | Some i \<Rightarrow> Inr (if id_subject i = '''' then i\<lparr>id_subject := email\<rparr> else i)))"

text \<open>
  The payload of a Google ID token: a map of JSON claims.  \<open>validator.Validate(ctx, token, audience)\<close>
  is code of \<open>google.golang.org/api/idtoken\<close> and a parameter.  A Go type assertion with \<open>_\<close> gives the
  zero value where the claim is absent or has another type.
\<close>

datatype claim = ClaimBool bool | ClaimString string | ClaimOther

definition claim_bool :: "(string \<Rightarrow> claim option) \<Rightarrow> string \<Rightarrow> bool" where
  "claim_bool claims k = (case claims k of Some (ClaimBool b) \<Rightarrow> b | _ \<Rightarrow> False)"

definition claim_string :: "(string \<Rightarrow> claim option) \<Rightarrow> string \<Rightarrow> string" where
  "claim_string claims k = (case claims k of Some (ClaimString s) \<Rightarrow> s | _ \<Rightarrow> '''')"

definition googleTokenValidator ::
  "(string \<Rightarrow> string \<Rightarrow> string + (string \<Rightarrow> claim option)) \<Rightarrow> string \<Rightarrow> string \<Rightarrow> string + string" where
  "googleTokenValidator Validate audience token =
     (case Validate token audience of
        Inl err \<Rightarrow> Inl err
      | Inr claims \<Rightarrow>
          (if \<not> claim_bool claims ''email_verified'' then Inl ''auth: token email is not verified''
           else if claim_string claims ''email'' = '''' then Inl ''auth: token has no email claim''
           else Inr (claim_string claims ''email'')))"

subsection \<open>Which entries are accepted, and what they become\<close>

definition entry_ok :: "static_key_entry \<Rightarrow> bool" where
  "entry_ok e \<longleftrightarrow>
     ske_namespace e \<noteq> '''' \<and> ske_task_queues e \<noteq> [] \<and> '''' \<notin> set (ske_task_queues e)"

definition identity_of :: "static_key_entry \<Rightarrow> identity" where
  "identity_of e = \<lparr>id_valid = True, id_namespace = ske_namespace e,
                    id_task_queues = ske_task_queues e, id_subject = ske_subject e\<rparr>"

definition map_key :: "bool \<Rightarrow> string \<Rightarrow> string" where
  "map_key hash k = (if hash then hashKey k else k)"

lemma identity_of_well_formed: "entry_ok e \<Longrightarrow> well_formed_identity (identity_of e)"
  by (simp add: entry_ok_def identity_of_def well_formed_identity_def)

lemma validate_queues_from_Inr:
  "validate_queues_from key i out qs = Inr qs' \<longleftrightarrow> '''' \<notin> set qs \<and> qs' = out @ qs"
  by (induction key i out qs rule: validate_queues_from.induct) auto

lemma validateTaskQueues_Inr:
  "validateTaskQueues key qs = Inr qs' \<longleftrightarrow> qs \<noteq> [] \<and> '''' \<notin> set qs \<and> qs' = qs"
  by (auto simp: validateTaskQueues_def validate_queues_from_Inr)

lemma build_identities_from_Inr:
  "build_identities_from hash m es = Inr m' \<longleftrightarrow>
   (\<forall>(k, e) \<in> set es. entry_ok e) \<and>
   m' = m ++ map_of (rev (map (\<lambda>(k, e). (map_key hash k, identity_of e)) es))"
proof (induction hash m es rule: build_identities_from.induct)
  case (1 hash identities)
  then show ?case by auto
next
  case (2 hash identities k e entries)
  show ?case
  proof (cases "entry_ok e")
    case True
    then have v: "validateTaskQueues k (ske_task_queues e) = Inr (ske_task_queues e)"
      and ns: "ske_namespace e \<noteq> ''''"
      by (simp_all add: validateTaskQueues_Inr entry_ok_def)
    let ?m = "identities(map_key hash k \<mapsto> identity_of e)"
    have step: "build_identities_from hash identities ((k, e) # entries) =
        build_identities_from hash ?m entries"
      by (simp add: v ns identity_of_def map_key_def)
    have "build_identities_from hash ?m entries = Inr m' \<longleftrightarrow>
        (\<forall>(k, e) \<in> set entries. entry_ok e) \<and>
        m' = ?m ++ map_of (rev (map (\<lambda>(k, e). (map_key hash k, identity_of e)) entries))"
      by (rule "2.IH" [OF ns v, folded map_key_def identity_of_def])
    with True show ?thesis unfolding step by (simp add: map_add_assoc)
  next
    case False
    then have "build_identities_from hash identities ((k, e) # entries) \<noteq> Inr m'"
      by (auto simp: entry_ok_def validateTaskQueues_Inr split: sum.splits)
    with False show ?thesis by auto
  qed
qed

lemma buildIdentities_Inr:
  "buildIdentities es hash = Inr m \<longleftrightarrow>
   (\<forall>(k, e) \<in> set es. entry_ok e) \<and>
   m = map_of (rev (map (\<lambda>(k, e). (map_key hash k, identity_of e)) es))"
  by (simp add: buildIdentities_def build_identities_from_Inr)

lemma buildIdentities_ran:
  assumes "buildIdentities es hash = Inr m" and "m k = Some i"
  obtains k' e where "(k', e) \<in> set es" "entry_ok e" "k = map_key hash k'" "i = identity_of e"
proof -
  from assms(1) have ok: "\<forall>(k, e) \<in> set es. entry_ok e"
    and m: "m = map_of (rev (map (\<lambda>(k, e). (map_key hash k, identity_of e)) es))"
    by (simp_all add: buildIdentities_Inr)
  from assms(2) have "(k, i) \<in> set (rev (map (\<lambda>(k, e). (map_key hash k, identity_of e)) es))"
    unfolding m by (rule map_of_SomeD)
  then obtain k' e where "(k', e) \<in> set es" "k = map_key hash k'" "i = identity_of e" by auto
  with ok show ?thesis by (intro that) auto
qed

lemma buildIdentities_well_formed:
  "buildIdentities es hash = Inr m \<Longrightarrow> m k = Some i \<Longrightarrow> well_formed_identity i"
  by (erule buildIdentities_ran) (auto intro: identity_of_well_formed)

text \<open>The lookup of an entry's own key, where no other key of the file is mapped to the same key.\<close>

lemma buildIdentities_lookup:
  assumes "buildIdentities es hash = Inr m" and "(k, e) \<in> set es"
    and "distinct (map (map_key hash \<circ> fst) es)"
  shows "m (map_key hash k) = Some (identity_of e)"
proof -
  let ?xs = "map (\<lambda>(k, e). (map_key hash k, identity_of e)) es"
  have "map fst ?xs = map (map_key hash \<circ> fst) es" by (auto simp: case_prod_unfold)
  with assms(3) have "distinct (map fst (rev ?xs))" by (metis distinct_rev rev_map)
  moreover have "(map_key hash k, identity_of e) \<in> set (rev ?xs)" using assms(2) by force
  ultimately have "map_of (rev ?xs) (map_key hash k) = Some (identity_of e)" by simp
  with assms(1) show ?thesis by (simp add: buildIdentities_Inr)
qed

subsection \<open>The authenticator interface\<close>

text \<open>
  What the interceptor relies on: whoever authenticates as valid holds a well-formed identity
  that is one of the configured ones.
\<close>

locale authenticator_contract =
  fixes Authenticate :: authenticator
    and configured :: "identity \<Rightarrow> bool"
  assumes valid_configured: "Authenticate k = Inr i \<Longrightarrow> id_valid i \<Longrightarrow> configured i"
    and configured_well_formed: "configured i \<Longrightarrow> well_formed_identity i"
begin

lemma valid_well_formed: "Authenticate k = Inr i \<Longrightarrow> id_valid i \<Longrightarrow> well_formed_identity i"
  by (blast intro: configured_well_formed valid_configured)

lemma valid_queue_nonempty:
  "Authenticate k = Inr i \<Longrightarrow> id_valid i \<Longrightarrow> AllowsTaskQueue i q \<Longrightarrow> q \<noteq> ''''"
  by (auto dest!: valid_well_formed simp: well_formed_identity_def)

end

text \<open>The identities of a table, up to the subject that the JWT authenticator fills in.\<close>

definition in_table :: "(string \<Rightarrow> identity option) \<Rightarrow> identity \<Rightarrow> bool" where
  "in_table m i \<longleftrightarrow> (\<exists>k j. m k = Some j \<and> i = j\<lparr>id_subject := id_subject i\<rparr>)"

text \<open>A table that \<open>buildIdentities\<close> has returned.\<close>

locale identity_table =
  fixes entries :: "(string \<times> static_key_entry) list"
    and hash :: bool
    and identities :: "string \<Rightarrow> identity option"
  assumes built: "buildIdentities entries hash = Inr identities"
begin

lemma in_table_well_formed: "in_table identities i \<Longrightarrow> well_formed_identity i"
proof -
  assume "in_table identities i"
  then obtain k j where "identities k = Some j" and i: "i = j\<lparr>id_subject := id_subject i\<rparr>"
    by (auto simp: in_table_def)
  then have "well_formed_identity j" by (blast intro: buildIdentities_well_formed [OF built])
  then show ?thesis by (subst i) (simp add: well_formed_identity_def)
qed

lemma in_tableI: "identities k = Some i \<Longrightarrow> in_table identities i"
  unfolding in_table_def by (rule exI [of _ k], rule exI [of _ i]) simp

end

lemma static_contract:
  assumes "identity_table entries hash identities"
  shows "authenticator_contract (StaticAuthenticate identities) (in_table identities)"
  by unfold_locales
    (auto simp: StaticAuthenticate_def zero_identity_def identity_table.in_table_well_formed [OF assms]
      split: option.splits intro: identity_table.in_tableI [OF assms])

lemma jwt_contract:
  assumes "identity_table entries hash identities"
  shows "authenticator_contract (JWTAuthenticate identities validate) (in_table identities)"
proof unfold_locales
  fix k i
  assume a: "JWTAuthenticate identities validate k = Inr i" and "id_valid i"
  then obtain email j where "identities email = Some j"
    and "i = (if id_subject j = '''' then j\<lparr>id_subject := email\<rparr> else j)"
    by (auto simp: JWTAuthenticate_def zero_identity_def split: sum.splits option.splits)
  then show "in_table identities i"
    unfolding in_table_def by (intro exI [of _ email] exI [of _ j]) auto
qed (rule identity_table.in_table_well_formed [OF assms])

sublocale identity_table \<subseteq> static: authenticator_contract "StaticAuthenticate identities" "in_table identities"
  by (rule static_contract) unfold_locales

sublocale identity_table \<subseteq> jwt: authenticator_contract "JWTAuthenticate identities validate" "in_table identities" for validate
  by (rule jwt_contract) unfold_locales

text \<open>The auth file shipped with the image, \<open>cmd/temporal-proxy/kodata/static-auth.json\<close>.\<close>

definition shipped_entry :: static_key_entry where
  "shipped_entry = \<lparr>ske_namespace = ''stefan-ephemeral-workers.a2dd6'',
                    ske_task_queues = [''proxy-test-queue''], ske_subject = ''worker-fleet-a''\<rparr>"

definition shipped_keys :: "(string \<times> static_key_entry) list" where
  "shipped_keys = [(''test'', shipped_entry)]"

definition shipped_identities :: "string \<Rightarrow> identity option" where
  "shipped_identities = [hashKey ''test'' \<mapsto> identity_of shipped_entry]"

interpretation shipped: identity_table shipped_keys True shipped_identities
  by unfold_locales
    (simp add: buildIdentities_Inr shipped_keys_def shipped_identities_def map_key_def
      entry_ok_def shipped_entry_def)

subsection \<open>Properties\<close>

text \<open>A table is determined by the entries, where no two of them are mapped to one key.\<close>

lemma buildIdentities_determined:
  assumes "distinct (map (map_key hash \<circ> fst) es)"
  shows "buildIdentities es hash = Inr m \<longleftrightarrow>
    (\<forall>(k, e) \<in> set es. entry_ok e) \<and>
    (\<forall>k i. m k = Some i \<longleftrightarrow> (\<exists>(k', e) \<in> set es. k = map_key hash k' \<and> i = identity_of e))"
proof
  assume b: "buildIdentities es hash = Inr m"
  have "m k = Some i \<longleftrightarrow> (\<exists>(k', e) \<in> set es. k = map_key hash k' \<and> i = identity_of e)" for k i
    using buildIdentities_lookup [OF b _ assms] by (fastforce elim: buildIdentities_ran [OF b])
  with b show "(\<forall>(k, e) \<in> set es. entry_ok e) \<and>
    (\<forall>k i. m k = Some i \<longleftrightarrow> (\<exists>(k', e) \<in> set es. k = map_key hash k' \<and> i = identity_of e))"
    by (simp add: buildIdentities_Inr)
next
  assume r: "(\<forall>(k, e) \<in> set es. entry_ok e) \<and>
    (\<forall>k i. m k = Some i \<longleftrightarrow> (\<exists>(k', e) \<in> set es. k = map_key hash k' \<and> i = identity_of e))"
  then obtain m' where b: "buildIdentities es hash = Inr m'"
    by (simp add: buildIdentities_Inr)
  have "m' k = Some i \<longleftrightarrow> (\<exists>(k', e) \<in> set es. k = map_key hash k' \<and> i = identity_of e)" for k i
    using buildIdentities_lookup [OF b _ assms] by (fastforce elim: buildIdentities_ran [OF b])
  with r have "m' k = Some i \<longleftrightarrow> m k = Some i" for k i by simp
  then have "m' = m" by (metis ext option.exhaust)
  with b show "buildIdentities es hash = Inr m" by simp
qed

text \<open>C26:
  A section of the auth file is accepted exactly if every entry has a namespace and at least one task
  queue and no empty one, and the table then maps the key of each entry, hashed if asked for, to the
  valid identity of that entry, and nothing else.
\<close>

theorem identities_built:
  assumes "distinct (map (map_key hash \<circ> fst) es)"
  shows "buildIdentities es hash = Inr m \<longleftrightarrow>
    (\<forall>(k, e) \<in> set es. ske_namespace e \<noteq> '''' \<and> ske_task_queues e \<noteq> [] \<and> '''' \<notin> set (ske_task_queues e)) \<and>
    (\<forall>k i. m k = Some i \<longleftrightarrow>
       (\<exists>(k', e) \<in> set es. k = (if hash then hashKey k' else k') \<and>
          i = \<lparr>id_valid = True, id_namespace = ske_namespace e, id_task_queues = ske_task_queues e,
               id_subject = ske_subject e\<rparr>))"
  using buildIdentities_determined [OF assms]
  by (simp add: entry_ok_def map_key_def identity_of_def)

theorem identities_built_witness:
  "\<nexists>m. buildIdentities [(''a@x'', shipped_entry), (''b@x'', shipped_entry\<lparr>ske_namespace := ''''\<rparr>)] False = Inr m"
proof
  assume "\<exists>m. buildIdentities [(''a@x'', shipped_entry), (''b@x'', shipped_entry\<lparr>ske_namespace := ''''\<rparr>)] False = Inr m"
  then obtain m where
    "buildIdentities [(''a@x'', shipped_entry), (''b@x'', shipped_entry\<lparr>ske_namespace := ''''\<rparr>)] False = Inr m" ..
  then show False
    using identities_built [of False "[(''a@x'', shipped_entry), (''b@x'', shipped_entry\<lparr>ske_namespace := ''''\<rparr>)]" m]
    by (simp add: map_key_def)
qed

text \<open>C29:
  The result does not depend on the order in which Go visits the entries of the section: whether it
  is accepted, and the table it becomes.
\<close>

theorem identities_order_independent:
  assumes "mset es = mset es'" and "distinct (map (map_key hash \<circ> fst) es)"
  shows "buildIdentities es hash = Inr m \<longleftrightarrow> buildIdentities es' hash = Inr m"
proof -
  have "distinct (map (map_key hash \<circ> fst) es')"
    using assms by (metis mset_map mset_eq_imp_distinct_iff)
  moreover have "set es = set es'" using assms(1) by (rule mset_eq_setD)
  ultimately show ?thesis by (simp add: buildIdentities_determined assms(2))
qed

theorem identities_order_independent_witness:
  "buildIdentities [(''b@x'', shipped_entry), (''a@x'', shipped_entry)] False =
     Inr [''a@x'' \<mapsto> identity_of shipped_entry, ''b@x'' \<mapsto> identity_of shipped_entry]"
proof -
  have "buildIdentities [(''a@x'', shipped_entry), (''b@x'', shipped_entry)] False =
      Inr [''a@x'' \<mapsto> identity_of shipped_entry, ''b@x'' \<mapsto> identity_of shipped_entry]"
    by (auto simp: buildIdentities_Inr map_key_def entry_ok_def shipped_entry_def)
  then show ?thesis
    by (subst identities_order_independent [where es' = "[(''a@x'', shipped_entry), (''b@x'', shipped_entry)]"])
      (simp_all add: map_key_def)
qed

text \<open>C27:
  An API key authenticates as a valid identity exactly if its digest is the digest of a configured
  key, and then as the identity of that key's entry; every other key gets the invalid zero identity,
  never an error.
\<close>

theorem static_key_authenticates:
  assumes "buildIdentities es True = Inr identities" and "distinct (map (hashKey \<circ> fst) es)"
  shows "(case StaticAuthenticate identities apiKey of
      Inl err \<Rightarrow> False
    | Inr i \<Rightarrow> if id_valid i then \<exists>(k, e) \<in> set es. hashKey k = hashKey apiKey \<and> i = identity_of e
              else i = zero_identity \<and> (\<forall>(k, e) \<in> set es. hashKey k \<noteq> hashKey apiKey))"
proof -
  have "map_key True = hashKey" by (simp add: map_key_def fun_eq_iff)
  with buildIdentities_determined [of True es identities] assms
  have look: "identities k = Some i \<longleftrightarrow> (\<exists>(k', e) \<in> set es. k = hashKey k' \<and> i = identity_of e)" for k i
    by simp
  show ?thesis
  proof (cases "identities (hashKey apiKey)")
    case None
    have "hashKey k \<noteq> hashKey apiKey" if "(k, e) \<in> set es" for k e
      using look [of "hashKey apiKey" "identity_of e"] None that by auto
    then have "\<forall>(k, e) \<in> set es. hashKey k \<noteq> hashKey apiKey" by blast
    with None show ?thesis by (simp add: StaticAuthenticate_def zero_identity_def)
  next
    case (Some i)
    with look obtain k e where "(k, e) \<in> set es" "hashKey apiKey = hashKey k" "i = identity_of e" by blast
    with Some show ?thesis by (auto simp: StaticAuthenticate_def identity_of_def intro!: bexI [of _ "(k, e)"])
  qed
qed

theorem static_key_authenticates_witness:
  "case StaticAuthenticate shipped_identities ''test'' of
      Inl err \<Rightarrow> False
    | Inr i \<Rightarrow> if id_valid i then \<exists>(k, e) \<in> set shipped_keys. hashKey k = hashKey ''test'' \<and> i = identity_of e
              else i = zero_identity \<and> (\<forall>(k, e) \<in> set shipped_keys. hashKey k \<noteq> hashKey ''test'')"
  by (rule static_key_authenticates [OF shipped.built]) (simp add: shipped_keys_def)

end
