(* ===== verification/Token_Store.thy ===== *)
theory Token_Store
  imports Prelude
begin

section \<open>internal/tokencache: the Store interface\<close>

text \<open>
  The entry a task token is mapped to and the interface \<open>Store\<close> of \<open>cache.go\<close>, a record of the
  operations, each of which takes the store's state and returns the new one.  An operation also
  gets the readings of \<open>time.Now()\<close> it makes, in order; an error is its text.  The locale
  \<open>token_store\<close> states what the interceptor relies on: a store may forget a token at any time, but
  it never returns an entry that was not put for that token.
\<close>

record entry =
  entry_namespace :: string
  entry_task_queue :: string

text \<open>An entry to evaluate on.\<close>

definition sample_entry :: entry where
  "sample_entry = \<lparr>entry_namespace = ''ns'', entry_task_queue = ''q''\<rparr>"

type_synonym readings = "instant \<times> instant"

record 's store =
  Put :: "readings \<Rightarrow> bytes \<Rightarrow> entry \<Rightarrow> 's \<Rightarrow> string option \<times> 's"
  Get :: "readings \<Rightarrow> bytes \<Rightarrow> 's \<Rightarrow> (string + entry option) \<times> 's"
  Delete :: "readings \<Rightarrow> bytes \<Rightarrow> 's \<Rightarrow> string option \<times> 's"
  Close :: "'s \<Rightarrow> (string option \<times> 's) option"
    \<comment> \<open>\<open>None\<close> is a panic\<close>

text \<open>
  The contract.  \<open>holds s t\<close> is the entry the state \<open>s\<close> has for \<open>t\<close>; \<open>tokens\<close> is the set of tokens
  the laws speak of, \<open>admissible\<close> the entries that the store represents exactly, and \<open>drift\<close> a step
  the store may take on its own (the expiry of entries).
\<close>

locale token_store =
  fixes S :: "'s store"
    and tokens :: "bytes set"
    and admissible :: "entry \<Rightarrow> bool"
    and ok :: "'s \<Rightarrow> bool"
    and holds :: "'s \<Rightarrow> bytes \<Rightarrow> entry option"
    and drift :: "'s \<Rightarrow> 's \<Rightarrow> bool"
  assumes put_ok: "ok s \<Longrightarrow> Put S c t e s = (r, s') \<Longrightarrow> ok s'"
    and get_ok: "ok s \<Longrightarrow> Get S c t s = (g, s') \<Longrightarrow> ok s'"
    and delete_ok: "ok s \<Longrightarrow> Delete S c t s = (r, s') \<Longrightarrow> ok s'"
    and drift_ok: "ok s \<Longrightarrow> drift s s' \<Longrightarrow> ok s'"
    and put_holds: "ok s \<Longrightarrow> admissible e \<Longrightarrow> t \<in> tokens \<Longrightarrow> u \<in> tokens \<Longrightarrow> Put S c t e s = (r, s') \<Longrightarrow>
          holds s' u = Some f \<Longrightarrow> holds s u = Some f \<or> u = t \<and> f = e"
    and put_overwrites: "ok s \<Longrightarrow> admissible e \<Longrightarrow> t \<in> tokens \<Longrightarrow> Put S c t e s = (None, s') \<Longrightarrow>
          holds s' t = Some f \<Longrightarrow> f = e"
    and get_hit: "ok s \<Longrightarrow> t \<in> tokens \<Longrightarrow> Get S c t s = (Inr (Some e), s') \<Longrightarrow> holds s t = Some e"
    and get_holds: "ok s \<Longrightarrow> t \<in> tokens \<Longrightarrow> u \<in> tokens \<Longrightarrow> Get S c t s = (g, s') \<Longrightarrow>
          holds s' u = Some f \<Longrightarrow> holds s u = Some f"
    and delete_holds: "ok s \<Longrightarrow> t \<in> tokens \<Longrightarrow> u \<in> tokens \<Longrightarrow> Delete S c t s = (r, s') \<Longrightarrow>
          holds s' u = Some f \<Longrightarrow> holds s u = Some f"
    and delete_forgets: "ok s \<Longrightarrow> t \<in> tokens \<Longrightarrow> Delete S c t s = (None, s') \<Longrightarrow> holds s' t = None"
    and drift_holds: "ok s \<Longrightarrow> u \<in> tokens \<Longrightarrow> drift s s' \<Longrightarrow>
          holds s' u = Some f \<Longrightarrow> holds s u = Some f"
begin

lemmas laws = put_ok get_ok delete_ok drift_ok put_holds put_overwrites get_hit get_holds
  delete_holds delete_forgets drift_holds

lemma get_miss:
  "ok s \<Longrightarrow> t \<in> tokens \<Longrightarrow> holds s t = None \<Longrightarrow> Get S c t s = (g, s') \<Longrightarrow> g \<noteq> Inr (Some e)"
  using get_hit by fastforce

end

text \<open>
  A history of operations, each with what it answered, and the entries a client may be told about
  afterwards.  A put that succeeds leaves its entry alone and a deletion that succeeds leaves none; one
  that fails may or may not have taken effect, so a failed put adds its entry to those there were.
\<close>

datatype store_op =
    OpPut bytes entry "string option"
  | OpGet bytes
  | OpDelete bytes "string option"
  | OpDrift

inductive store_runs :: "'s store \<Rightarrow> ('s \<Rightarrow> 's \<Rightarrow> bool) \<Rightarrow> 's \<Rightarrow> store_op list \<Rightarrow> 's \<Rightarrow> bool"
  for S :: "'s store" and drift :: "'s \<Rightarrow> 's \<Rightarrow> bool" where
  runs_start: "store_runs S drift s [] s"
| runs_put: "store_runs S drift s0 h s \<Longrightarrow> Put S c t e s = (r, s') \<Longrightarrow>
     store_runs S drift s0 (h @ [OpPut t e r]) s'"
| runs_get: "store_runs S drift s0 h s \<Longrightarrow> Get S c t s = (g, s') \<Longrightarrow>
     store_runs S drift s0 (h @ [OpGet t]) s'"
| runs_delete: "store_runs S drift s0 h s \<Longrightarrow> Delete S c t s = (r, s') \<Longrightarrow>
     store_runs S drift s0 (h @ [OpDelete t r]) s'"
| runs_drift: "store_runs S drift s0 h s \<Longrightarrow> drift s s' \<Longrightarrow>
     store_runs S drift s0 (h @ [OpDrift]) s'"

fun spec_step :: "(bytes \<Rightarrow> entry set) \<Rightarrow> store_op \<Rightarrow> (bytes \<Rightarrow> entry set)" where
  "spec_step m (OpPut t e r) = m(t := (if r = None then {e} else insert e (m t)))"
| "spec_step m (OpGet t) = m"
| "spec_step m (OpDelete t r) = m(t := (if r = None then {} else m t))"
| "spec_step m OpDrift = m"

definition spec_map :: "store_op list \<Rightarrow> (bytes \<Rightarrow> entry set)" where
  "spec_map h = fold (\<lambda>op m. spec_step m op) h (\<lambda>_. {})"

lemma spec_map_simps [simp]:
  "spec_map [] = (\<lambda>_. {})"
  "spec_map (h @ [op]) = spec_step (spec_map h) op"
  by (simp_all add: spec_map_def)

text \<open>The tokens an operation names, the entries it puts, and whether it succeeded.\<close>

fun op_tokens :: "store_op \<Rightarrow> bytes set" where
  "op_tokens (OpPut t e r) = {t}"
| "op_tokens (OpGet t) = {t}"
| "op_tokens (OpDelete t r) = {t}"
| "op_tokens OpDrift = {}"

fun op_entries :: "store_op \<Rightarrow> entry set" where
  "op_entries (OpPut t e r) = {e}"
| "op_entries _ = {}"

fun op_succeeded :: "store_op \<Rightarrow> bool" where
  "op_succeeded (OpPut t e r) = (r = None)"
| "op_succeeded (OpDelete t r) = (r = None)"
| "op_succeeded _ = True"

text \<open>Without failures, the specification is a plain map: at most one entry for a token.\<close>

lemma spec_map_single: "list_all op_succeeded h \<Longrightarrow> e \<in> spec_map h t \<Longrightarrow> spec_map h t = {e}"
proof (induction h arbitrary: e t rule: rev_induct)
  case (snoc op h)
  then show ?case by (cases op) (auto split: if_splits)
qed simp

lemma runs_succeed:
  assumes "store_runs S drift s0 h s" and "\<And>c t e s. fst (Put S c t e s) = None"
    and "\<And>c t s. fst (Delete S c t s) = None"
  shows "list_all op_succeeded h"
  using assms(1)
proof (induction rule: store_runs.induct)
  case (runs_put s0 h s c t e r s')
  with assms(2) [of c t e s] show ?case by simp
next
  case (runs_delete s0 h s c t r s')
  with assms(3) [of c t s] show ?case by simp
qed simp_all

context token_store
begin

lemma runs_ok: "store_runs S drift s0 h s \<Longrightarrow> ok s0 \<Longrightarrow> ok s"
  by (induction rule: store_runs.induct) (blast intro: put_ok get_ok delete_ok drift_ok)+

text \<open>
  Refinement: whatever the store holds for a token after a history of operations is one of the entries
  that the specification has for it.
\<close>

lemma put_refines:
  assumes "ok s" and "admissible e" and "t \<in> tokens" and "u \<in> tokens" and "Put S c t e s = (r, s')"
    and "holds s' u = Some f" and "holds s u = Some f \<Longrightarrow> f \<in> m u"
  shows "f \<in> spec_step m (OpPut t e r) u"
proof (cases "u = t \<and> r = None")
  case True
  with put_overwrites [OF assms(1-3)] assms(5,6) show ?thesis by simp
next
  case False
  with put_holds [OF assms(1-6)] assms(7) show ?thesis by auto
qed

lemma delete_refines:
  assumes "ok s" and "t \<in> tokens" and "u \<in> tokens" and "Delete S c t s = (r, s')"
    and "holds s' u = Some f" and "holds s u = Some f \<Longrightarrow> f \<in> m u"
  shows "f \<in> spec_step m (OpDelete t r) u"
proof (cases "u = t \<and> r = None")
  case True
  with delete_forgets [OF assms(1,2)] assms(4,5) show ?thesis by fastforce
next
  case False
  with delete_holds [OF assms(1-5)] assms(6) show ?thesis by auto
qed

lemma runs_refine_spec:
  assumes "store_runs S drift s0 h s" and "ok s0" and "\<forall>u. holds s0 u = None"
    and "\<Union>(op_tokens ` set h) \<subseteq> tokens" and "\<Union>(op_entries ` set h) \<subseteq> Collect admissible"
    and "u \<in> tokens" and "holds s u = Some f"
  shows "f \<in> spec_map h u"
  using assms
proof (induction arbitrary: u f rule: store_runs.induct)
  case (runs_put s0 h s c t e r s')
  have "ok s" by (rule runs_ok [OF runs_put.hyps(1) runs_put.prems(1)])
  with runs_put show ?case by (simp only: spec_map_simps) (rule put_refines, auto)
next
  case (runs_get s0 h s c t g s')
  have "ok s" by (rule runs_ok [OF runs_get.hyps(1) runs_get.prems(1)])
  with runs_get show ?case by (auto dest: get_holds)
next
  case (runs_delete s0 h s c t r s')
  have "ok s" by (rule runs_ok [OF runs_delete.hyps(1) runs_delete.prems(1)])
  with runs_delete show ?case by (simp only: spec_map_simps) (rule delete_refines, auto)
next
  case (runs_drift s0 h s s')
  have "ok s" by (rule runs_ok [OF runs_drift.hyps(1) runs_drift.prems(1)])
  with runs_drift show ?case by (auto dest: drift_holds)
qed simp

lemma runs_get_spec:
  assumes "store_runs S drift s0 h s" and "ok s0" and "\<forall>u. holds s0 u = None"
    and "\<Union>(op_tokens ` set h) \<subseteq> tokens" and "\<Union>(op_entries ` set h) \<subseteq> Collect admissible"
    and "t \<in> tokens"
    and "Get S c t s = (Inr (Some e), s')"
  shows "e \<in> spec_map h t"
proof -
  have "holds s t = Some e"
    using get_hit [OF runs_ok [OF assms(1,2)] assms(6,7)] .
  then show ?thesis by (rule runs_refine_spec [OF assms(1-6)])
qed

end

end
