(* ===== verification/Interceptor.thy ===== *)
theory Interceptor
  imports Rpc_Policy Scope Actions Auth Token_Store
begin

section \<open>internal/proxy/interceptor.go: the access-control interceptor\<close>

text \<open>
  The single unary interceptor.  Its body is split where it touches shared state, in the order of
  the source: \<open>check_call\<close> is everything before the handler (one cache \<open>Get\<close> at most),
  \<open>delete_terminal\<close> and \<open>register_tokens\<close> are the bookkeeping after it, and \<open>interceptor\<close> composes
  them around the handler.  A log line is a value; an error text is the constructor that names it.
\<close>

subsection \<open>Statuses, contexts and log lines\<close>

datatype code = PermissionDenied | Internal | Unavailable | Unimplemented | OtherCode nat

datatype authz_error =
    NamespaceNotAuthorized string
  | MissingTaskQueue
  | StickyTaskQueueNotAuthorized string
  | TaskQueueNotAuthorized string
  | WorkerHeartbeatRejected heartbeat_error
  | MissingTaskToken
  | TokenCacheUnavailable string
  | UnknownTaskToken
  | TaskTokenNotAuthorized
  | CommandRejected command_error
  | InvalidWorkerHeartbeatRequest

datatype reason =
    RpcNotPermitted string
  | MissingCredentials
  | InvalidCredentials
  | NotProtoMessage
  | AccessDenied authz_error
  | CacheUnavailable
  | MissingTaskQueueScope
  | UpstreamReason string

record status =
  st_code :: code
  st_reason :: reason

abbreviation status_of :: "code \<Rightarrow> reason \<Rightarrow> status" where
  "status_of c r \<equiv> \<lparr>st_code = c, st_reason = r\<rparr>"

text \<open>
  Incoming metadata, as \<open>metadata.FromIncomingContext\<close> gives it: absent, or a map from lower-case
  keys to the list of values.
\<close>

type_synonym metadata = "string \<Rightarrow> string list option"

definition mdGet :: "metadata \<Rightarrow> string \<Rightarrow> string list" where
  "mdGet md k = (case md k of None \<Rightarrow> [] | Some vs \<Rightarrow> vs)"

text \<open>
  The context of a request, as far as the program looks into it: the metadata that came in, the pairs
  of the outgoing metadata in the order in which they were appended, and the value under
  \<open>identityContextKey\<close>.  gRPC makes the context of a call with the incoming metadata alone.
\<close>

record request_context =
  cx_incoming :: "metadata option"
  cx_outgoing :: "(string \<times> string) list"
  cx_identity :: "identity option"

definition incoming_context :: "metadata option \<Rightarrow> request_context" where
  "incoming_context md = \<lparr>cx_incoming = md, cx_outgoing = [], cx_identity = None\<rparr>"

lemma incoming_context_simps [simp]:
  "cx_incoming (incoming_context md) = md"
  "cx_outgoing (incoming_context md) = []"
  "cx_identity (incoming_context md) = None"
  by (simp_all add: incoming_context_def)

definition withIdentity :: "request_context \<Rightarrow> identity \<Rightarrow> request_context" where
  "withIdentity ctx identity = ctx\<lparr>cx_identity := Some identity\<rparr>"

definition IdentityFromContext :: "request_context \<Rightarrow> identity \<times> bool" where
  "IdentityFromContext ctx =
     (case cx_identity ctx of None \<Rightarrow> (zero_identity, False) | Some identity \<Rightarrow> (identity, True))"

text \<open>One call: the full method name, the metadata, and the request, \<open>None\<close> if it is no \<open>proto.Message\<close>.\<close>

record call =
  ca_method :: string
  ca_metadata :: "metadata option"
  ca_request :: "request option"

abbreviation call_context :: "call \<Rightarrow> request_context" where
  "call_context ca \<equiv> incoming_context (ca_metadata ca)"

datatype log_line =
    LogRpcNotPermitted string
  | LogMissingCredentials string
  | LogInvalidCredentials string
  | LogDenied string string authz_error
  | LogDeleteFailed string string string
  | LogMissingScope string string
  | LogPutFailed string string string
  | LogAction action string string string string
      \<comment> \<open>action, rpc, namespace, task queue, subject\<close>

subsection \<open>Name and credential of a call\<close>

definition rpcNameFromFullMethod :: "string \<Rightarrow> string" where
  "rpcNameFromFullMethod fullMethod =
     (case lastIndex fullMethod (CHR ''/'') of
        Some idx \<Rightarrow> drop (idx + 1) fullMethod
      | None \<Rightarrow> fullMethod)"

definition bearer_prefix :: string where
  "bearer_prefix = ''Bearer ''"

text \<open>\<open>None\<close> is the error \<open>errMissingCredentials\<close>.\<close>

definition extractAPIKey :: "request_context \<Rightarrow> string option" where
  "extractAPIKey ctx =
     (case cx_incoming ctx of
        None \<Rightarrow> None
      | Some md \<Rightarrow>
          (let values = mdGet md ''authorization'' in
           if length values \<noteq> 1 then None
           else if \<not> hasPrefix (values ! 0) bearer_prefix then None
           else (let key = trimPrefix (values ! 0) bearer_prefix in
                 if key = '''' then None else Some key)))"

subsection \<open>authorizeRequest\<close>

definition pollTaskQueueScope :: "task_queue option \<Rightarrow> string" where
  "pollTaskQueueScope tq = (if GetKind tq = KIND_STICKY then GetNormalName tq else GetName tq)"

fun nexus_heartbeat_check :: "request \<Rightarrow> identity \<Rightarrow> heartbeat_error option" where
  "nexus_heartbeat_check (PollNexusTaskQueueRequest _ _ hbs) identity =
     ValidateWorkerHeartbeatTaskQueues hbs (id_task_queues identity)"
| "nexus_heartbeat_check _ identity = None"

definition authorizePoll :: "request \<Rightarrow> identity \<Rightarrow> authz_error + string" where
  "authorizePoll req identity =
     (if fst (RequestNamespace req) \<noteq> id_namespace identity
      then Inl (NamespaceNotAuthorized (fst (RequestNamespace req)))
      else (case RequestTaskQueue req of (tq, ok) \<Rightarrow>
        if \<not> ok \<or> GetName tq = '''' then Inl MissingTaskQueue
        else (let taskQueue = pollTaskQueueScope tq in
          if taskQueue = '''' then Inl MissingTaskQueue
          else if \<not> AllowsTaskQueue identity taskQueue then
            (if GetKind tq = KIND_STICKY then Inl (StickyTaskQueueNotAuthorized taskQueue)
             else Inl (TaskQueueNotAuthorized taskQueue))
          else (case nexus_heartbeat_check req identity of
                  Some err \<Rightarrow> Inl (WorkerHeartbeatRejected err)
                | None \<Rightarrow> Inr taskQueue))))"

text \<open>The commands that are validated: only for \<open>RespondWorkflowTaskCompleted\<close>, by name and by type.\<close>

definition command_check :: "string \<Rightarrow> request \<Rightarrow> string \<Rightarrow> string \<Rightarrow> command_error option" where
  "command_check rpcName req namespace taskQueue =
     (if rpcName = ''RespondWorkflowTaskCompleted''
      then (case req of
              RespondWorkflowTaskCompletedRequest _ _ cmds \<Rightarrow> ValidateCommands cmds namespace taskQueue
            | _ \<Rightarrow> None)
      else None)"

definition authorizeToken ::
  "'s store \<Rightarrow> readings \<Rightarrow> request \<Rightarrow> string \<Rightarrow> identity \<Rightarrow> 's \<Rightarrow> (authz_error + string) \<times> 's" where
  "authorizeToken S clk req rpcName identity s =
     (if snd (RequestNamespace req) \<and> fst (RequestNamespace req) \<noteq> id_namespace identity
      then (Inl (NamespaceNotAuthorized (fst (RequestNamespace req))), s)
      else (case RequestTaskToken req of (token, ok) \<Rightarrow>
        if \<not> ok \<or> length token = 0 then (Inl MissingTaskToken, s)
        else (case Get S clk token s of
            (Inl err, s') \<Rightarrow> (Inl (TokenCacheUnavailable err), s')
          | (Inr None, s') \<Rightarrow> (Inl UnknownTaskToken, s')
          | (Inr (Some entry), s') \<Rightarrow>
              (if entry_namespace entry \<noteq> id_namespace identity
                  \<or> \<not> AllowsTaskQueue identity (entry_task_queue entry)
               then (Inl TaskTokenNotAuthorized, s')
               else (case command_check rpcName req (id_namespace identity) (entry_task_queue entry) of
                       Some err \<Rightarrow> (Inl (CommandRejected err), s')
                     | None \<Rightarrow> (Inr (entry_task_queue entry), s'))))))"

definition authorizeNamespaceOnly :: "request \<Rightarrow> identity \<Rightarrow> authz_error + string" where
  "authorizeNamespaceOnly req identity =
     (if fst (RequestNamespace req) \<noteq> id_namespace identity
      then Inl (NamespaceNotAuthorized (fst (RequestNamespace req))) else Inr '''')"

definition authorizeWorker :: "request \<Rightarrow> identity \<Rightarrow> authz_error + string" where
  "authorizeWorker req identity =
     (if fst (RequestNamespace req) \<noteq> id_namespace identity
      then Inl (NamespaceNotAuthorized (fst (RequestNamespace req)))
      else (case RequestTaskQueueName req of (tq, ok) \<Rightarrow>
        if ok then (if tq \<noteq> '''' \<and> \<not> AllowsTaskQueue identity tq
                    then Inl (TaskQueueNotAuthorized tq) else Inr tq)
        else Inr ''''))"

definition authorizeWorkerHeartbeat :: "request \<Rightarrow> identity \<Rightarrow> authz_error + string" where
  "authorizeWorkerHeartbeat req identity =
     (if fst (RequestNamespace req) \<noteq> id_namespace identity
      then Inl (NamespaceNotAuthorized (fst (RequestNamespace req)))
      else (case req of
              RecordWorkerHeartbeatRequest _ hbs \<Rightarrow>
                (case ValidateWorkerHeartbeatTaskQueues hbs (id_task_queues identity) of
                   Some err \<Rightarrow> Inl (WorkerHeartbeatRejected err)
                 | None \<Rightarrow> Inr '''')
            | _ \<Rightarrow> Inl InvalidWorkerHeartbeatRequest))"

definition authorizeRequest ::
  "'s store \<Rightarrow> readings \<Rightarrow> request \<Rightarrow> string \<Rightarrow> policy \<Rightarrow> identity \<Rightarrow> 's
   \<Rightarrow> (authz_error + string) \<times> 's" where
  "authorizeRequest S clk req rpcName policy identity s =
     (case Category policy of
        CategoryPoll \<Rightarrow> (authorizePoll req identity, s)
      | CategoryToken \<Rightarrow> authorizeToken S clk req rpcName identity s
      | CategoryUnscoped \<Rightarrow> (Inr '''', s)
      | CategoryNamespaceOnly \<Rightarrow> (authorizeNamespaceOnly req identity, s)
      | CategoryWorker \<Rightarrow> (authorizeWorker req identity, s)
      | CategoryWorkerHeartbeat \<Rightarrow> (authorizeWorkerHeartbeat req identity, s))"

definition grpcErrorForAuthorizationError :: "authz_error \<Rightarrow> status" where
  "grpcErrorForAuthorizationError err =
     (case err of
        TokenCacheUnavailable _ \<Rightarrow> status_of Unavailable CacheUnavailable
      | _ \<Rightarrow> status_of PermissionDenied (AccessDenied err))"

subsection \<open>The interceptor\<close>

text \<open>What is known of a call once it is authorized: the local variables live at the handler.\<close>

record checked =
  ck_rpc :: string
  ck_policy :: policy
  ck_identity :: identity
  ck_request :: request
  ck_scope :: string
  ck_context :: request_context

definition check_call ::
  "authenticator \<Rightarrow> 's store \<Rightarrow> readings \<Rightarrow> call \<Rightarrow> 's
   \<Rightarrow> (status + checked) \<times> log_line list \<times> 's" where
  "check_call Authenticate S clk ca s =
     (let rpcName = rpcNameFromFullMethod (ca_method ca);
          ctx = call_context ca in
      case Allowed rpcName of
        None \<Rightarrow> (Inl (status_of PermissionDenied (RpcNotPermitted rpcName)),
                 [LogRpcNotPermitted rpcName], s)
      | Some policy \<Rightarrow>
          (case extractAPIKey ctx of
             None \<Rightarrow> (Inl (status_of PermissionDenied MissingCredentials),
                      [LogMissingCredentials rpcName], s)
           | Some apiKey \<Rightarrow>
               (case Authenticate apiKey of
                  Inl err \<Rightarrow> (Inl (status_of PermissionDenied InvalidCredentials),
                              [LogInvalidCredentials rpcName], s)
                | Inr identity \<Rightarrow>
                    (if \<not> id_valid identity
                     then (Inl (status_of PermissionDenied InvalidCredentials),
                           [LogInvalidCredentials rpcName], s)
                     else (case ca_request ca of
                             None \<Rightarrow> (Inl (status_of Internal NotProtoMessage), [], s)
                           | Some req \<Rightarrow>
                               (case authorizeRequest S clk req rpcName policy identity s of
                                  (Inl err, s') \<Rightarrow>
                                    (Inl (grpcErrorForAuthorizationError err),
                                     [LogDenied rpcName (id_subject identity) err], s')
                                | (Inr taskQueue, s') \<Rightarrow>
                                    (Inr \<lparr>ck_rpc = rpcName, ck_policy = policy,
                                          ck_identity = identity, ck_request = req,
                                          ck_scope = taskQueue,
                                          ck_context = withIdentity ctx identity\<rparr>, [], s')))))))"

definition delete_terminal :: "'s store \<Rightarrow> readings \<Rightarrow> checked \<Rightarrow> 's \<Rightarrow> log_line list \<times> 's" where
  "delete_terminal S clk ck s =
     (if Terminal (ck_policy ck)
      then (case RequestTaskToken (ck_request ck) of (token, ok) \<Rightarrow>
        if ok then (case Delete S clk token s of
            (None, s') \<Rightarrow> ([], s')
          | (Some err, s') \<Rightarrow> ([LogDeleteFailed (ck_rpc ck) (id_subject (ck_identity ck)) err], s'))
        else ([], s))
      else ([], s))"

text \<open>The body of the loop over the response's tokens, and the loop.\<close>

definition register_token ::
  "'s store \<Rightarrow> readings \<Rightarrow> checked \<Rightarrow> bytes \<Rightarrow> 's \<Rightarrow> status option \<times> log_line list \<times> 's" where
  "register_token S clk ck token s =
     (if ck_scope ck = ''''
      then (Some (status_of Internal MissingTaskQueueScope),
            [LogMissingScope (ck_rpc ck) (id_subject (ck_identity ck))], s)
      else (case Put S clk token
                   \<lparr>entry_namespace = id_namespace (ck_identity ck), entry_task_queue = ck_scope ck\<rparr> s of
              (Some err, s') \<Rightarrow> (Some (status_of Unavailable CacheUnavailable),
                                 [LogPutFailed (ck_rpc ck) (id_subject (ck_identity ck)) err], s')
            | (None, s') \<Rightarrow> (None, [], s')))"

fun register_tokens ::
  "'s store \<Rightarrow> (nat \<Rightarrow> readings) \<Rightarrow> checked \<Rightarrow> bytes list \<Rightarrow> 's
   \<Rightarrow> status option \<times> log_line list \<times> 's" where
  "register_tokens S clk ck [] s = (None, [], s)"
| "register_tokens S clk ck (token # tokens) s =
     (case register_token S (clk 0) ck token s of
        (Some st, logs, s') \<Rightarrow> (Some st, logs, s')
      | (None, logs, s') \<Rightarrow> register_tokens S (\<lambda>n. clk (Suc n)) ck tokens s')"

definition action_logs :: "checked \<Rightarrow> log_line list" where
  "action_logs ck =
     map (\<lambda>a. LogAction a (ck_rpc ck) (id_namespace (ck_identity ck)) (ck_scope ck)
                 (id_subject (ck_identity ck)))
       (FromRequest (ck_request ck))"

definition response_tokens :: "response option \<Rightarrow> bytes list" where
  "response_tokens resp = (case resp of None \<Rightarrow> [] | Some r \<Rightarrow> CollectResponseTaskTokens r)"

text \<open>
  The handler: a context, a request and the state of the upstream server to a status or a response
  (\<open>None\<close> if it is no \<open>proto.Message\<close>) and the upstream's next state.  \<open>clk n\<close> are the readings of
  the clock of the \<open>n\<close>th store operation of the call.
\<close>

type_synonym 'u handler = "request_context \<Rightarrow> request \<Rightarrow> 'u \<Rightarrow> (status + response option) \<times> 'u"

definition interceptor ::
  "authenticator \<Rightarrow> 's store \<Rightarrow> 'u handler \<Rightarrow> (nat \<Rightarrow> readings) \<Rightarrow> call \<Rightarrow> 's \<Rightarrow> 'u
   \<Rightarrow> (status + response option) \<times> log_line list \<times> 's \<times> 'u" where
  "interceptor Authenticate S handler clk ca s u =
     (case check_call Authenticate S (clk 0) ca s of
        (Inl st, logs, s1) \<Rightarrow> (Inl st, logs, s1, u)
      | (Inr ck, logs, s1) \<Rightarrow>
          (case handler (ck_context ck) (ck_request ck) u of
             (Inl st, u') \<Rightarrow> (Inl st, logs, s1, u')
           | (Inr resp, u') \<Rightarrow>
               (case delete_terminal S (clk 1) ck s1 of (logs2, s2) \<Rightarrow>
                (case register_tokens S (\<lambda>n. clk (n + 2)) ck (response_tokens resp) s2 of
                   (Some st, logs3, s3) \<Rightarrow> (Inl st, logs @ logs2 @ logs3, s3, u')
                 | (None, logs3, s3) \<Rightarrow>
                     (Inr resp, logs @ logs2 @ logs3 @ action_logs ck, s3, u')))))"

subsection \<open>Properties\<close>

text \<open>
  A credential is taken from a call exactly if the metadata has one value under \<open>authorization\<close> and
  it is the bearer scheme followed by a non-empty key; everything else is refused alike.
\<close>

lemma bearer_key:
  "extractAPIKey ctx = Some key \<longleftrightarrow>
     key \<noteq> '''' \<and> (\<exists>md. cx_incoming ctx = Some md \<and> md ''authorization'' = Some [''Bearer '' @ key])"
proof
  assume "extractAPIKey ctx = Some key"
  then obtain md v where ctx: "cx_incoming ctx = Some md" and v: "mdGet md ''authorization'' = [v]"
    and p: "hasPrefix v bearer_prefix" and key: "key = trimPrefix v bearer_prefix" "key \<noteq> ''''"
    by (auto simp: extractAPIKey_def Let_def length_Suc_conv split: option.splits if_splits)
  have "v = bearer_prefix @ key"
    using p unfolding key(1) by (metis append_take_drop_id hasPrefix_def trimPrefix_def)
  then have "md ''authorization'' = Some [''Bearer '' @ key]"
    using v by (simp add: mdGet_def bearer_prefix_def split: option.splits)
  with ctx key(2) show "key \<noteq> '''' \<and> (\<exists>md. cx_incoming ctx = Some md \<and> md ''authorization'' = Some [''Bearer '' @ key])"
    by blast
next
  assume "key \<noteq> '''' \<and> (\<exists>md. cx_incoming ctx = Some md \<and> md ''authorization'' = Some [''Bearer '' @ key])"
  then obtain md where "key \<noteq> ''''" and "cx_incoming ctx = Some md"
    and "md ''authorization'' = Some [bearer_prefix @ key]"
    by (auto simp: bearer_prefix_def)
  then show "extractAPIKey ctx = Some key"
    by (simp add: extractAPIKey_def mdGet_def Let_def)
qed

text \<open>
  The method name is what follows the last slash of the full method name, and the whole of it where
  there is none.
\<close>

lemma rpc_name:
  "\<exists>prefix. CHR ''/'' \<notin> set (rpcNameFromFullMethod m) \<and> m = prefix @ rpcNameFromFullMethod m \<and>
     (prefix = '''' \<and> CHR ''/'' \<notin> set m \<or> (\<exists>p. prefix = p @ ''/''))"
proof (cases "CHR ''/'' \<in> set m")
  case True
  then obtain p t where m: "m = p @ CHR ''/'' # t" and t: "CHR ''/'' \<notin> set t"
    by (metis split_list_last)
  then have "rpcNameFromFullMethod m = t"
    by (simp add: rpcNameFromFullMethod_def)
  with m t show ?thesis by (intro exI [of _ "p @ ''/''"]) simp
next
  case False
  then have "lastIndex m (CHR ''/'') = None" by (rule lastIndex_None [THEN iffD2])
  then have "rpcNameFromFullMethod m = m" unfolding rpcNameFromFullMethod_def by (simp only: option.case)
  with False show ?thesis by (intro exI [of _ "''''"]) simp
qed

text \<open>
  A poll of a sticky queue is judged by the workflow's normal queue alone: the sticky name, which the
  worker makes up, only has to be there, and the scope it yields is never the sticky name.
\<close>

lemma sticky_poll_scope:
  assumes "tq_name q \<noteq> ''''" and "tq_kind q = KIND_STICKY"
  shows "authorizePoll (PollWorkflowTaskQueueRequest ns (Some q)) i =
     (if ns \<noteq> id_namespace i then Inl (NamespaceNotAuthorized ns)
      else if tq_normal_name q = '''' then Inl MissingTaskQueue
      else if tq_normal_name q \<in> set (id_task_queues i) then Inr (tq_normal_name q)
      else Inl (StickyTaskQueueNotAuthorized (tq_normal_name q)))"
  using assms by (simp add: authorizePoll_def pollTaskQueueScope_def)

text \<open>C19:
  Failing closed: when the token store cannot be asked, a call that presents a task token is refused
  as unavailable, whatever the handler would have done, and neither the upstream nor any
  registration is reached.
\<close>

theorem store_failure_denies:
  assumes "Allowed (rpcNameFromFullMethod (ca_method ca)) = Some p" and "Category p = CategoryToken"
    and "extractAPIKey (call_context ca) = Some key" and "A key = Inr i" and "id_valid i"
    and "ca_request ca = Some req" and "RequestNamespace req = (id_namespace i, True)"
    and "RequestTaskToken req = (t, True)" and "t \<noteq> []" and "Get S (clk 0) t s = (Inl err, s')"
  shows "interceptor A S handler clk ca s u =
     (Inl (status_of Unavailable CacheUnavailable),
      [LogDenied (rpcNameFromFullMethod (ca_method ca)) (id_subject i) (TokenCacheUnavailable err)], s', u)"
  using assms
  by (simp add: interceptor_def check_call_def authorizeRequest_def authorizeToken_def
      grpcErrorForAuthorizationError_def)

lemma register_tokens_quiet: "register_tokens S clk ck ts s = (None, logs, s') \<Longrightarrow> logs = []"
  by (induction S clk ck ts s rule: register_tokens.induct)
    (auto simp: register_token_def split: if_splits option.splits prod.splits)

lemma register_tokens_append:
  "register_tokens S clk ck ts s = (None, logs, s') \<Longrightarrow>
   register_tokens S clk ck (ts @ ts') s = register_tokens S (\<lambda>n. clk (n + length ts)) ck ts' s'"
  by (induction S clk ck ts s rule: register_tokens.induct) (auto split: option.splits prod.splits)

text \<open>C20:
  An answer is withheld when its tokens cannot be registered.  The upstream has answered, and the store
  refuses one of the response's task tokens: the caller gets the status unavailable in place of the
  response, the refused token is logged, the tokens after it are not tried, and no action is logged.
\<close>

theorem put_failure_withholds:
  assumes "check_call A S (clk 0) ca s = (Inr ck, [], s1)"
    and "handler (ck_context ck) (ck_request ck) u = (Inr resp, u')"
    and "delete_terminal S (clk 1) ck s1 = (logs, s2)" and "response_tokens resp = ts @ t # ts'"
    and "register_tokens S (\<lambda>n. clk (n + 2)) ck ts s2 = (None, [], s3)" and "ck_scope ck \<noteq> ''''"
    and "Put S (clk (length ts + 2)) t
           \<lparr>entry_namespace = id_namespace (ck_identity ck), entry_task_queue = ck_scope ck\<rparr> s3 = (Some err, s4)"
  shows "interceptor A S handler clk ca s u =
     (Inl (status_of Unavailable CacheUnavailable),
      logs @ [LogPutFailed (ck_rpc ck) (id_subject (ck_identity ck)) err], s4, u')"
  using assms register_tokens_append [OF assms(5), of "t # ts'"] by (simp add: interceptor_def register_token_def)

definition is_action :: "log_line \<Rightarrow> bool" where
  "is_action l = (case l of LogAction _ _ _ _ _ \<Rightarrow> True | _ \<Rightarrow> False)"

lemma check_call_no_action: "check_call A S clk ca s = (r, logs, s') \<Longrightarrow> filter is_action logs = []"
  by (auto simp: check_call_def Let_def is_action_def
      split: option.splits sum.splits if_splits prod.splits)

lemma delete_terminal_no_action: "delete_terminal S clk ck s = (logs, s') \<Longrightarrow> filter is_action logs = []"
  by (auto simp: delete_terminal_def is_action_def split: option.splits if_splits prod.splits)

lemma register_tokens_no_action:
  "register_tokens S clk ck ts s = (r, logs, s') \<Longrightarrow> filter is_action logs = []"
  by (induction S clk ck ts s rule: register_tokens.induct)
    (auto simp: register_token_def is_action_def split: if_splits option.splits prod.splits)

lemma action_logs_actions: "filter is_action (action_logs ck) = action_logs ck"
  by (simp add: action_logs_def is_action_def filter_id_conv)

text \<open>C25:
  An action is logged exactly for the calls that succeed: one line for each action of the request,
  in order and attributed to the caller; a call that fails, at whatever point, logs none.
\<close>

theorem actions_logged:
  assumes "interceptor A S handler clk ca s u = (r, logs, s', u')"
  shows "case r of
      Inl st \<Rightarrow> filter is_action logs = []
    | Inr resp \<Rightarrow> \<exists>ck s1. check_call A S (clk 0) ca s = (Inr ck, [], s1) \<and>
        filter is_action logs = map (\<lambda>a. LogAction a (ck_rpc ck) (id_namespace (ck_identity ck))
          (ck_scope ck) (id_subject (ck_identity ck))) (FromRequest (ck_request ck))"
proof -
  obtain r1 logs1 s1 where check: "check_call A S (clk 0) ca s = (r1, logs1, s1)"
    by (cases "check_call A S (clk 0) ca s")
  note quiet = check_call_no_action [OF check]
  show ?thesis
  proof (cases r1)
    case (Inl st)
    with assms check quiet show ?thesis by (auto simp: interceptor_def)
  next
    case (Inr ck)
    with check have "logs1 = []"
      by (auto simp: check_call_def Let_def split: option.splits sum.splits if_splits prod.splits)
    with Inr assms check show ?thesis
      by (auto simp: interceptor_def action_logs_actions [unfolded action_logs_def]
          delete_terminal_no_action register_tokens_no_action action_logs_def
          split: sum.splits prod.splits option.splits)
  qed
qed

end
