(* ===== verification/Server.thy ===== *)
theory Server
  imports Interceptor
begin

section \<open>internal/proxy/server.go: the forwarding server\<close>

text \<open>
  \<open>Server\<close> forwards each allowed RPC to the upstream client and masks one capability flag in the
  answer to \<open>DescribeNamespace\<close>; every other RPC is answered by the embedded
  \<open>UnimplementedWorkflowServiceServer\<close>.  The upstream client is generated code in front of the real
  Temporal server and a parameter: a function of the context, of the request and of the upstream's
  state.
\<close>

type_synonym 'u client = "request_context \<Rightarrow> request \<Rightarrow> 'u \<Rightarrow> (status + response) \<times> 'u"

text \<open>The nil checks of \<open>disableWorkerCommandsCapability\<close>, with \<open>None\<close> for nil.\<close>

definition mask_capabilities :: "capabilities \<Rightarrow> capabilities" where
  "mask_capabilities caps = caps\<lparr>WorkerCommands := False\<rparr>"

definition disableWorkerCommandsCapability :: "response option \<Rightarrow> response option" where
  "disableWorkerCommandsCapability resp =
     (case resp of
        Some (DescribeNamespaceResponse (Some info)) \<Rightarrow>
          (case Capabilities info of
             None \<Rightarrow> resp
           | Some caps \<Rightarrow>
               Some (DescribeNamespaceResponse (Some (info\<lparr>Capabilities := Some (mask_capabilities caps)\<rparr>))))
      | _ \<Rightarrow> resp)"

definition call_upstream :: "'u client \<Rightarrow> 'u handler" where
  "call_upstream Upstream ctx req u =
     (case Upstream ctx req u of
        (Inl st, u') \<Rightarrow> (Inl st, u')
      | (Inr resp, u') \<Rightarrow> (Inr (Some resp), u'))"

definition DescribeNamespace :: "'u client \<Rightarrow> 'u handler" where
  "DescribeNamespace Upstream ctx req u =
     (case Upstream ctx req u of
        (Inl st, u') \<Rightarrow> (Inl st, u')
      | (Inr resp, u') \<Rightarrow> (Inr (disableWorkerCommandsCapability (Some resp)), u'))"

fun Server :: "'u client \<Rightarrow> 'u handler" where
  "Server Upstream ctx (DescribeNamespaceRequest ns) u =
     DescribeNamespace Upstream ctx (DescribeNamespaceRequest ns) u"
| "Server Upstream ctx (OtherRequest m) u =
     (Inl (status_of Unimplemented (UpstreamReason (''method '' @ m @ '' not implemented''))), u)"
| "Server Upstream ctx req u = call_upstream Upstream ctx req u"

text \<open>The embedded capability flags of a response that speak of worker commands.\<close>

definition advertises_worker_commands :: "response \<Rightarrow> bool" where
  "advertises_worker_commands resp =
     (case resp of
        DescribeNamespaceResponse (Some info) \<Rightarrow>
          (case Capabilities info of None \<Rightarrow> False | Some caps \<Rightarrow> WorkerCommands caps)
      | _ \<Rightarrow> False)"

lemma mask_Some:
  fixes r :: response
  defines "r' \<equiv> the (disableWorkerCommandsCapability (Some r))"
  shows "disableWorkerCommandsCapability (Some r) = Some r'"
    and "\<not> advertises_worker_commands r'" and "response_method r' = response_method r"
    and "case r of
           DescribeNamespaceResponse (Some info) \<Rightarrow>
             (\<exists>info'. r' = DescribeNamespaceResponse (Some info') \<and> info_name info' = info_name info \<and>
                map_option other_capabilities (Capabilities info') =
                map_option other_capabilities (Capabilities info))
         | _ \<Rightarrow> r' = r"
  by (cases r; auto simp: assms advertises_worker_commands_def disableWorkerCommandsCapability_def
      mask_capabilities_def split: option.splits)+

text \<open>
  The generated client decodes an answer as the response type of the method that was called.
\<close>

definition typed_client :: "'u client \<Rightarrow> bool" where
  "typed_client Upstream \<longleftrightarrow>
     (\<forall>ctx req u resp u'. Upstream ctx req u = (Inr resp, u') \<longrightarrow> response_method resp = method_of req)"

lemma typed_clientD: "typed_client Upstream \<Longrightarrow> Upstream ctx req u = (Inr resp, u') \<Longrightarrow> response_method resp = method_of req"
  unfolding typed_client_def by blast

lemma Server_forwards:
  "Server Upstream ctx req u = (Inr resp, u') \<Longrightarrow>
   \<exists>r. Upstream ctx req u = (Inr r, u') \<and>
       (resp = Some r \<or> resp = disableWorkerCommandsCapability (Some r))"
  by (cases req) (auto simp: call_upstream_def DescribeNamespace_def split: prod.splits sum.splits)

lemma Server_typed:
  assumes "typed_client Upstream" and "Server Upstream ctx req u = (Inr resp, u')"
  shows "\<exists>r. resp = Some r \<and> response_method r = method_of req"
proof -
  from Server_forwards [OF assms(2)] obtain r where up: "Upstream ctx req u = (Inr r, u')"
    and resp: "resp = Some r \<or> resp = disableWorkerCommandsCapability (Some r)"
    by blast
  from typed_clientD [OF assms(1) up] resp mask_Some [of r] show ?thesis by metis
qed

subsection \<open>Properties\<close>

text \<open>C39:
  The server relays what the upstream answers to a forwarded RPC, an error as it is and a response
  unchanged, except that an answer to \<open>DescribeNamespace\<close> never advertises worker commands and differs
  from the upstream's in that one flag only.  An RPC outside the allowlist is answered with
  \<open>Unimplemented\<close> and never reaches the upstream.
\<close>

theorem server_relays:
  "((\<forall>m. req \<noteq> OtherRequest m) \<and> Upstream ctx req u = (Inl st, u') \<longrightarrow>
      Server Upstream ctx req u = (Inl st, u')) \<and>
   ((\<forall>ns. req \<noteq> DescribeNamespaceRequest ns) \<and> (\<forall>m. req \<noteq> OtherRequest m) \<and>
      Upstream ctx req u = (Inr r, u') \<longrightarrow> Server Upstream ctx req u = (Inr (Some r), u')) \<and>
   (Upstream ctx (DescribeNamespaceRequest ns) u = (Inr r, u') \<longrightarrow>
     (\<exists>r'. Server Upstream ctx (DescribeNamespaceRequest ns) u = (Inr (Some r'), u') \<and>
        \<not> advertises_worker_commands r' \<and>
        (case r of
           DescribeNamespaceResponse (Some info) \<Rightarrow>
             (\<exists>info'. r' = DescribeNamespaceResponse (Some info') \<and> info_name info' = info_name info \<and>
                map_option other_capabilities (Capabilities info') =
                map_option other_capabilities (Capabilities info))
         | _ \<Rightarrow> r' = r))) \<and>
   (\<exists>text. Server Upstream ctx (OtherRequest m) u = (Inl (status_of Unimplemented text), u))"
proof (intro conjI impI)
  assume "(\<forall>m. req \<noteq> OtherRequest m) \<and> Upstream ctx req u = (Inl st, u')"
  then show "Server Upstream ctx req u = (Inl st, u')"
    by (cases req) (auto simp: call_upstream_def DescribeNamespace_def)
next
  assume "(\<forall>ns. req \<noteq> DescribeNamespaceRequest ns) \<and> (\<forall>m. req \<noteq> OtherRequest m) \<and>
    Upstream ctx req u = (Inr r, u')"
  then show "Server Upstream ctx req u = (Inr (Some r), u')"
    by (cases req) (auto simp: call_upstream_def)
next
  assume "Upstream ctx (DescribeNamespaceRequest ns) u = (Inr r, u')"
  then show "\<exists>r'. Server Upstream ctx (DescribeNamespaceRequest ns) u = (Inr (Some r'), u') \<and>
        \<not> advertises_worker_commands r' \<and>
        (case r of
           DescribeNamespaceResponse (Some info) \<Rightarrow>
             (\<exists>info'. r' = DescribeNamespaceResponse (Some info') \<and> info_name info' = info_name info \<and>
                map_option other_capabilities (Capabilities info') =
                map_option other_capabilities (Capabilities info))
         | _ \<Rightarrow> r' = r)"
    using mask_Some [of r]
    by (intro exI [of _ "the (disableWorkerCommandsCapability (Some r))"]) (simp add: DescribeNamespace_def)
qed simp

definition sample_answer :: response where
  "sample_answer = DescribeNamespaceResponse (Some \<lparr>info_name = ''ns'',
     Capabilities = Some \<lparr>WorkerCommands = True, other_capabilities = [(''eager'', True)]\<rparr>\<rparr>)"

theorem server_relays_witness:
  "advertises_worker_commands sample_answer \<and>
   (\<exists>r'. Server (\<lambda>ctx req u. (Inr sample_answer, u)) (incoming_context None) (DescribeNamespaceRequest ''ns'') () = (Inr (Some r'), ()) \<and>
         \<not> advertises_worker_commands r')"
proof
  show "advertises_worker_commands sample_answer"
    by (simp add: advertises_worker_commands_def sample_answer_def)
  show "\<exists>r'. Server (\<lambda>ctx req u. (Inr sample_answer, u)) (incoming_context None) (DescribeNamespaceRequest ''ns'') () = (Inr (Some r'), ()) \<and>
         \<not> advertises_worker_commands r'"
    using server_relays [of GetSystemInfoRequest "\<lambda>ctx req u. (Inr sample_answer, u)" "incoming_context None" "()" "status_of Internal NotProtoMessage" "()" sample_answer
        "''ns''" "''m''"] by blast
qed

end
