(* ===== verification/Access_Policy.thy ===== *)
theory Access_Policy
  imports Server
begin

section \<open>The access policy, and that the interceptor's check decides it\<close>

text \<open>
  An abstract policy, written without reference to the order of the checks: which request an
  identity may make under which task-queue scope, given what is known of task tokens.  The lemmas
  show that \<open>authorizeRequest\<close> and \<open>check_call\<close> succeed exactly on the permitted requests.
\<close>

subsection \<open>The policy\<close>

definition poll_permitted :: "identity \<Rightarrow> string \<Rightarrow> task_queue option \<Rightarrow> string \<Rightarrow> bool" where
  "poll_permitted i ns tq q \<longleftrightarrow>
     ns = id_namespace i \<and> GetName tq \<noteq> '''' \<and> q \<noteq> '''' \<and> q \<in> set (id_task_queues i) \<and>
     q = (if GetKind tq = KIND_STICKY then GetNormalName tq else GetName tq)"

definition token_permitted ::
  "identity \<Rightarrow> (bytes \<Rightarrow> entry option) \<Rightarrow> string \<Rightarrow> bytes \<Rightarrow> command list \<Rightarrow> string \<Rightarrow> bool" where
  "token_permitted i known ns t cmds q \<longleftrightarrow>
     ns = id_namespace i \<and> t \<noteq> [] \<and> q \<in> set (id_task_queues i) \<and>
     known t = Some \<lparr>entry_namespace = id_namespace i, entry_task_queue = q\<rparr> \<and>
     confined (id_namespace i) q cmds"

definition heartbeats_permitted :: "identity \<Rightarrow> worker_heartbeat list \<Rightarrow> bool" where
  "heartbeats_permitted i hbs \<longleftrightarrow>
     (\<forall>hb \<in> set hbs. hb_task_queue hb \<noteq> '''' \<and> hb_task_queue hb \<in> set (id_task_queues i))"

fun permitted :: "identity \<Rightarrow> (bytes \<Rightarrow> entry option) \<Rightarrow> request \<Rightarrow> string \<Rightarrow> bool" where
  "permitted i known (PollWorkflowTaskQueueRequest ns tq) q = poll_permitted i ns tq q"
| "permitted i known (PollActivityTaskQueueRequest ns tq) q = poll_permitted i ns tq q"
| "permitted i known (PollNexusTaskQueueRequest ns tq hbs) q =
     (poll_permitted i ns tq q \<and> heartbeats_permitted i hbs)"
| "permitted i known (RespondWorkflowTaskCompletedRequest ns t cmds) q =
     token_permitted i known ns t cmds q"
| "permitted i known (RespondWorkflowTaskFailedRequest ns t) q = token_permitted i known ns t [] q"
| "permitted i known (RecordActivityTaskHeartbeatRequest ns t) q = token_permitted i known ns t [] q"
| "permitted i known (RespondActivityTaskCompletedRequest ns t) q = token_permitted i known ns t [] q"
| "permitted i known (RespondActivityTaskFailedRequest ns t) q = token_permitted i known ns t [] q"
| "permitted i known (RespondActivityTaskCanceledRequest ns t) q = token_permitted i known ns t [] q"
| "permitted i known (RespondQueryTaskCompletedRequest ns t) q = token_permitted i known ns t [] q"
| "permitted i known (RespondNexusTaskCompletedRequest ns t) q = token_permitted i known ns t [] q"
| "permitted i known (RespondNexusTaskFailedRequest ns t) q = token_permitted i known ns t [] q"
| "permitted i known GetSystemInfoRequest q = (q = '''')"
| "permitted i known (DescribeNamespaceRequest ns) q = (ns = id_namespace i \<and> q = '''')"
| "permitted i known (ShutdownWorkerRequest ns q') q =
     (ns = id_namespace i \<and> q = q' \<and> (q' = '''' \<or> q' \<in> set (id_task_queues i)))"
| "permitted i known (RecordWorkerHeartbeatRequest ns hbs) q =
     (ns = id_namespace i \<and> heartbeats_permitted i hbs \<and> q = '''')"
| "permitted i known (OtherRequest m) q = False"

text \<open>
  The typing that gRPC gives: the request of a call to the method \<open>m\<close> has that method's request
  type, and \<open>OtherRequest\<close> stands for the request types of methods outside the table.
\<close>

definition request_for :: "string \<Rightarrow> request \<Rightarrow> bool" where
  "request_for m req \<longleftrightarrow> method_of req = m \<and> (\<forall>n. req = OtherRequest n \<longrightarrow> Allowed n = None)"

lemma permitted_mono:
  "permitted i known req q \<Longrightarrow> (\<And>t e. known t = Some e \<Longrightarrow> known' t = Some e) \<Longrightarrow>
   permitted i known' req q"
  by (cases req) (auto simp: token_permitted_def)

text \<open>The fields every permitted request has in common.\<close>

lemma permitted_namespace:
  "permitted i known req q \<Longrightarrow> snd (RequestNamespace req) \<Longrightarrow> fst (RequestNamespace req) = id_namespace i"
  by (cases req) (auto simp: poll_permitted_def token_permitted_def)

lemma permitted_scope:
  "permitted i known req q \<Longrightarrow> q \<noteq> '''' \<Longrightarrow> q \<in> set (id_task_queues i)"
  by (cases req) (auto simp: poll_permitted_def token_permitted_def)

lemma permitted_token:
  "permitted i known req q \<Longrightarrow> RequestTaskToken req = (t, True) \<Longrightarrow>
   t \<noteq> [] \<and> q \<in> set (id_task_queues i) \<and>
   known t = Some \<lparr>entry_namespace = id_namespace i, entry_task_queue = q\<rparr>"
  by (cases req) (auto simp: token_permitted_def)

subsection \<open>The rows of the allowlist, request by request\<close>

lemma Allowed_poll [simp]:
  "Allowed ''PollWorkflowTaskQueue'' = Some (policy_of CategoryPoll False)"
  "Allowed ''PollActivityTaskQueue'' = Some (policy_of CategoryPoll False)"
  "Allowed ''PollNexusTaskQueue'' = Some (policy_of CategoryPoll False)"
  by (simp_all add: Allowed_def allowed_table_def)

lemma Allowed_workflow [simp]:
  "Allowed ''RespondWorkflowTaskCompleted'' = Some (policy_of CategoryToken True)"
  "Allowed ''RespondWorkflowTaskFailed'' = Some (policy_of CategoryToken True)"
  "Allowed ''RespondQueryTaskCompleted'' = Some (policy_of CategoryToken False)"
  by (simp_all add: Allowed_def allowed_table_def)

lemma Allowed_activity [simp]:
  "Allowed ''RecordActivityTaskHeartbeat'' = Some (policy_of CategoryToken False)"
  "Allowed ''RespondActivityTaskCompleted'' = Some (policy_of CategoryToken True)"
  "Allowed ''RespondActivityTaskFailed'' = Some (policy_of CategoryToken True)"
  "Allowed ''RespondActivityTaskCanceled'' = Some (policy_of CategoryToken True)"
  by (simp_all add: Allowed_def allowed_table_def)

lemma Allowed_nexus [simp]:
  "Allowed ''RespondNexusTaskCompleted'' = Some (policy_of CategoryToken True)"
  "Allowed ''RespondNexusTaskFailed'' = Some (policy_of CategoryToken True)"
  by (simp_all add: Allowed_def allowed_table_def)

lemma Allowed_other [simp]:
  "Allowed ''GetSystemInfo'' = Some (policy_of CategoryUnscoped False)"
  "Allowed ''DescribeNamespace'' = Some (policy_of CategoryNamespaceOnly False)"
  "Allowed ''ShutdownWorker'' = Some (policy_of CategoryWorker False)"
  "Allowed ''RecordWorkerHeartbeat'' = Some (policy_of CategoryWorkerHeartbeat False)"
  by (simp_all add: Allowed_def allowed_table_def)

text \<open>How each request is dispatched by \<open>authorizeRequest\<close>, given its row.\<close>

fun category_of :: "request \<Rightarrow> category" where
  "category_of (PollWorkflowTaskQueueRequest _ _) = CategoryPoll"
| "category_of (PollActivityTaskQueueRequest _ _) = CategoryPoll"
| "category_of (PollNexusTaskQueueRequest _ _ _) = CategoryPoll"
| "category_of GetSystemInfoRequest = CategoryUnscoped"
| "category_of (DescribeNamespaceRequest _) = CategoryNamespaceOnly"
| "category_of (ShutdownWorkerRequest _ _) = CategoryWorker"
| "category_of (RecordWorkerHeartbeatRequest _ _) = CategoryWorkerHeartbeat"
| "category_of _ = CategoryToken"

lemma request_for_policy:
  "request_for m req \<Longrightarrow> Allowed m = Some p \<Longrightarrow>
   Category p = category_of req \<and> (\<nexists>n. req = OtherRequest n)"
  by (cases req) (auto simp: request_for_def)

lemma Allowed_request:
  "request_for m req \<Longrightarrow> \<nexists>n. req = OtherRequest n \<Longrightarrow> \<exists>p. Allowed m = Some p"
  by (cases req) (auto simp: request_for_def)

subsection \<open>authorizeRequest decides the policy\<close>

text \<open>What a store answers for a token, an error counting as unknown.\<close>

definition answers :: "'s store \<Rightarrow> readings \<Rightarrow> 's \<Rightarrow> bytes \<Rightarrow> entry option" where
  "answers S clk s t = (case fst (Get S clk t s) of Inl _ \<Rightarrow> None | Inr e \<Rightarrow> e)"

lemma authorizePoll_iff:
  "authorizePoll req i = Inr q \<longleftrightarrow>
     fst (RequestNamespace req) = id_namespace i \<and> snd (RequestTaskQueue req) \<and>
     GetName (fst (RequestTaskQueue req)) \<noteq> '''' \<and> q \<noteq> '''' \<and> q \<in> set (id_task_queues i) \<and>
     q = pollTaskQueueScope (fst (RequestTaskQueue req)) \<and> nexus_heartbeat_check req i = None"
  by (auto simp: authorizePoll_def Let_def split: prod.splits option.splits)

lemma heartbeats_None:
  "ValidateWorkerHeartbeatTaskQueues hbs (id_task_queues i) = None \<longleftrightarrow> heartbeats_permitted i hbs"
  by (simp add: heartbeats_permitted_def ValidateWorkerHeartbeatTaskQueues_None)

lemma authorizePoll_permitted:
  "category_of req = CategoryPoll \<Longrightarrow> authorizePoll req i = Inr q \<longleftrightarrow> permitted i known req q"
  by (cases req)
    (auto simp: authorizePoll_iff poll_permitted_def pollTaskQueueScope_def heartbeats_None)

lemma authorizeToken_iff:
  "fst (authorizeToken S clk req rpc i s) = Inr q \<longleftrightarrow>
     (snd (RequestNamespace req) \<longrightarrow> fst (RequestNamespace req) = id_namespace i) \<and>
     snd (RequestTaskToken req) \<and> fst (RequestTaskToken req) \<noteq> [] \<and> q \<in> set (id_task_queues i) \<and>
     answers S clk s (fst (RequestTaskToken req)) =
       Some \<lparr>entry_namespace = id_namespace i, entry_task_queue = q\<rparr> \<and>
     command_check rpc req (id_namespace i) q = None"
  by (auto simp: authorizeToken_def answers_def split: prod.splits sum.splits option.splits)

lemma authorizeToken_permitted:
  "category_of req = CategoryToken \<Longrightarrow> request_for rpc req \<Longrightarrow> Allowed rpc \<noteq> None \<Longrightarrow>
   fst (authorizeToken S clk req rpc i s) = Inr q \<longleftrightarrow> permitted i (answers S clk s) req q"
  by (cases req)
    (auto simp: authorizeToken_iff token_permitted_def command_check_def request_for_def
      ValidateCommands_confined)

lemma authorizeWorker_permitted:
  "category_of req = CategoryWorker \<Longrightarrow> authorizeWorker req i = Inr q \<longleftrightarrow> permitted i known req q"
  by (cases req) (auto simp: authorizeWorker_def)

lemma authorizeWorkerHeartbeat_permitted:
  "category_of req = CategoryWorkerHeartbeat \<Longrightarrow>
   authorizeWorkerHeartbeat req i = Inr q \<longleftrightarrow> permitted i known req q"
  by (cases req)
    (auto simp: authorizeWorkerHeartbeat_def heartbeats_None [symmetric] split: option.splits)

lemma authorizeNamespaceOnly_permitted:
  "category_of req = CategoryNamespaceOnly \<Longrightarrow>
   authorizeNamespaceOnly req i = Inr q \<longleftrightarrow> permitted i known req q"
  by (cases req) (auto simp: authorizeNamespaceOnly_def)

lemma authorizeUnscoped_permitted:
  "category_of req = CategoryUnscoped \<Longrightarrow> q = '''' \<longleftrightarrow> permitted i known req q"
  by (cases req) auto

lemma authorizeRequest_permitted:
  assumes "request_for rpc req" and "Allowed rpc = Some p"
  shows "fst (authorizeRequest S clk req rpc p i s) = Inr q \<longleftrightarrow> permitted i (answers S clk s) req q"
  using request_for_policy [OF assms] assms
  by (cases "category_of req")
    (auto simp: authorizeRequest_def authorizePoll_permitted authorizeToken_permitted
      authorizeWorker_permitted authorizeWorkerHeartbeat_permitted
      authorizeNamespaceOnly_permitted authorizeUnscoped_permitted [symmetric])

subsection \<open>What a check leaves in the store\<close>

lemma authorizeRequest_store:
  "authorizeRequest S clk req rpc p i s = (r, s') \<Longrightarrow>
   s' = s \<or> (\<exists>t g. RequestTaskToken req = (t, True) \<and> t \<noteq> [] \<and> Get S clk t s = (g, s'))"
  by (auto simp: authorizeRequest_def authorizeToken_def
      split: category.splits if_splits prod.splits sum.splits option.splits)

lemma authorizeToken_scope:
  "authorizeToken S clk req rpc i s = (Inr q, s') \<Longrightarrow> q \<in> set (id_task_queues i)"
  using authorizeToken_iff [of S clk req rpc i s q] by simp

lemma authorizeWorkerHeartbeat_scope: "authorizeWorkerHeartbeat req i = Inr q \<Longrightarrow> q = ''''"
  by (cases req) (auto simp: authorizeWorkerHeartbeat_def split: if_splits option.splits)

lemma authorizeWorker_scope:
  "authorizeWorker req i = Inr q \<Longrightarrow> q \<noteq> '''' \<Longrightarrow> q \<in> set (id_task_queues i)"
  by (auto simp: authorizeWorker_def split: if_splits prod.splits)

lemma authorizeNamespaceOnly_scope: "authorizeNamespaceOnly req i = Inr q \<Longrightarrow> q = ''''"
  by (simp add: authorizeNamespaceOnly_def split: if_splits)

lemma authorizeRequest_scope:
  assumes "authorizeRequest S clk req rpc p i s = (Inr q, s')" and "q \<noteq> ''''"
  shows "q \<in> set (id_task_queues i)"
  using assms
  by (cases "Category p")
    (auto simp: authorizeRequest_def authorizePoll_iff dest: authorizeToken_scope
      authorizeWorker_scope authorizeWorkerHeartbeat_scope authorizeNamespaceOnly_scope)

lemma check_call_store:
  "check_call A S clk ca s = (r, logs, s') \<Longrightarrow>
   s' = s \<or> (\<exists>req t g. ca_request ca = Some req \<and> RequestTaskToken req = (t, True) \<and>
                     Get S clk t s = (g, s'))"
  by (auto simp: check_call_def Let_def dest!: authorizeRequest_store
      split: option.splits sum.splits if_splits prod.splits)

lemma check_call_Inr:
  "check_call A S clk ca s = (Inr ck, logs, s') \<longleftrightarrow>
   (\<exists>p key i req q. Allowed (rpcNameFromFullMethod (ca_method ca)) = Some p \<and>
      extractAPIKey (call_context ca) = Some key \<and> A key = Inr i \<and> id_valid i \<and>
      ca_request ca = Some req \<and>
      authorizeRequest S clk req (rpcNameFromFullMethod (ca_method ca)) p i s = (Inr q, s') \<and>
      logs = [] \<and>
      ck = \<lparr>ck_rpc = rpcNameFromFullMethod (ca_method ca), ck_policy = p, ck_identity = i,
            ck_request = req, ck_scope = q,
             ck_context = withIdentity (call_context ca) i\<rparr>)"
  by (auto simp: check_call_def Let_def split: option.splits sum.splits if_splits prod.splits)

subsection \<open>Properties\<close>

text \<open>C6:
  Authorization is exact.  A call with a request of its method's type passes the check, and with which
  scope, exactly if its RPC is in the allowlist, its credential authenticates a valid identity, and
  the access policy permits the request to that identity, given what the store answers for tokens.
\<close>

theorem check_decides_policy:
  assumes "ca_request ca = Some req" and "request_for (rpcNameFromFullMethod (ca_method ca)) req"
  shows "(\<exists>s'. check_call A S clk ca s = (Inr ck, [], s')) \<longleftrightarrow>
    (\<exists>p key i q. Allowed (rpcNameFromFullMethod (ca_method ca)) = Some p \<and>
       extractAPIKey (call_context ca) = Some key \<and> A key = Inr i \<and> id_valid i \<and>
       permitted i (answers S clk s) req q \<and>
       ck = \<lparr>ck_rpc = rpcNameFromFullMethod (ca_method ca), ck_policy = p, ck_identity = i,
             ck_request = req, ck_scope = q,
             ck_context = withIdentity (call_context ca) i\<rparr>)"
proof -
  have "(\<exists>s'. authorizeRequest S clk req (rpcNameFromFullMethod (ca_method ca)) p i s = (Inr q, s')) \<longleftrightarrow>
      permitted i (answers S clk s) req q" if "Allowed (rpcNameFromFullMethod (ca_method ca)) = Some p" for p i q
    unfolding authorizeRequest_permitted [OF assms(2) that, of S clk i s q, symmetric]
    by (cases "authorizeRequest S clk req (rpcNameFromFullMethod (ca_method ca)) p i s") simp
  with assms(1) show ?thesis unfolding check_call_Inr by fastforce
qed

text \<open>
  A call that fails the check is answered with a status of the proxy's own, whose code says who is to
  blame: \<open>Unavailable\<close> for a failing store, \<open>Internal\<close> for a request that is no message, and
  \<open>PermissionDenied\<close> for everything else, with at most one log line, which names the RPC.
\<close>

lemma denial_codes:
  assumes "check_call A S clk ca s = (Inl st, logs, s')"
  shows "(st_code st = Unavailable \<longrightarrow> (\<exists>sub e. logs = [LogDenied (rpcNameFromFullMethod (ca_method ca)) sub (TokenCacheUnavailable e)])) \<and>
    (st_code st = Internal \<longrightarrow> ca_request ca = None \<and> logs = []) \<and>
    st_code st \<in> {PermissionDenied, Internal, Unavailable} \<and> length logs \<le> 1"
  using assms
  by (auto simp: check_call_def Let_def grpcErrorForAuthorizationError_def
      split: option.splits sum.splits if_splits prod.splits authz_error.splits)

end
