(* ===== verification/Concurrent_Calls.thy ===== *)
theory Concurrent_Calls
  imports Access_Policy
begin

section \<open>Concurrent calls: the interceptor as a step relation\<close>

text \<open>
  gRPC runs the interceptor of every call in its own goroutine.  The goroutines share the token
  store and the upstream server, so a call is cut into the atomic steps between which others may
  run: the check (one store operation at most), the handler, the deletion of a consumed token, the
  registration of each response token, and the return.  A state keeps the phase of every call, by a
  call number, and two histories: the requests that were forwarded and answered, and the log.

  \<open>proxy_step\<close> has one rule for each kind of step; in between, the store may drift (its janitor or
  its expiry).  \<open>U\<close> is the set of task tokens that occur in the run: all of them for the local
  cache, a set without digest collisions for a store that keeps digests.
\<close>

datatype phase =
    Authorized checked
  | Completing checked "response option"
  | Registering checked "response option" "bytes list"
  | Finished "status + response option"

datatype event =
    EvForward nat (ev_checked: checked)
  | EvReply nat (ev_checked: checked) "response option"

record ('s, 'u) sys =
  sy_store :: 's
  sy_upstream :: 'u
  sy_calls :: "nat \<Rightarrow> phase option"
  sy_trace :: "event list"
  sy_logs :: "log_line list"

definition initial_sys :: "'s \<Rightarrow> 'u \<Rightarrow> ('s, 'u) sys" where
  "initial_sys s u =
     \<lparr>sy_store = s, sy_upstream = u, sy_calls = Map.empty, sy_trace = [], sy_logs = []\<rparr>"

definition after_check :: "status + checked \<Rightarrow> phase" where
  "after_check r = (case r of Inl st \<Rightarrow> Finished (Inl st) | Inr ck \<Rightarrow> Authorized ck)"

definition after_register ::
  "checked \<Rightarrow> response option \<Rightarrow> bytes list \<Rightarrow> status option \<Rightarrow> phase" where
  "after_register ck resp tokens r =
     (case r of Some st \<Rightarrow> Finished (Inl st) | None \<Rightarrow> Registering ck resp tokens)"

text \<open>A call as gRPC delivers it, presenting a token of \<open>U\<close> if it presents one.\<close>

definition deliverable :: "bytes set \<Rightarrow> call \<Rightarrow> bool" where
  "deliverable U ca \<longleftrightarrow>
     (\<forall>req. ca_request ca = Some req \<longrightarrow>
        request_for (rpcNameFromFullMethod (ca_method ca)) req \<and>
        (snd (RequestTaskToken req) \<longrightarrow> fst (RequestTaskToken req) \<in> U))"

inductive proxy_step ::
  "authenticator \<Rightarrow> 's store \<Rightarrow> ('s \<Rightarrow> 's \<Rightarrow> bool) \<Rightarrow> 'u handler \<Rightarrow> bytes set
   \<Rightarrow> ('s, 'u) sys \<Rightarrow> ('s, 'u) sys \<Rightarrow> bool"
  for A :: authenticator and S :: "'s store" and drift :: "'s \<Rightarrow> 's \<Rightarrow> bool"
    and handler :: "'u handler" and U :: "bytes set" where
  step_check:
    "sy_calls y i = None \<Longrightarrow> deliverable U ca \<Longrightarrow>
     check_call A S clk ca (sy_store y) = (r, logs, s') \<Longrightarrow>
     proxy_step A S drift handler U y
       (y\<lparr>sy_store := s', sy_calls := (sy_calls y)(i \<mapsto> after_check r),
         sy_logs := sy_logs y @ logs\<rparr>)"
| step_forward_fails:
    "sy_calls y i = Some (Authorized ck) \<Longrightarrow>
     handler (ck_context ck) (ck_request ck) (sy_upstream y) = (Inl st, u') \<Longrightarrow>
     proxy_step A S drift handler U y
       (y\<lparr>sy_upstream := u', sy_calls := (sy_calls y)(i \<mapsto> Finished (Inl st)),
         sy_trace := sy_trace y @ [EvForward i ck]\<rparr>)"
| step_forward:
    "sy_calls y i = Some (Authorized ck) \<Longrightarrow>
     handler (ck_context ck) (ck_request ck) (sy_upstream y) = (Inr resp, u') \<Longrightarrow>
     set (response_tokens resp) \<subseteq> U \<Longrightarrow>
     proxy_step A S drift handler U y
       (y\<lparr>sy_upstream := u', sy_calls := (sy_calls y)(i \<mapsto> Completing ck resp),
         sy_trace := sy_trace y @ [EvForward i ck, EvReply i ck resp]\<rparr>)"
| step_delete:
    "sy_calls y i = Some (Completing ck resp) \<Longrightarrow>
     delete_terminal S clk ck (sy_store y) = (logs, s') \<Longrightarrow>
     proxy_step A S drift handler U y
       (y\<lparr>sy_store := s',
         sy_calls := (sy_calls y)(i \<mapsto> Registering ck resp (response_tokens resp)),
         sy_logs := sy_logs y @ logs\<rparr>)"
| step_register:
    "sy_calls y i = Some (Registering ck resp (t # ts)) \<Longrightarrow>
     register_token S clk ck t (sy_store y) = (r, logs, s') \<Longrightarrow>
     proxy_step A S drift handler U y
       (y\<lparr>sy_store := s', sy_calls := (sy_calls y)(i \<mapsto> after_register ck resp ts r),
         sy_logs := sy_logs y @ logs\<rparr>)"
| step_return:
    "sy_calls y i = Some (Registering ck resp []) \<Longrightarrow>
     proxy_step A S drift handler U y
       (y\<lparr>sy_calls := (sy_calls y)(i \<mapsto> Finished (Inr resp)),
         sy_logs := sy_logs y @ action_logs ck\<rparr>)"
| step_drift:
    "drift (sy_store y) s' \<Longrightarrow> proxy_step A S drift handler U y (y\<lparr>sy_store := s'\<rparr>)"

inductive reachable ::
  "authenticator \<Rightarrow> 's store \<Rightarrow> ('s \<Rightarrow> 's \<Rightarrow> bool) \<Rightarrow> 'u handler \<Rightarrow> bytes set
   \<Rightarrow> ('s, 'u) sys \<Rightarrow> ('s, 'u) sys \<Rightarrow> bool"
  for A :: authenticator and S :: "'s store" and drift :: "'s \<Rightarrow> 's \<Rightarrow> bool"
    and handler :: "'u handler" and U :: "bytes set" and y0 :: "('s, 'u) sys" where
  reach_start: "reachable A S drift handler U y0 y0"
| reach_step: "reachable A S drift handler U y0 y \<Longrightarrow> proxy_step A S drift handler U y y' \<Longrightarrow>
    reachable A S drift handler U y0 y'"

subsection \<open>The sequential interceptor is a run of the step relation\<close>

lemma reachable_trans:
  assumes "reachable A S drift handler U y1 y2" and "reachable A S drift handler U y0 y1"
  shows "reachable A S drift handler U y0 y2"
  using assms by (induction rule: reachable.induct) (blast intro: reach_step)+

lemma register_tokens_reachable:
  assumes "register_tokens S clk ck ts s = (r, logs, s')"
    and "sy_calls y i = Some (Registering ck resp ts)" and "sy_store y = s"
  shows "\<exists>y'. reachable A S drift handler U y y' \<and> sy_store y' = s' \<and>
    sy_upstream y' = sy_upstream y \<and> sy_trace y' = sy_trace y \<and> sy_logs y' = sy_logs y @ logs \<and>
    sy_calls y' = (sy_calls y)(i \<mapsto> after_register ck resp [] r)"
  using assms
proof (induction S clk ck ts s arbitrary: y logs rule: register_tokens.induct)
  case (1 S clk ck s)
  then show ?case
    by (intro exI [of _ y]) (auto simp: after_register_def intro: reach_start)
next
  case (2 S clk ck t ts s)
  obtain r1 logs1 s1 where reg: "register_token S (clk 0) ck t s = (r1, logs1, s1)"
    by (cases "register_token S (clk 0) ck t s")
  let ?y = "y\<lparr>sy_store := s1, sy_calls := (sy_calls y)(i \<mapsto> after_register ck resp ts r1),
      sy_logs := sy_logs y @ logs1\<rparr>"
  have step: "reachable A S drift handler U y ?y"
    using reg 2(3,4) by (blast intro: reach_step reach_start step_register)
  show ?case
  proof (cases r1)
    case (Some st)
    with reg 2(2) have "r = Some st" "logs = logs1" "s' = s1" by auto
    with Some step show ?thesis
      by (intro exI [of _ ?y]) (simp add: after_register_def)
  next
    case None
    with reg 2(2) obtain logs2 where
      rest: "register_tokens S (\<lambda>n. clk (Suc n)) ck ts s1 = (r, logs2, s')" and "logs = logs2"
      by auto
    moreover have "logs1 = []"
      using reg None by (auto simp: register_token_def split: if_splits option.splits prod.splits)
    moreover have "\<exists>y'. reachable A S drift handler U ?y y' \<and> sy_store y' = s' \<and>
        sy_upstream y' = sy_upstream ?y \<and> sy_trace y' = sy_trace ?y \<and>
        sy_logs y' = sy_logs ?y @ logs2 \<and>
        sy_calls y' = (sy_calls ?y)(i \<mapsto> after_register ck resp [] r)"
      by (rule "2.IH" [OF reg [symmetric] None refl rest]) (simp_all add: None after_register_def)
    then obtain y' where "reachable A S drift handler U ?y y'" "sy_store y' = s'"
      "sy_upstream y' = sy_upstream ?y" "sy_trace y' = sy_trace ?y" "sy_logs y' = sy_logs ?y @ logs2"
      "sy_calls y' = (sy_calls ?y)(i \<mapsto> after_register ck resp [] r)"
      by blast
    ultimately show ?thesis
      using step by (intro exI [of _ y']) (auto intro: reachable_trans)
  qed
qed


lemma run_step:
  "proxy_step A S drift handler U y1 y2 \<Longrightarrow> reachable A S drift handler U y2 y3 \<Longrightarrow>
   reachable A S drift handler U y1 y3"
  by (rule reachable_trans [OF _ reach_step [OF reach_start]])

text \<open>The end of a call, from the registration of its tokens on.\<close>

lemma registering_reachable:
  assumes "register_tokens S clk ck ts s = (r, logs, s')"
    and "sy_calls y i = Some (Registering ck resp ts)" and "sy_store y = s"
  shows "\<exists>y'. reachable A S drift handler U y y' \<and> sy_store y' = s' \<and>
    sy_upstream y' = sy_upstream y \<and>
    sy_logs y' = sy_logs y @ logs @ (if r = None then action_logs ck else []) \<and>
    sy_calls y' = (sy_calls y)(i \<mapsto> Finished (case r of Some st \<Rightarrow> Inl st | None \<Rightarrow> Inr resp))"
proof -
  obtain y1 where y1: "reachable A S drift handler U y y1" "sy_store y1 = s'"
    "sy_upstream y1 = sy_upstream y" "sy_logs y1 = sy_logs y @ logs"
    "sy_calls y1 = (sy_calls y)(i \<mapsto> after_register ck resp [] r)"
    using register_tokens_reachable [OF assms] by blast
  show ?thesis
  proof (cases r)
    case (Some st)
    with y1 show ?thesis by (intro exI [of _ y1]) (simp add: after_register_def)
  next
    case None
    with y1 have "sy_calls y1 i = Some (Registering ck resp [])" by (simp add: after_register_def)
    from reach_step [OF y1(1) step_return [OF this]] None y1 show ?thesis
      by (intro exI [of _ "y1\<lparr>sy_calls := (sy_calls y1)(i \<mapsto> Finished (Inr resp)),
            sy_logs := sy_logs y1 @ action_logs ck\<rparr>"]) (simp add: after_register_def)
  qed
qed

text \<open>The same from the answer of the handler on.\<close>

lemma completing_reachable:
  assumes "sy_calls y i = Some (Completing ck resp)"
    and "delete_terminal S c ck (sy_store y) = (logs2, s2)"
    and "register_tokens S clk ck (response_tokens resp) s2 = (r, logs3, s3)"
  shows "\<exists>y'. reachable A S drift handler U y y' \<and> sy_store y' = s3 \<and>
    sy_upstream y' = sy_upstream y \<and>
    sy_logs y' = sy_logs y @ logs2 @ logs3 @ (if r = None then action_logs ck else []) \<and>
    sy_calls y' = (sy_calls y)(i \<mapsto> Finished (case r of Some st \<Rightarrow> Inl st | None \<Rightarrow> Inr resp))"
proof -
  let ?y = "y\<lparr>sy_store := s2, sy_calls := (sy_calls y)(i \<mapsto> Registering ck resp (response_tokens resp)),
      sy_logs := sy_logs y @ logs2\<rparr>"
  have "reachable A S drift handler U y ?y"
    by (rule run_step [OF step_delete [OF assms(1,2)] reach_start])
  moreover obtain y' where "reachable A S drift handler U ?y y'" "sy_store y' = s3"
    "sy_upstream y' = sy_upstream ?y"
    "sy_logs y' = sy_logs ?y @ logs3 @ (if r = None then action_logs ck else [])"
    "sy_calls y' = (sy_calls ?y)(i \<mapsto> Finished (case r of Some st \<Rightarrow> Inl st | None \<Rightarrow> Inr resp))"
    using registering_reachable [OF assms(3), of ?y i resp A drift handler U] by auto
  ultimately show ?thesis by (intro exI [of _ y']) (auto intro: reachable_trans)
qed

text \<open>The handler answers with tokens of \<open>U\<close> only.\<close>

definition answers_in :: "bytes set \<Rightarrow> 'u handler \<Rightarrow> bool" where
  "answers_in U handler \<longleftrightarrow>
     (\<forall>ctx req u resp u'. handler ctx req u = (Inr resp, u') \<longrightarrow> set (response_tokens resp) \<subseteq> U)"

lemma answers_inD: "answers_in U handler \<Longrightarrow> handler ctx req u = (Inr resp, u') \<Longrightarrow> set (response_tokens resp) \<subseteq> U"
  unfolding answers_in_def by blast

lemma answers_in_UNIV [simp]: "answers_in UNIV handler"
  by (simp add: answers_in_def)

text \<open>The same from the authorization on, when the upstream answers.\<close>

lemma authorized_reachable:
  assumes "sy_calls y i = Some (Authorized ck)" and "answers_in U handler"
    and "handler (ck_context ck) (ck_request ck) (sy_upstream y) = (Inr resp, u')"
    and "delete_terminal S c ck (sy_store y) = (logs2, s2)"
    and "register_tokens S clk ck (response_tokens resp) s2 = (r, logs3, s3)"
  shows "\<exists>y'. reachable A S drift handler U y y' \<and> sy_store y' = s3 \<and> sy_upstream y' = u' \<and>
    sy_logs y' = sy_logs y @ logs2 @ logs3 @ (if r = None then action_logs ck else []) \<and>
    sy_calls y' = (sy_calls y)(i \<mapsto> Finished (case r of Some st \<Rightarrow> Inl st | None \<Rightarrow> Inr resp))"
proof -
  let ?y = "y\<lparr>sy_upstream := u', sy_calls := (sy_calls y)(i \<mapsto> Completing ck resp),
      sy_trace := sy_trace y @ [EvForward i ck, EvReply i ck resp]\<rparr>"
  have "set (response_tokens resp) \<subseteq> U" by (rule answers_inD [OF assms(2,3)])
  from step_forward [of y i ck handler, OF assms(1,3) this] have "reachable A S drift handler U y ?y"
    by (rule run_step [OF _ reach_start])
  moreover obtain y' where "reachable A S drift handler U ?y y'" "sy_store y' = s3" "sy_upstream y' = u'"
    "sy_logs y' = sy_logs y @ logs2 @ logs3 @ (if r = None then action_logs ck else [])"
    "sy_calls y' = (sy_calls y)(i \<mapsto> Finished (case r of Some st \<Rightarrow> Inl st | None \<Rightarrow> Inr resp))"
    using completing_reachable [of ?y i ck resp S c logs2 s2, OF _ _ assms(5), of A drift handler U] assms(4)
    by auto
  ultimately show ?thesis by (intro exI [of _ y']) (auto intro: reachable_trans)
qed

lemma interceptor_reachable:
  assumes "interceptor A S handler clk ca (sy_store y) (sy_upstream y) = (r, logs, s', u')"
    and "sy_calls y i = None" and "deliverable U ca"
    and "answers_in U handler"
  shows "\<exists>y'. reachable A S drift handler U y y' \<and> sy_store y' = s' \<and> sy_upstream y' = u' \<and>
    sy_logs y' = sy_logs y @ logs \<and> sy_calls y' = (sy_calls y)(i \<mapsto> Finished r)"
proof -
  obtain r1 logs1 s1 where check: "check_call A S (clk 0) ca (sy_store y) = (r1, logs1, s1)"
    by (cases "check_call A S (clk 0) ca (sy_store y)")
  let ?y = "y\<lparr>sy_store := s1, sy_calls := (sy_calls y)(i \<mapsto> after_check r1), sy_logs := sy_logs y @ logs1\<rparr>"
  have run: "reachable A S drift handler U y ?y"
    by (rule run_step [OF step_check [OF assms(2,3) check] reach_start])
  show ?thesis
  proof (cases r1)
    case (Inl st)
    with check assms(1) run show ?thesis
      by (intro exI [of _ ?y]) (auto simp: interceptor_def after_check_def)
  next
    case (Inr ck)
    have c: "sy_calls ?y i = Some (Authorized ck)" by (simp add: Inr after_check_def)
    obtain h u1 where h: "handler (ck_context ck) (ck_request ck) (sy_upstream ?y) = (h, u1)"
      by (cases "handler (ck_context ck) (ck_request ck) (sy_upstream ?y)")
    show ?thesis
    proof (cases h)
      case (Inl st)
      note fails = step_forward_fails [of ?y i ck handler, OF c h [unfolded Inl]]
      show ?thesis
        by (rule exI, rule conjI [OF reach_step [OF run fails]])
          (use Inl h check \<open>r1 = Inr ck\<close> assms(1) in \<open>auto simp: interceptor_def\<close>)
    next
      case (Inr resp)
      obtain logs2 s2 where del: "delete_terminal S (clk 1) ck (sy_store ?y) = (logs2, s2)"
        by (cases "delete_terminal S (clk 1) ck (sy_store ?y)")
      obtain r3 logs3 s3 where
        reg: "register_tokens S (\<lambda>n. clk (n + 2)) ck (response_tokens resp) s2 = (r3, logs3, s3)"
        by (cases "register_tokens S (\<lambda>n. clk (n + 2)) ck (response_tokens resp) s2")
      have "r = (case r3 of Some st \<Rightarrow> Inl st | None \<Rightarrow> Inr resp) \<and> s' = s3 \<and> u' = u1 \<and>
          logs = logs1 @ logs2 @ logs3 @ (if r3 = None then action_logs ck else [])"
        using assms(1) check \<open>r1 = Inr ck\<close> h Inr del reg by (auto simp: interceptor_def split: option.splits)
      with authorized_reachable [OF c assms(4) h [unfolded Inr] del reg, of A drift] show ?thesis
        by (auto intro: reachable_trans [OF _ run])
    qed
  qed
qed

subsection \<open>The context of a forwarded call\<close>

text \<open>
  A handler runs in a context that the interceptor made: the incoming metadata of the call, the
  identity that was authenticated, and nothing for the upstream.
\<close>

definition own_context :: "checked \<Rightarrow> bool" where
  "own_context ck \<longleftrightarrow> (\<exists>md. ck_context ck = withIdentity (incoming_context md) (ck_identity ck))"

lemma own_contextD:
  "own_context ck \<Longrightarrow> cx_outgoing (ck_context ck) = []"
  "own_context ck \<Longrightarrow> IdentityFromContext (ck_context ck) = (ck_identity ck, True)"
  by (auto simp: own_context_def withIdentity_def IdentityFromContext_def)

lemma own_context_step:
  assumes "proxy_step A S drift handler U y y'"
    and "\<forall>i ck. sy_calls y i = Some (Authorized ck) \<or> EvForward i ck \<in> set (sy_trace y) \<longrightarrow> own_context ck"
  shows "\<forall>i ck. sy_calls y' i = Some (Authorized ck) \<or> EvForward i ck \<in> set (sy_trace y') \<longrightarrow> own_context ck"
  using assms(1)
proof (cases rule: proxy_step.cases)
  case (step_check i ca clk r logs s')
  then have "own_context ck" if "r = Inr ck" for ck
    using that by (auto simp: check_call_Inr own_context_def)
  with step_check assms(2) show ?thesis by (auto simp: after_check_def split: sum.splits)
qed (use assms(2) in \<open>auto simp: after_register_def split: option.splits if_splits\<close>)

lemma forwarded_in_own_context:
  assumes "reachable A S drift handler U (initial_sys s u) y" and "EvForward i ck \<in> set (sy_trace y)"
  shows "own_context ck"
proof -
  have "\<forall>i ck. sy_calls y i = Some (Authorized ck) \<or> EvForward i ck \<in> set (sy_trace y) \<longrightarrow> own_context ck"
    using assms(1)
    by (induction rule: reachable.induct) (simp add: initial_sys_def, blast dest: own_context_step)
  with assms(2) show ?thesis by blast
qed

end
