(* ===== verification/Proxy_Safety.thy ===== *)
theory Proxy_Safety
  imports Concurrent_Calls
begin

section \<open>Safety of the proxy: what can have been forwarded\<close>

text \<open>
  The client of the two interfaces: an authenticator that keeps \<open>authenticator_contract\<close> and a store
  that keeps \<open>token_store\<close>.  Inside the locale \<open>guarded_proxy\<close> the runs of \<open>proxy_step\<close> are shown
  to forward justified requests only, where justified means permitted by the access policy on the
  strength of task tokens that the proxy itself has handed out before.
\<close>

subsection \<open>What the history of a run says about a token\<close>

definition entry_of :: "checked \<Rightarrow> entry" where
  "entry_of ck =
     \<lparr>entry_namespace = id_namespace (ck_identity ck), entry_task_queue = ck_scope ck\<rparr>"

text \<open>The token \<open>t\<close> was in a reply of the upstream to a call of scope \<open>e\<close>.\<close>

definition issued :: "event list \<Rightarrow> bytes \<Rightarrow> entry \<Rightarrow> bool" where
  "issued tr t e \<longleftrightarrow>
     (\<exists>j ck resp. EvReply j ck resp \<in> set tr \<and> t \<in> set (response_tokens resp) \<and> e = entry_of ck)"

definition justified :: "(identity \<Rightarrow> bool) \<Rightarrow> event list \<Rightarrow> checked \<Rightarrow> bool" where
  "justified C tr ck \<longleftrightarrow>
     C (ck_identity ck) \<and> well_formed_identity (ck_identity ck) \<and>
     Allowed (ck_rpc ck) = Some (ck_policy ck) \<and> request_for (ck_rpc ck) (ck_request ck) \<and>
     (\<exists>known. (\<forall>t e. known t = Some e \<longrightarrow> issued tr t e) \<and>
              permitted (ck_identity ck) known (ck_request ck) (ck_scope ck))"

text \<open>Every event of a history is justified by what came before it.\<close>

definition trace_ok :: "(identity \<Rightarrow> bool) \<Rightarrow> event list \<Rightarrow> bool" where
  "trace_ok C tr \<longleftrightarrow> (\<forall>n < length tr. justified C (take n tr) (ev_checked (tr ! n)))"

definition trace_tokens :: "event list \<Rightarrow> bytes set" where
  "trace_tokens tr = {t. \<exists>e. issued tr t e}"

fun phase_ok :: "(identity \<Rightarrow> bool) \<Rightarrow> event list \<Rightarrow> nat \<Rightarrow> phase \<Rightarrow> bool" where
  "phase_ok C tr i (Authorized ck) = justified C tr ck"
| "phase_ok C tr i (Completing ck resp) = (EvReply i ck resp \<in> set tr)"
| "phase_ok C tr i (Registering ck resp ts) =
     (EvReply i ck resp \<in> set tr \<and> set ts \<subseteq> set (response_tokens resp))"
| "phase_ok C tr i (Finished (Inl st)) = True"
| "phase_ok C tr i (Finished (Inr resp)) = (\<exists>ck. EvReply i ck resp \<in> set tr)"

lemma issued_append [simp]:
  "issued (tr @ [EvForward i ck]) t e = issued tr t e"
  "issued (tr @ [EvForward i ck, EvReply i ck resp]) t e \<longleftrightarrow>
     issued tr t e \<or> t \<in> set (response_tokens resp) \<and> e = entry_of ck"
  by (auto simp: issued_def)

lemma issued_mono: "issued tr t e \<Longrightarrow> issued (tr @ tr') t e"
  by (auto simp: issued_def)

lemma justified_mono: "justified C tr ck \<Longrightarrow> justified C (tr @ tr') ck"
  unfolding justified_def by (blast intro: issued_mono)

lemma phase_ok_mono: "phase_ok C tr i ph \<Longrightarrow> phase_ok C (tr @ tr') i ph"
  by (induction C tr i ph rule: phase_ok.induct) (auto intro: justified_mono)

lemma trace_ok_forward:
  "trace_ok C tr \<Longrightarrow> justified C tr ck \<Longrightarrow> trace_ok C (tr @ [EvForward i ck])"
  by (auto simp: trace_ok_def nth_append less_Suc_eq)

lemma trace_ok_reply:
  assumes "trace_ok C tr" and "justified C tr ck"
  shows "trace_ok C (tr @ [EvForward i ck, EvReply i ck resp])"
proof -
  have "justified C (tr @ [EvForward i ck]) ck" by (rule justified_mono [OF assms(2)])
  with trace_ok_forward [OF assms] show ?thesis
    by (auto simp: trace_ok_def nth_append less_Suc_eq)
qed

lemma trace_ok_event:
  assumes "trace_ok C tr" and "ev \<in> set tr"
  obtains tr1 tr2 where "tr = tr1 @ ev # tr2" and "justified C tr1 (ev_checked ev)"
    and "trace_ok C tr1"
proof -
  from assms(2) obtain tr1 tr2 where tr: "tr = tr1 @ ev # tr2" by (auto dest: split_list)
  then have "length tr1 < length tr" by simp
  with assms(1) have "justified C (take (length tr1) tr) (ev_checked (tr ! length tr1))"
    unfolding trace_ok_def by blast
  moreover have "trace_ok C tr1"
    unfolding trace_ok_def
  proof (intro allI impI)
    fix n assume "n < length tr1"
    with assms(1) show "justified C (take n tr1) (ev_checked (tr1 ! n))"
      by (auto simp: trace_ok_def tr nth_append dest: spec [of _ n])
  qed
  ultimately show ?thesis by (intro that [OF tr]) (simp_all add: tr)
qed

lemma justified_scope:
  "justified C tr ck \<Longrightarrow> ck_scope ck \<noteq> '''' \<Longrightarrow> ck_scope ck \<in> set (id_task_queues (ck_identity ck))"
  by (auto simp: justified_def dest: permitted_scope)

text \<open>Only the request's own token matters to what is permitted.\<close>

lemma permitted_cong:
  "permitted i known req q \<Longrightarrow>
   (\<And>t. RequestTaskToken req = (t, True) \<Longrightarrow> known' t = known t) \<Longrightarrow> permitted i known' req q"
  by (cases req) (auto simp: token_permitted_def)

lemma check_call_deliverable:
  assumes "check_call A S clk ca s = (Inr ck, logs, s')" and "deliverable U ca"
  shows "\<exists>key. A key = Inr (ck_identity ck) \<and> id_valid (ck_identity ck)"
    and "Allowed (ck_rpc ck) = Some (ck_policy ck)" and "request_for (ck_rpc ck) (ck_request ck)"
    and "permitted (ck_identity ck) (answers S clk s |` U) (ck_request ck) (ck_scope ck)"
proof -
  obtain key req q where a: "Allowed (rpcNameFromFullMethod (ca_method ca)) = Some (ck_policy ck)"
    "A key = Inr (ck_identity ck)" "id_valid (ck_identity ck)" "ca_request ca = Some req"
    "authorizeRequest S clk req (rpcNameFromFullMethod (ca_method ca)) (ck_policy ck) (ck_identity ck) s
       = (Inr q, s')"
    "ck_rpc ck = rpcNameFromFullMethod (ca_method ca)" "ck_request ck = req" "ck_scope ck = q"
    using assms(1) by (auto simp: check_call_Inr)
  then show "\<exists>key. A key = Inr (ck_identity ck) \<and> id_valid (ck_identity ck)"
    and "Allowed (ck_rpc ck) = Some (ck_policy ck)" by auto
  have rf: "request_for (rpcNameFromFullMethod (ca_method ca)) req"
    and tok: "RequestTaskToken req = (t, True) \<Longrightarrow> t \<in> U" for t
    using assms(2) a by (auto simp: deliverable_def)
  then show "request_for (ck_rpc ck) (ck_request ck)" by (simp add: a)
  have "permitted (ck_identity ck) (answers S clk s) req q"
    using authorizeRequest_permitted [OF rf a(1)] a(5) by (metis fst_conv)
  then have "permitted (ck_identity ck) (answers S clk s |` U) req q"
    by (rule permitted_cong) (simp add: tok)
  then show "permitted (ck_identity ck) (answers S clk s |` U) (ck_request ck) (ck_scope ck)"
    by (simp add: a)
qed


subsection \<open>The invariant\<close>

locale guarded_proxy =
  authenticator_contract Authenticate configured + token_store S tokens admissible ok holds drift
  for Authenticate :: authenticator and configured :: "identity \<Rightarrow> bool"
    and S :: "'s store" and tokens :: "bytes set" and admissible :: "entry \<Rightarrow> bool"
    and ok :: "'s \<Rightarrow> bool" and holds :: "'s \<Rightarrow> bytes \<Rightarrow> entry option"
    and drift :: "'s \<Rightarrow> 's \<Rightarrow> bool" +
  assumes configured_admissible: "configured i \<Longrightarrow> q \<in> set (id_task_queues i) \<Longrightarrow>
    admissible \<lparr>entry_namespace = id_namespace i, entry_task_queue = q\<rparr>"
begin

definition remembers :: "'s \<Rightarrow> event list \<Rightarrow> bool" where
  "remembers s tr \<longleftrightarrow> ok s \<and> (\<forall>t \<in> tokens. \<forall>e. holds s t = Some e \<longrightarrow> issued tr t e)"

definition safe :: "('s, 'u) sys \<Rightarrow> bool" where
  "safe y \<longleftrightarrow> remembers (sy_store y) (sy_trace y) \<and> trace_ok configured (sy_trace y) \<and>
     trace_tokens (sy_trace y) \<subseteq> tokens \<and>
     (\<forall>i ph. sy_calls y i = Some ph \<longrightarrow> phase_ok configured (sy_trace y) i ph)"

lemma safe_initial: "ok s \<Longrightarrow> \<forall>t. holds s t = None \<Longrightarrow> safe (initial_sys s u)"
  by (simp add: safe_def remembers_def trace_ok_def initial_sys_def trace_tokens_def issued_def)

lemma remembers_get:
  "remembers s tr \<Longrightarrow> t \<in> tokens \<Longrightarrow> Get S c t s = (g, s') \<Longrightarrow> remembers s' tr"
  unfolding remembers_def by (blast dest: get_ok get_holds)

lemma remembers_delete:
  "remembers s tr \<Longrightarrow> t \<in> tokens \<Longrightarrow> Delete S c t s = (r, s') \<Longrightarrow> remembers s' tr"
  unfolding remembers_def by (blast dest: delete_ok delete_holds)

lemma remembers_drift: "remembers s tr \<Longrightarrow> drift s s' \<Longrightarrow> remembers s' tr"
  unfolding remembers_def by (blast dest: drift_ok drift_holds)

lemma remembers_put:
  "remembers s tr \<Longrightarrow> admissible e \<Longrightarrow> t \<in> tokens \<Longrightarrow> Put S c t e s = (r, s') \<Longrightarrow> issued tr t e \<Longrightarrow>
   remembers s' tr"
  unfolding remembers_def by (blast dest: put_ok put_holds)

lemma remembers_append: "remembers s tr \<Longrightarrow> remembers s (tr @ tr')"
  unfolding remembers_def by (blast intro: issued_mono)

lemma answers_issued:
  "remembers s tr \<Longrightarrow> (answers S clk s |` tokens) t = Some e \<Longrightarrow> issued tr t e"
  by (cases "Get S clk t s")
    (auto simp: answers_def remembers_def restrict_map_def
      split: if_splits sum.splits dest!: get_hit)

lemma check_call_remembers:
  assumes "check_call Authenticate S clk ca s = (r, logs, s')" and "deliverable tokens ca"
    and "remembers s tr"
  shows "remembers s' tr"
  using check_call_store [OF assms(1)] assms(2,3)
  by (auto simp: deliverable_def intro: remembers_get)

lemma check_call_justified:
  assumes "check_call Authenticate S clk ca s = (Inr ck, logs, s')" and "deliverable tokens ca"
    and "remembers s tr"
  shows "justified configured tr ck"
  using check_call_deliverable [OF assms(1,2)] answers_issued [OF assms(3)]
  unfolding justified_def by (blast intro: valid_configured configured_well_formed)

lemma justified_token:
  assumes "justified configured tr ck" and "RequestTaskToken (ck_request ck) = (t, True)"
  shows "issued tr t (entry_of ck)"
proof -
  from assms(1) obtain known where k: "\<And>t e. known t = Some e \<Longrightarrow> issued tr t e"
    and "permitted (ck_identity ck) known (ck_request ck) (ck_scope ck)"
    by (auto simp: justified_def)
  from permitted_token [OF this(2) assms(2)] have "known t = Some (entry_of ck)"
    by (simp add: entry_of_def)
  then show ?thesis by (rule k)
qed

lemma reply_justified:
  assumes "trace_ok configured tr" and "EvReply i ck resp \<in> set tr"
  shows "justified configured tr ck"
  using assms by (rule trace_ok_event) (auto intro: justified_mono)

lemma delete_terminal_remembers:
  assumes "delete_terminal S clk ck s = (logs, s')" and "remembers s tr"
    and "justified configured tr ck" and "trace_tokens tr \<subseteq> tokens"
  shows "remembers s' tr"
proof -
  have "t \<in> tokens" if "RequestTaskToken (ck_request ck) = (t, True)" for t
    using justified_token [OF assms(3) that] assms(4) by (auto simp: trace_tokens_def)
  then show ?thesis
    using assms(1,2) by (auto simp: delete_terminal_def intro: remembers_delete
        split: if_splits prod.splits option.splits)
qed

lemma justified_admissible: "justified configured tr ck \<Longrightarrow> ck_scope ck \<noteq> '''' \<Longrightarrow> admissible (entry_of ck)"
  by (frule (1) justified_scope) (auto simp: entry_of_def justified_def intro: configured_admissible)

lemma register_token_remembers:
  assumes "register_token S clk ck t s = (r, logs, s')" and "remembers s tr"
    and "EvReply i ck resp \<in> set tr" and "t \<in> set (response_tokens resp)"
    and "trace_tokens tr \<subseteq> tokens" and "justified configured tr ck"
  shows "remembers s' tr"
proof -
  note justified_admissible [OF assms(6)]
  moreover have "issued tr t (entry_of ck)" using assms(3,4) by (auto simp: issued_def)
  moreover from this have "t \<in> tokens" using assms(5) by (auto simp: trace_tokens_def)
  ultimately show ?thesis
    using assms(1,2) by (auto simp: register_token_def entry_of_def intro: remembers_put
        split: if_splits prod.splits option.splits)
qed

text \<open>A step of call \<open>i\<close> into the phase \<open>ph\<close>; a quiet one leaves the history as it is.\<close>

lemma safeI:
  assumes "safe y" and "sy_calls y' = (sy_calls y)(i \<mapsto> ph)" and "sy_trace y' = sy_trace y @ tr"
    and "remembers (sy_store y') (sy_trace y')" and "trace_ok configured (sy_trace y')"
    and "trace_tokens (sy_trace y') \<subseteq> tokens" and "phase_ok configured (sy_trace y') i ph"
  shows "safe y'"
proof -
  have "phase_ok configured (sy_trace y') j ph'" if "sy_calls y' j = Some ph'" for j ph'
  proof (cases "j = i")
    case True
    with that assms(2,7) show ?thesis by simp
  next
    case False
    with that assms(1,2) have "phase_ok configured (sy_trace y) j ph'" by (simp add: safe_def)
    then show ?thesis unfolding assms(3) by (rule phase_ok_mono)
  qed
  with assms(4-6) show ?thesis unfolding safe_def by blast
qed

lemma safe_quiet:
  assumes "safe y" and "sy_calls y' = (sy_calls y)(i \<mapsto> ph)" and "sy_trace y' = sy_trace y"
    and "remembers (sy_store y') (sy_trace y)" and "phase_ok configured (sy_trace y) i ph"
  shows "safe y'"
  using assms safeI [of y y' i ph "[]"] by (auto simp: safe_def)

lemma safeD:
  assumes "safe y"
  shows "remembers (sy_store y) (sy_trace y)" and "trace_ok configured (sy_trace y)"
    and "trace_tokens (sy_trace y) \<subseteq> tokens"
    and "sy_calls y i = Some ph \<Longrightarrow> phase_ok configured (sy_trace y) i ph"
  using assms by (simp_all add: safe_def)

lemma safe_checked:
  assumes "safe y" and "deliverable tokens ca" and "check_call Authenticate S clk ca (sy_store y) = (r, logs, s')"
  shows "safe (y\<lparr>sy_store := s', sy_calls := (sy_calls y)(i \<mapsto> after_check r), sy_logs := sy_logs y @ logs\<rparr>)"
proof -
  note rem = safeD(1) [OF assms(1)]
  have "phase_ok configured (sy_trace y) i (after_check r)"
  proof (cases r)
    case (Inr ck)
    with check_call_justified [OF assms(3) [unfolded Inr] assms(2) rem] show ?thesis
      by (simp add: after_check_def)
  qed (simp add: after_check_def)
  with check_call_remembers [OF assms(3,2) rem] show ?thesis
    by (intro safe_quiet [OF assms(1), of _ i "after_check r"]) simp_all
qed

lemma safe_deleted:
  assumes "safe y" and "sy_calls y i = Some (Completing ck resp)"
    and "delete_terminal S clk ck (sy_store y) = (logs, s')"
  shows "safe (y\<lparr>sy_store := s', sy_calls := (sy_calls y)(i \<mapsto> Registering ck resp (response_tokens resp)),
           sy_logs := sy_logs y @ logs\<rparr>)"
proof -
  have reply: "EvReply i ck resp \<in> set (sy_trace y)"
    using safeD(4) [OF assms(1,2)] by simp
  have "remembers s' (sy_trace y)"
    by (rule delete_terminal_remembers [OF assms(3)])
      (use safeD [OF assms(1)] reply in \<open>auto intro: reply_justified\<close>)
  with reply show ?thesis
    by (intro safe_quiet [OF assms(1), of _ i "Registering ck resp (response_tokens resp)"]) simp_all
qed

lemma safe_registered:
  assumes "safe y" and "sy_calls y i = Some (Registering ck resp (t # ts))"
    and "register_token S clk ck t (sy_store y) = (r, logs, s')"
  shows "safe (y\<lparr>sy_store := s', sy_calls := (sy_calls y)(i \<mapsto> after_register ck resp ts r),
           sy_logs := sy_logs y @ logs\<rparr>)"
proof -
  have reply: "EvReply i ck resp \<in> set (sy_trace y)" and t: "t \<in> set (response_tokens resp)"
    and ts: "set ts \<subseteq> set (response_tokens resp)"
    using safeD(4) [OF assms(1,2)] by simp_all
  have "remembers s' (sy_trace y)"
    by (rule register_token_remembers [OF assms(3) _ reply t])
      (use safeD [OF assms(1)] reply in \<open>auto intro: reply_justified\<close>)
  with reply ts show ?thesis
    by (intro safe_quiet [OF assms(1), of _ i "after_register ck resp ts r"])
      (auto simp: after_register_def split: option.splits)
qed

lemma safe_step:
  assumes "proxy_step Authenticate S drift handler tokens y y'" and "safe y"
  shows "safe y'"
  using assms(1)
proof (cases rule: proxy_step.cases)
  case (step_check i ca clk r logs s')
  then show ?thesis by (simp add: safe_checked [OF assms(2)])
next
  case (step_forward_fails i ck st u')
  have j: "justified configured (sy_trace y) ck"
    using safeD(4) [OF assms(2) step_forward_fails(2)] by simp
  show ?thesis
    by (rule safeI [OF assms(2), of y' i "Finished (Inl st)" "[EvForward i ck]"])
      (use safeD [OF assms(2)] in \<open>simp_all add: step_forward_fails(1) remembers_append
        trace_ok_forward j trace_tokens_def\<close>)
next
  case (step_forward i ck resp u')
  have j: "justified configured (sy_trace y) ck"
    using safeD(4) [OF assms(2) step_forward(2)] by simp
  show ?thesis
    by (rule safeI [OF assms(2), of y' i "Completing ck resp" "[EvForward i ck, EvReply i ck resp]"])
      (use safeD [OF assms(2)] step_forward(4) in \<open>auto simp: step_forward(1) remembers_append
        trace_ok_reply j trace_tokens_def\<close>)
next
  case (step_delete i ck resp clk logs s')
  then show ?thesis by (simp add: safe_deleted [OF assms(2)])
next
  case (step_register i ck resp t ts clk r logs s')
  then show ?thesis by (simp add: safe_registered [OF assms(2)])
next
  case (step_return i ck resp)
  have "EvReply i ck resp \<in> set (sy_trace y)"
    using safeD(4) [OF assms(2) step_return(2)] by simp
  with safeD(1) [OF assms(2)] show ?thesis
    by (intro safe_quiet [OF assms(2), of y' i "Finished (Inr resp)"]) (auto simp: step_return(1))
next
  case (step_drift s')
  with remembers_drift [OF safeD(1) [OF assms(2)]] assms(2) show ?thesis by (simp add: safe_def)
qed

lemma safe_reachable:
  "reachable Authenticate S drift handler tokens y0 y \<Longrightarrow> safe y0 \<Longrightarrow> safe y"
  by (induction rule: reachable.induct) (blast intro: safe_step)+

text \<open>What a run that starts with an empty store can have forwarded, and on what grounds.\<close>

lemma event_justified:
  assumes "reachable Authenticate S drift handler tokens (initial_sys s u) y"
    and "ok s" and "\<forall>t. holds s t = None" and "ev \<in> set (sy_trace y)"
  obtains tr1 tr2 where "sy_trace y = tr1 @ ev # tr2" and "justified configured tr1 (ev_checked ev)"
proof -
  have "safe y" using safe_reachable [OF assms(1)] safe_initial [of s u] assms(2,3) by blast
  from trace_ok_event [OF safeD(2) [OF this] assms(4)] show ?thesis using that by blast
qed

lemma finished_replied:
  assumes "reachable Authenticate S drift handler tokens (initial_sys s u) y"
    and "ok s" and "\<forall>t. holds s t = None" and "sy_calls y i = Some (Finished (Inr resp))"
  shows "\<exists>ck. EvReply i ck resp \<in> set (sy_trace y)"
  using safeD(4) [OF safe_reachable [OF assms(1)] assms(4)] safe_initial [of s u] assms(2,3) by auto

lemma held_issued:
  assumes "reachable Authenticate S drift handler tokens (initial_sys s u) y"
    and "ok s" and "\<forall>t. holds s t = None" and "t \<in> tokens" and "holds (sy_store y) t = Some e"
  shows "issued (sy_trace y) t e"
  using safeD(1) [OF safe_reachable [OF assms(1)]] safe_initial [of s u] assms(2-5)
  by (auto simp: remembers_def)

end

end
