(* ===== verification/Token_Lineage.thy ===== *)
theory Token_Lineage
  imports Proxy_Safety
begin

section \<open>Where the tokens of a run come from, and where they end\<close>

text \<open>
  With an upstream that answers a method with that method's response type, only polls and workflow
  task completions hand out task tokens.  So every token can be traced back to a poll of the same
  namespace and task queue, and the branch \<open>missing task queue scope\<close> of the interceptor is never
  taken.  The last part follows one token through \<open>interceptor\<close>: when it is registered, when a
  terminal call consumes it, and what a failing call leaves behind.
\<close>

subsection \<open>Typed handlers\<close>

definition typed_handler :: "'u handler \<Rightarrow> bool" where
  "typed_handler handler \<longleftrightarrow>
     (\<forall>ctx req u r u'. handler ctx req u = (Inr (Some r), u') \<longrightarrow> response_method r = method_of req)"

lemma typed_handlerD: "typed_handler handler \<Longrightarrow> handler ctx req u = (Inr (Some r), u') \<Longrightarrow> response_method r = method_of req"
  unfolding typed_handler_def by blast

lemma typed_Server: "typed_client Upstream \<Longrightarrow> typed_handler (Server Upstream)"
  unfolding typed_handler_def by (blast dest: Server_typed)

definition replies_typed :: "event list \<Rightarrow> bool" where
  "replies_typed tr \<longleftrightarrow>
     (\<forall>i ck r. EvReply i ck (Some r) \<in> set tr \<longrightarrow> response_method r = method_of (ck_request ck))"

lemma replies_typed_step:
  "proxy_step A S drift handler U y y' \<Longrightarrow> typed_handler handler \<Longrightarrow> replies_typed (sy_trace y) \<Longrightarrow>
   replies_typed (sy_trace y')"
  by (erule proxy_step.cases) (auto simp: replies_typed_def dest: typed_handlerD)

lemma replies_typed_reachable:
  "reachable A S drift handler U y0 y \<Longrightarrow> typed_handler handler \<Longrightarrow> replies_typed (sy_trace y0) \<Longrightarrow>
   replies_typed (sy_trace y)"
  by (induction rule: reachable.induct) (auto intro: replies_typed_step)

text \<open>The requests whose responses carry tokens.\<close>

lemma token_response:
  assumes "t \<in> set (CollectResponseTaskTokens r)" and "response_method r = method_of req"
    and "request_for m req" and "Allowed m = Some p"
  shows "Category p = CategoryPoll \<or>
         Category p = CategoryToken \<and> snd (RequestTaskToken req)"
  using assms request_for_policy [OF assms(3,4)]
  by (cases r; cases req) auto

lemma token_response_scope:
  assumes "t \<in> set (CollectResponseTaskTokens r)" and "response_method r = method_of (ck_request ck)"
    and "justified C tr ck"
  shows "ck_scope ck \<noteq> ''''"
proof -
  from assms(3) obtain known where "request_for (ck_rpc ck) (ck_request ck)"
    and "'''' \<notin> set (id_task_queues (ck_identity ck))"
    and "permitted (ck_identity ck) known (ck_request ck) (ck_scope ck)"
    by (auto simp: justified_def well_formed_identity_def)
  with assms(1,2) show ?thesis
    by (cases r; cases "ck_request ck") (auto simp: poll_permitted_def token_permitted_def)
qed

subsection \<open>Back to a poll\<close>

definition polled :: "event list \<Rightarrow> entry \<Rightarrow> bool" where
  "polled tr e \<longleftrightarrow>
     (\<exists>i ck resp. EvReply i ck resp \<in> set tr \<and> Category (ck_policy ck) = CategoryPoll \<and>
                  entry_of ck = e)"

lemma polled_append: "polled tr e \<Longrightarrow> polled (tr @ tr') e"
  by (auto simp: polled_def)

context guarded_proxy
begin

lemma issued_polled:
  assumes "trace_ok configured tr" and "replies_typed tr" and "issued tr t e"
  shows "polled tr e"
  using assms
proof (induction "length tr" arbitrary: tr t rule: less_induct)
  case less
  from less.prems(3) obtain i ck resp where reply: "EvReply i ck resp \<in> set tr"
    and t: "t \<in> set (response_tokens resp)" and e: "e = entry_of ck"
    by (auto simp: issued_def)
  from less.prems(1) reply obtain tr1 tr2 where tr: "tr = tr1 @ EvReply i ck resp # tr2"
    and j: "justified configured tr1 ck" and ok1: "trace_ok configured tr1"
    by (rule trace_ok_event) auto
  from t obtain r where resp: "resp = Some r" and tr_in: "t \<in> set (CollectResponseTaskTokens r)"
    by (auto simp: response_tokens_def split: option.splits)
  have typed: "response_method r = method_of (ck_request ck)"
    using less.prems(2) reply by (auto simp: replies_typed_def resp)
  have rf: "request_for (ck_rpc ck) (ck_request ck)" "Allowed (ck_rpc ck) = Some (ck_policy ck)"
    using j by (auto simp: justified_def)
  from token_response [OF tr_in typed rf] show ?case
  proof
    assume "Category (ck_policy ck) = CategoryPoll"
    with reply e show ?case by (auto simp: polled_def)
  next
    assume "Category (ck_policy ck) = CategoryToken \<and> snd (RequestTaskToken (ck_request ck))"
    then obtain t0 where "RequestTaskToken (ck_request ck) = (t0, True)"
      by (cases "RequestTaskToken (ck_request ck)") auto
    then have "issued tr1 t0 e" unfolding e by (rule justified_token [OF j])
    moreover have "replies_typed tr1" using less.prems(2) by (auto simp: replies_typed_def tr)
    ultimately have "polled tr1 e" using less.hyps [of tr1] ok1 by (simp add: tr)
    then show ?case unfolding tr by (rule polled_append)
  qed
qed

lemma forwarded_token_polled:
  assumes "reachable Authenticate S drift handler tokens (initial_sys s u) y"
    and "ok s" and "\<forall>t. holds s t = None" and "typed_handler handler"
    and "EvForward i ck \<in> set (sy_trace y)" and "RequestTaskToken (ck_request ck) = (t, True)"
  obtains tr1 tr2 where "sy_trace y = tr1 @ EvForward i ck # tr2" and "issued tr1 t (entry_of ck)"
    and "polled tr1 (entry_of ck)" and "ck_scope ck \<in> set (id_task_queues (ck_identity ck))"
proof -
  have "safe y" using safe_reachable [OF assms(1)] safe_initial [of s u] assms(2,3) by blast
  then obtain tr1 tr2 where tr: "sy_trace y = tr1 @ EvForward i ck # tr2"
    and j: "justified configured tr1 ck" and ok1: "trace_ok configured tr1"
    using trace_ok_event [OF safeD(2) [OF \<open>safe y\<close>] assms(5)] by auto
  have "replies_typed (sy_trace y)"
    by (rule replies_typed_reachable [OF assms(1,4)]) (simp add: replies_typed_def initial_sys_def)
  then have "replies_typed tr1" by (auto simp: replies_typed_def tr)
  moreover have iss: "issued tr1 t (entry_of ck)" by (rule justified_token [OF j assms(6)])
  ultimately have "polled tr1 (entry_of ck)" by (rule issued_polled [OF ok1])
  moreover have "ck_scope ck \<in> set (id_task_queues (ck_identity ck))"
    using j assms(6) by (auto simp: justified_def dest: permitted_token)
  ultimately show ?thesis using tr iss by (intro that)
qed

text \<open>The branch for a missing scope writes its own log line; no run ever writes it.\<close>

lemma no_missing_scope_step:
  assumes "proxy_step Authenticate S drift handler tokens y y'" and "safe y"
    and "replies_typed (sy_trace y)" and "LogMissingScope m sub \<notin> set (sy_logs y)"
  shows "LogMissingScope m sub \<notin> set (sy_logs y')"
  using assms(1)
proof (cases rule: proxy_step.cases)
  case (step_check i ca clk r logs s')
  have "LogMissingScope m sub \<notin> set logs"
    using step_check(4)
    by (auto simp: check_call_def Let_def split: option.splits sum.splits if_splits prod.splits)
  with assms(4) show ?thesis by (simp add: step_check(1))
next
  case (step_delete i ck resp clk logs s')
  have "LogMissingScope m sub \<notin> set logs"
    using step_delete(3) by (auto simp: delete_terminal_def split: option.splits if_splits prod.splits)
  with assms(4) show ?thesis by (simp add: step_delete(1))
next
  case (step_register i ck resp t ts clk r logs s')
  have reply: "EvReply i ck resp \<in> set (sy_trace y)" and "t \<in> set (response_tokens resp)"
    using safeD(4) [OF assms(2) step_register(2)] by simp_all
  then obtain r' where "resp = Some r'" and "t \<in> set (CollectResponseTaskTokens r')"
    by (auto simp: response_tokens_def split: option.splits)
  moreover from this reply assms(3) have "response_method r' = method_of (ck_request ck)"
    by (auto simp: replies_typed_def)
  moreover note reply_justified [OF safeD(2) [OF assms(2)] reply]
  ultimately have "ck_scope ck \<noteq> ''''" by (intro token_response_scope)
  then have "LogMissingScope m sub \<notin> set logs"
    using step_register(3) by (auto simp: register_token_def split: option.splits prod.splits)
  with assms(4) show ?thesis by (simp add: step_register(1))
next
  case (step_return i ck resp)
  with assms(4) show ?thesis by (auto simp: action_logs_def)
qed (use assms(4) in auto)

lemma no_missing_scope:
  assumes "reachable Authenticate S drift handler tokens (initial_sys s u) y"
    and "ok s" and "\<forall>t. holds s t = None" and "typed_handler handler"
  shows "LogMissingScope m sub \<notin> set (sy_logs y)"
proof -
  have "safe y \<and> replies_typed (sy_trace y) \<and> LogMissingScope m sub \<notin> set (sy_logs y)"
    using assms(1)
  proof (induction rule: reachable.induct)
    case reach_start
    with safe_initial [OF assms(2,3)] show ?case by (simp add: replies_typed_def initial_sys_def)
  next
    case (reach_step y y')
    then show ?case
      using safe_step [OF reach_step.hyps(2)] no_missing_scope_step [OF reach_step.hyps(2)]
        replies_typed_step [OF reach_step.hyps(2) assms(4)] by blast
  qed
  then show ?thesis by blast
qed

end

subsection \<open>One token through the interceptor\<close>

text \<open>A step extends the history, by requests of calls that were authorized.\<close>

lemma proxy_step_trace:
  "proxy_step A S drift handler U y y' \<Longrightarrow>
   \<exists>tr. sy_trace y' = sy_trace y @ tr \<and> (\<forall>j ck. EvForward j ck \<in> set tr \<longrightarrow> sy_calls y j = Some (Authorized ck))"
  by (erule proxy_step.cases) auto

text \<open>A call that is about to present \<open>t\<close> to the upstream, and one that is about to register it.\<close>

fun presents :: "bytes \<Rightarrow> phase \<Rightarrow> bool" where
  "presents t (Authorized ck) \<longleftrightarrow> RequestTaskToken (ck_request ck) = (t, True)"
| "presents t _ \<longleftrightarrow> False"

fun registers :: "bytes \<Rightarrow> phase \<Rightarrow> bool" where
  "registers t (Completing ck resp) \<longleftrightarrow> t \<in> set (response_tokens resp)"
| "registers t (Registering ck resp ts) \<longleftrightarrow> t \<in> set ts"
| "registers t _ \<longleftrightarrow> False"

lemma check_call_unknown_token:
  assumes "ca_request ca = Some req" and "RequestTaskToken req = (t, True)"
    and "request_for (rpcNameFromFullMethod (ca_method ca)) req"
    and "\<And>e. fst (Get S clk t s) \<noteq> Inr (Some e)"
  shows "\<exists>st logs s'. check_call A S clk ca s = (Inl st, logs, s')"
proof (rule ccontr)
  assume "\<nexists>st logs s'. check_call A S clk ca s = (Inl st, logs, s')"
  then obtain ck logs s' where "check_call A S clk ca s = (Inr ck, logs, s')"
    by (metis prod.collapse sum.collapse(2) sum.exhaust_sel)
  then obtain p i q s' where "Allowed (rpcNameFromFullMethod (ca_method ca)) = Some p"
    and "authorizeRequest S clk req (rpcNameFromFullMethod (ca_method ca)) p i s = (Inr q, s')"
    using assms(1) by (auto simp: check_call_Inr)
  then have "permitted i (answers S clk s) req q"
    using authorizeRequest_permitted [OF assms(3)] by (metis fst_conv)
  from permitted_token [OF this assms(2)] assms(4) show False
    by (auto simp: answers_def split: sum.splits)
qed

text \<open>A successful call of \<open>interceptor\<close>, taken apart.\<close>

lemma interceptor_Inr:
  assumes "interceptor A S handler clk ca s u = (Inr resp, logs, s', u')"
  obtains ck s1 s2 logs2 where "check_call A S (clk 0) ca s = (Inr ck, [], s1)"
    and "handler (ck_context ck) (ck_request ck) u = (Inr resp, u')"
    and "delete_terminal S (clk 1) ck s1 = (logs2, s2)"
    and "register_tokens S (\<lambda>n. clk (n + 2)) ck (response_tokens resp) s2 = (None, [], s')"
    and "logs = logs2 @ action_logs ck"
  using assms
  by (auto simp: interceptor_def split: sum.splits prod.splits option.splits)
    (metis append_Nil check_call_Inr One_nat_def add_2_eq_Suc' register_tokens_quiet)

text \<open>A call that is turned away, or whose handler fails, forwards and registers nothing.\<close>

lemma interceptor_denied:
  "check_call A S (clk 0) ca s = (Inl st, logs, s') \<Longrightarrow>
   interceptor A S handler clk ca s u = (Inl st, logs, s', u)"
  by (simp add: interceptor_def)

lemma interceptor_upstream_error:
  "check_call A S (clk 0) ca s = (Inr ck, logs, s') \<Longrightarrow> handler (ck_context ck) (ck_request ck) u = (Inl st, u') \<Longrightarrow>
   interceptor A S handler clk ca s u = (Inl st, [], s', u')"
  by (frule check_call_Inr [THEN iffD1]) (simp add: interceptor_def, metis)

context token_store
begin

lemma register_token_holds:
  assumes "register_token S clk ck u s = (r, logs, s')" and "ok s" and "u \<in> tokens" and "t \<in> tokens"
    and "ck_scope ck \<noteq> '''' \<Longrightarrow> admissible (entry_of ck)"
  shows "ok s' \<and> (holds s' t = Some e \<longrightarrow> holds s t = Some e \<or> t = u \<and> e = entry_of ck)"
proof (cases "s' = s")
  case False
  with assms(1) obtain x where "ck_scope ck \<noteq> ''''" and put: "Put S clk u (entry_of ck) s = (x, s')"
    by (auto simp: register_token_def entry_of_def split: if_splits option.splits prod.splits)
  with put_ok [OF assms(2) put] put_holds [OF assms(2) _ assms(3,4) put] assms(5) show ?thesis
    by blast
qed (use assms in simp)

lemma check_call_ok:
  assumes "check_call A S clk ca s = (r, logs, s')" and "ok s"
  shows "ok s'"
  using check_call_store [OF assms(1)] assms(2) get_ok by blast

lemma forgotten_denied:
  assumes "ok s" and "holds s t = None" and "t \<in> tokens" and "ca_request ca = Some req"
    and "RequestTaskToken req = (t, True)" and "request_for (rpcNameFromFullMethod (ca_method ca)) req"
  shows "\<exists>st logs s'. interceptor A S handler clk ca s u = (Inl st, logs, s', u)"
proof -
  have "fst (Get S (clk 0) t s) \<noteq> Inr (Some e)" for e
    using get_miss [OF assms(1,3,2)] by (cases "Get S (clk 0) t s") auto
  from check_call_unknown_token [OF assms(4-6) this] show ?thesis
    by (blast intro: interceptor_denied)
qed

end

context guarded_proxy
begin

text \<open>
  A terminal call consumes its token: from the step on in which a terminal call has deleted it, the
  store has nothing for the token, no call is waiting to register it, and the calls that are authorized
  to present it are among those, \<open>J\<close>, that had been authorized before.  This lasts until the upstream
  hands the token out again.
\<close>

definition consumed :: "bytes \<Rightarrow> nat set \<Rightarrow> ('s, 'u) sys \<Rightarrow> bool" where
  "consumed t J y \<longleftrightarrow> safe y \<and> holds (sy_store y) t = None \<and>
     (\<forall>j ph. sy_calls y j = Some ph \<longrightarrow> \<not> registers t ph \<and> (presents t ph \<longrightarrow> j \<in> J))"

lemma consumedI:
  assumes "consumed t J y" and "safe y'" and "sy_calls y' = (sy_calls y)(i \<mapsto> ph)"
    and "holds (sy_store y') t = None" and "\<not> registers t ph" and "presents t ph \<Longrightarrow> i \<in> J"
  shows "consumed t J y'"
  using assms by (auto simp: consumed_def)

lemma consumed_check:
  assumes "consumed t J y" and "t \<in> tokens" and "deliverable tokens ca"
    and "check_call Authenticate S clk ca (sy_store y) = (r, logs, s')"
  shows "holds s' t = None" and "\<not> registers t (after_check r)" and "\<not> presents t (after_check r)"
proof -
  have ok: "ok (sy_store y)" and none: "holds (sy_store y) t = None"
    using assms(1) safeD(1) by (auto simp: consumed_def remembers_def)
  from check_call_store [OF assms(4)] show "holds s' t = None"
  proof
    assume "\<exists>req u g. ca_request ca = Some req \<and> RequestTaskToken req = (u, True) \<and> Get S clk u (sy_store y) = (g, s')"
    then obtain req u g where "ca_request ca = Some req" "RequestTaskToken req = (u, True)"
      and get: "Get S clk u (sy_store y) = (g, s')" by blast
    then have "u \<in> tokens" using assms(3) by (auto simp: deliverable_def)
    from get_holds [OF ok this assms(2) get] none show ?thesis by (cases "holds s' t") auto
  qed (simp add: none)
  show "\<not> registers t (after_check r)" by (simp add: after_check_def split: sum.split)
  show "\<not> presents t (after_check r)"
  proof
    assume "presents t (after_check r)"
    then obtain ck where r: "r = Inr ck" and tok: "RequestTaskToken (ck_request ck) = (t, True)"
      by (auto simp: after_check_def split: sum.splits)
    have "permitted (ck_identity ck) (answers S clk (sy_store y) |` tokens) (ck_request ck) (ck_scope ck)"
      by (rule check_call_deliverable(4) [OF assms(4) [unfolded r] assms(3)])
    from permitted_token [OF this tok] have "fst (Get S clk t (sy_store y)) = Inr (Some (entry_of ck))"
      by (auto simp: answers_def restrict_map_def entry_of_def split: if_splits sum.splits)
    with get_miss [OF ok assms(2) none] show False by (metis prod.collapse)
  qed
qed

lemma consumed_step:
  assumes "proxy_step Authenticate S drift handler tokens y y'" and "consumed t J y" and "t \<in> tokens"
  shows "consumed t J y' \<or> (\<exists>j ck resp. sy_trace y' = sy_trace y @ [EvForward j ck, EvReply j ck resp] \<and>
    t \<in> set (response_tokens resp))"
proof -
  have safe: "safe y" and none: "holds (sy_store y) t = None"
    and calls: "\<And>j ph. sy_calls y j = Some ph \<Longrightarrow> \<not> registers t ph \<and> (presents t ph \<longrightarrow> j \<in> J)"
    using assms(2) by (auto simp: consumed_def)
  have ok: "ok (sy_store y)" using safeD(1) [OF safe] by (simp add: remembers_def)
  note safe' = safe_step [OF assms(1) safe]
  note next_state = consumedI [OF assms(2) safe']
  show ?thesis
    using assms(1)
  proof (cases rule: proxy_step.cases)
    case (step_check i ca clk r logs s')
    with consumed_check [OF assms(2,3), of ca clk r logs s'] show ?thesis
      by (intro disjI1 next_state [of i "after_check r"]) simp_all
  next
    case (step_forward_fails i ck st u')
    then show ?thesis by (intro disjI1 next_state [of i "Finished (Inl st)"]) (simp_all add: none)
  next
    case (step_forward i ck resp u')
    show ?thesis
    proof (cases "t \<in> set (response_tokens resp)")
      case False
      with step_forward show ?thesis by (intro disjI1 next_state [of i "Completing ck resp"]) (simp_all add: none)
    qed (use step_forward in auto)
  next
    case (step_delete i ck resp clk logs s')
    have reply: "EvReply i ck resp \<in> set (sy_trace y)" using safeD(4) [OF safe step_delete(2)] by simp
    have "holds s' t = None"
    proof (cases "s' = sy_store y")
      case False
      with step_delete(3) obtain u x where u: "RequestTaskToken (ck_request ck) = (u, True)"
        and del: "Delete S clk u (sy_store y) = (x, s')"
        by (auto simp: delete_terminal_def split: if_splits option.splits prod.splits)
      have "u \<in> tokens"
        using justified_token [OF reply_justified [OF safeD(2) [OF safe] reply] u] safeD(3) [OF safe]
        by (auto simp: trace_tokens_def)
      from delete_holds [OF ok this assms(3) del] none show ?thesis by (cases "holds s' t") auto
    qed (simp add: none)
    with step_delete calls [OF step_delete(2)] show ?thesis
      by (intro disjI1 next_state [of i "Registering ck resp (response_tokens resp)"]) simp_all
  next
    case (step_register i ck resp u ts clk r logs s')
    have reply: "EvReply i ck resp \<in> set (sy_trace y)" and u: "u \<in> set (response_tokens resp)"
      using safeD(4) [OF safe step_register(2)] by simp_all
    have "u \<in> tokens" using reply u safeD(3) [OF safe] by (auto simp: trace_tokens_def issued_def)
    moreover have "u \<noteq> t" and ts: "t \<notin> set ts" using calls [OF step_register(2)] by auto
    moreover note justified_admissible [OF reply_justified [OF safeD(2) [OF safe] reply]]
    ultimately have "holds s' t = None"
      using register_token_holds [OF step_register(3) ok _ assms(3)] none by (cases "holds s' t") auto
    with step_register ts show ?thesis
      by (intro disjI1 next_state [of i "after_register ck resp ts r"])
        (simp_all add: after_register_def split: option.splits)
  next
    case (step_return i ck resp)
    then show ?thesis by (intro disjI1 next_state [of i "Finished (Inr resp)"]) (simp_all add: none)
  next
    case (step_drift s')
    have "holds s' t = None"
      using drift_holds [OF ok assms(3) step_drift(2)] none by (cases "holds s' t") auto
    with safe' assms(2) show ?thesis by (simp add: consumed_def step_drift(1))
  qed
qed

lemma consumed_reachable:
  assumes "reachable Authenticate S drift handler tokens y1 y2" and "consumed t J y1" and "t \<in> tokens"
  shows "\<exists>tr. sy_trace y2 = sy_trace y1 @ tr \<and>
    ((\<exists>j ck resp. EvReply j ck resp \<in> set tr \<and> t \<in> set (response_tokens resp)) \<or>
     consumed t J y2 \<and>
     (\<forall>j ck. EvForward j ck \<in> set tr \<and> RequestTaskToken (ck_request ck) = (t, True) \<longrightarrow> j \<in> J))"
  using assms(1)
proof (induction rule: reachable.induct)
  case reach_start
  with assms(2) show ?case by simp
next
  case (reach_step y y')
  then obtain tr where tr: "sy_trace y = sy_trace y1 @ tr" and IH: "(\<exists>j ck resp. EvReply j ck resp \<in> set tr \<and>
      t \<in> set (response_tokens resp)) \<or> consumed t J y \<and>
      (\<forall>j ck. EvForward j ck \<in> set tr \<and> RequestTaskToken (ck_request ck) = (t, True) \<longrightarrow> j \<in> J)"
    (is "?issued tr \<or> consumed t J y \<and> ?forwards tr") by blast
  from proxy_step_trace [OF reach_step.hyps(2)] obtain tr' where
    tr': "sy_trace y' = sy_trace y @ tr'" and fw: "\<forall>j ck. EvForward j ck \<in> set tr' \<longrightarrow> sy_calls y j = Some (Authorized ck)"
    by blast
  have "consumed t J y' \<and> ?forwards (tr @ tr') \<or> ?issued (tr @ tr')" if "consumed t J y" and "?forwards tr"
    using consumed_step [OF reach_step.hyps(2) that(1) assms(3)]
  proof
    assume "consumed t J y'"
    with that fw show ?thesis by (auto simp: consumed_def)
  next
    assume "\<exists>j ck resp. sy_trace y' = sy_trace y @ [EvForward j ck, EvReply j ck resp] \<and> t \<in> set (response_tokens resp)"
    with tr' have "?issued tr'" by auto
    then show ?thesis by auto
  qed
  moreover have "?issued tr \<Longrightarrow> ?issued (tr @ tr')" by auto
  ultimately have "?issued (tr @ tr') \<or> consumed t J y' \<and> ?forwards (tr @ tr')" using IH by blast
  then show ?case by (intro exI [of _ "tr @ tr'"] conjI) (simp_all only: tr tr' append_assoc)
qed

text \<open>The step that deletes the token of a terminal call, in a store whose deletions succeed.\<close>

lemma deletion_consumes:
  assumes "proxy_step Authenticate S drift handler tokens y y1" and "safe y"
    and "sy_calls y i = Some (Completing ck resp)" and "sy_calls y1 i = Some (Registering ck resp ts)"
    and "Terminal (ck_policy ck)" and "RequestTaskToken (ck_request ck) = (t, True)" and "t \<in> tokens"
    and "\<And>c s. ok s \<Longrightarrow> fst (Delete S c t s) = None" and "\<forall>j ph. sy_calls y1 j = Some ph \<longrightarrow> \<not> registers t ph"
  shows "consumed t {j. sy_calls y1 j \<noteq> None} y1"
proof -
  have ok: "ok (sy_store y)" using safeD(1) [OF assms(2)] by (simp add: remembers_def)
  from assms(1,3,4) obtain clk logs where "delete_terminal S clk ck (sy_store y) = (logs, sy_store y1)"
    by (cases rule: proxy_step.cases) (auto simp: after_register_def split: if_splits option.splits)
  with assms(5,6) assms(8) [OF ok, of clk] have "Delete S clk t (sy_store y) = (None, sy_store y1)"
    by (auto simp: delete_terminal_def split: prod.splits option.splits)
  from delete_forgets [OF ok assms(7) this] safe_step [OF assms(1,2)] assms(9) show ?thesis
    by (auto simp: consumed_def)
qed

lemma consumed_refused:
  assumes "consumed t J y" and "t \<in> tokens" and "ca_request ca = Some req"
    and "RequestTaskToken req = (t, True)" and "request_for (rpcNameFromFullMethod (ca_method ca)) req"
  shows "\<exists>st logs s'. interceptor A S handler clk ca (sy_store y) u = (Inl st, logs, s', u)"
proof (rule forgotten_denied [OF _ _ assms(2-5)])
  show "ok (sy_store y)" and "holds (sy_store y) t = None"
    using assms(1) safeD(1) [of y] by (simp_all add: consumed_def remembers_def)
qed

end

end
