(* ===== verification/Lru_Refinement.thy ===== *)
theory Lru_Refinement
  imports Lru_Shard
begin

section \<open>The local cache's shard refines an LRU list\<close>

text \<open>
  The coupling invariant between the map and the list of a shard, the reference LRU list (most
  recently used first, one association list of key, entry and expiry), and the refinement lemmas:
  each operation of \<open>Lru_Shard\<close> keeps the invariant and acts on the reference list as the reference
  operation does.
\<close>

subsection \<open>The invariant and the abstraction\<close>

definition coupled :: "shard \<Rightarrow> bool" where
  "coupled s \<longleftrightarrow>
     distinct (map fst (sh_ll s)) \<and> distinct (map (\<lambda>p. it_key (snd p)) (sh_ll s)) \<and>
     distinct (map fst (sh_items s)) \<and>
     set (sh_items s) = (\<lambda>p. (it_key (snd p), fst p)) ` set (sh_ll s) \<and>
     (\<forall>p \<in> set (sh_ll s). fst p < sh_next s)"

definition shard_ok :: "shard \<Rightarrow> bool" where
  "shard_ok s \<longleftrightarrow>
     coupled s \<and> (sh_maxSize s > 0 \<longrightarrow> int (length (sh_items s)) \<le> sh_maxSize s)"

type_synonym lru_list = "(string \<times> entry \<times> instant) list"

definition lru_of :: "element \<Rightarrow> string \<times> entry \<times> instant" where
  "lru_of p = (it_key (snd p), it_entry (snd p), it_expiresAt (snd p))"

definition lru :: "shard \<Rightarrow> lru_list" where
  "lru s = map lru_of (sh_ll s)"

lemma fst_lru_of [simp]: "fst (lru_of p) = it_key (snd p)"
  by (simp add: lru_of_def)

lemma coupled_newShard [simp]: "coupled (newShard n)"
  by (simp add: coupled_def newShard_def)

lemma shard_ok_newShard [simp]: "shard_ok (newShard n)"
  by (simp add: shard_ok_def newShard_def) (simp add: newShard_def [symmetric])

lemma coupled_lookup:
  "coupled s \<Longrightarrow> map_of (sh_items s) k = Some a \<longleftrightarrow> (\<exists>it. (a, it) \<in> set (sh_ll s) \<and> it_key it = k)"
  by (auto simp: coupled_def map_of_eq_Some_iff image_iff) force+

lemma coupled_element:
  "coupled s \<Longrightarrow> map_of (sh_ll s) a = Some it \<longleftrightarrow> (a, it) \<in> set (sh_ll s)"
  by (simp add: coupled_def map_of_eq_Some_iff)

lemma distinct_lru: "coupled s \<Longrightarrow> distinct (map fst (lru s))"
  by (simp add: coupled_def lru_def comp_def)

lemma coupled_lookup_None:
  "coupled s \<Longrightarrow> map_of (sh_items s) k = None \<longleftrightarrow> k \<notin> fst ` set (lru s)"
  by (force simp: coupled_def lru_def map_of_eq_None_iff image_image)

lemma coupled_length: "coupled s \<Longrightarrow> length (sh_items s) = length (sh_ll s)"
proof -
  assume c: "coupled s"
  let ?f = "\<lambda>p. (it_key (snd p), fst p)"
  have "inj_on ?f (set (sh_ll s))"
    using c by (auto simp: coupled_def distinct_map inj_on_def)
  moreover have "distinct (sh_ll s)" and "distinct (sh_items s)"
    using c by (auto simp: coupled_def dest: distinct_map [THEN iffD1])
  ultimately show ?thesis
    using c by (metis (no_types, lifting) card_image coupled_def distinct_card)
qed

text \<open>In a coupled shard an element is identified by its address and by its key alike.\<close>

lemma coupled_address_unique:
  "coupled s \<Longrightarrow> (a, it) \<in> set (sh_ll s) \<Longrightarrow> (a, jt) \<in> set (sh_ll s) \<Longrightarrow> it = jt"
  by (metis coupled_element option.inject)

lemma coupled_key_unique:
  assumes "coupled s" and "(a, it) \<in> set (sh_ll s)" and "(b, jt) \<in> set (sh_ll s)"
    and "it_key it = it_key jt"
  shows "a = b"
proof -
  have "map_of (sh_items s) (it_key it) = Some a" and "map_of (sh_items s) (it_key it) = Some b"
    using assms by (auto simp: coupled_lookup)
  then show ?thesis by simp
qed

lemma coupled_address_key:
  assumes "coupled s" and "(a, it) \<in> set (sh_ll s)" and "p \<in> set (sh_ll s)"
  shows "fst p = a \<longleftrightarrow> it_key (snd p) = it_key it"
  using assms by (cases p) (metis coupled_address_unique coupled_key_unique fst_conv snd_conv)

lemma lru_listRemove:
  assumes "coupled s" and "(a, it) \<in> set (sh_ll s)"
  shows "map lru_of (listRemove a (sh_ll s)) = filter (\<lambda>q. fst q \<noteq> it_key it) (lru s)"
  unfolding listRemove_def lru_def filter_map comp_def fst_lru_of
  by (rule arg_cong [where f = "map lru_of"], rule filter_cong [OF refl])
    (simp add: coupled_address_key [OF assms])

subsection \<open>The three ways the list changes\<close>

lemma removeElement_coupled:
  assumes c: "coupled s" and el: "(a, it) \<in> set (sh_ll s)"
  shows "coupled (removeElement (a, it) s)"
    and "lru (removeElement (a, it) s) = filter (\<lambda>q. fst q \<noteq> it_key it) (lru s)"
proof -
  show "lru (removeElement (a, it) s) = filter (\<lambda>q. fst q \<noteq> it_key it) (lru s)"
    using lru_listRemove [OF assms] by (simp add: lru_def removeElement_def)
  let ?f = "\<lambda>p. (it_key (snd p), fst p)"
  have "set (AList.delete (it_key it) (sh_items s)) = {q \<in> ?f ` set (sh_ll s). fst q \<noteq> it_key it}"
    using c by (auto simp: AList.delete_eq coupled_def)
  also have "\<dots> = ?f ` {p \<in> set (sh_ll s). fst p \<noteq> a}"
    using coupled_address_key [OF assms] by fastforce
  finally show "coupled (removeElement (a, it) s)"
    using c by (simp add: coupled_def removeElement_def listRemove_def distinct_delete
        distinct_map_filter)
qed

lemma setValue_other: "listRemove a (setValue a f ll) = listRemove a ll"
  by (induction ll) (auto simp: setValue_def listRemove_def)

lemma setValue_this:
  "distinct (map fst ll) \<Longrightarrow> (a, it) \<in> set ll \<Longrightarrow>
   filter (\<lambda>p. fst p = a) (setValue a f ll) = [(a, f it)]"
  by (induction ll) (force simp: setValue_def filter_empty_conv image_iff)+

lemma touch_coupled:
  assumes c: "coupled s" and el: "(a, it) \<in> set (sh_ll s)" and key: "it_key (f it) = it_key it"
  defines "t \<equiv> s\<lparr>sh_ll := listMoveToFront a (setValue a f (sh_ll s))\<rparr>"
  shows "coupled t"
    and "lru t = (it_key it, it_entry (f it), it_expiresAt (f it))
                   # filter (\<lambda>q. fst q \<noteq> it_key it) (lru s)"
proof -
  have "distinct (map fst (sh_ll s))" using c by (simp add: coupled_def)
  from setValue_this [OF this el] have ll: "sh_ll t = (a, f it) # listRemove a (sh_ll s)"
    by (simp add: t_def listMoveToFront_def setValue_other)
  then show "lru t = (it_key it, it_entry (f it), it_expiresAt (f it))
                   # filter (\<lambda>q. fst q \<noteq> it_key it) (lru s)"
    using lru_listRemove [OF c el] by (simp add: lru_def lru_of_def key)
  let ?f = "\<lambda>p. (it_key (snd p), fst p)"
  let ?rest = "{p \<in> set (sh_ll s). fst p \<noteq> a}"
  have "set (sh_ll s) = insert (a, it) ?rest"
  proof (rule set_eqI)
    fix p
    show "p \<in> set (sh_ll s) \<longleftrightarrow> p \<in> insert (a, it) ?rest"
      using el by (cases p) (auto dest: coupled_address_unique [OF c el])
  qed
  then have "?f ` set (sh_ll s) = ?f ` insert (a, it) ?rest" by (rule arg_cong)
  also have "\<dots> = insert (it_key it, a) (?f ` ?rest)" by simp
  finally have "?f ` set (sh_ll s) = insert (it_key it, a) (?f ` ?rest)" .
  moreover have "?f ` set (sh_ll t) = insert (it_key it, a) (?f ` ?rest)"
    by (simp add: ll listRemove_def key)
  ultimately have "set (sh_items t) = ?f ` set (sh_ll t)"
    using c by (simp add: coupled_def t_def)
  moreover have "it_key it \<notin> (\<lambda>p. it_key (snd p)) ` ?rest"
    using coupled_address_key [OF c el] by auto
  then have "distinct (map (\<lambda>p. it_key (snd p)) (sh_ll t))"
    using c by (simp add: coupled_def ll listRemove_def distinct_map_filter key)
  moreover have "distinct (map fst (sh_ll t))"
    using c by (auto simp: coupled_def ll listRemove_def distinct_map_filter)
  moreover have "\<forall>p \<in> set (sh_ll t). fst p < sh_next t"
    using c el by (auto simp: coupled_def ll listRemove_def) (auto simp: t_def)
  moreover have "distinct (map fst (sh_items t))"
    using c by (simp add: coupled_def t_def)
  ultimately show "coupled t" by (simp add: coupled_def)
qed

lemma push_coupled:
  assumes c: "coupled s" and new: "map_of (sh_items s) k = None" and key: "it_key it = k"
  defines "t \<equiv> s\<lparr>sh_ll := (sh_next s, it) # sh_ll s,
                 sh_items := AList.update k (sh_next s) (sh_items s), sh_next := Suc (sh_next s)\<rparr>"
  shows "coupled t" and "lru t = (k, it_entry it, it_expiresAt it) # lru s"
proof -
  show "lru t = (k, it_entry it, it_expiresAt it) # lru s"
    by (simp add: t_def lru_def lru_of_def key)
  have "k \<notin> fst ` set (sh_items s)" using new by (simp add: map_of_eq_None_iff)
  then have upd: "AList.update k (sh_next s) (sh_items s) = sh_items s @ [(k, sh_next s)]"
    by (rule update_new)
  have "k \<notin> (\<lambda>p. it_key (snd p)) ` set (sh_ll s)"
    using coupled_lookup_None [OF c] new by (simp add: lru_def image_image)
  with c \<open>k \<notin> fst ` set (sh_items s)\<close> show "coupled t"
    by (auto simp: coupled_def t_def upd key)
qed

lemma removeElement_frame [simp]:
  "sh_maxSize (removeElement el s) = sh_maxSize s" "sh_next (removeElement el s) = sh_next s"
  by (simp_all add: removeElement_def)

lemma length_lru: "length (lru s) = length (sh_ll s)"
  by (simp add: lru_def)

subsection \<open>Eviction over the bound\<close>

lemma lru_butlast:
  assumes "coupled s" and "sh_ll s \<noteq> []"
  shows "lru (removeElement (last (sh_ll s)) s) = butlast (lru s)"
proof -
  obtain a it where l: "last (sh_ll s) = (a, it)" by (cases "last (sh_ll s)")
  with assms(2) have "(a, it) \<in> set (sh_ll s)" by (metis last_in_set)
  moreover have "it_key it = fst (last (lru s))"
    using assms(2) by (simp add: lru_def last_map l)
  ultimately have "lru (removeElement (a, it) s) = filter (\<lambda>q. fst q \<noteq> fst (last (lru s))) (lru s)"
    using removeElement_coupled(2) [OF assms(1)] by simp
  also have "\<dots> = butlast (lru s)"
    using assms(2) by (intro butlast_eq_filter_last distinct_lru assms(1)) (simp add: lru_def)
  finally show ?thesis by (simp add: l)
qed

lemma evictOver_coupled:
  "coupled s \<Longrightarrow>
   coupled (evictOver s) \<and> sh_maxSize (evictOver s) = sh_maxSize s \<and>
   lru (evictOver s) = (if sh_maxSize s > 0 then take (nat (sh_maxSize s)) (lru s) else lru s)"
proof (induction s rule: evictOver.induct)
  case (1 s)
  show ?case
  proof (cases "sh_maxSize s > 0 \<and> int (length (sh_items s)) > sh_maxSize s")
    case True
    then have ne: "sh_ll s \<noteq> []" using coupled_length [OF "1.prems"] by auto
    let ?b = "last (sh_ll s)"
    have bk: "listBack (sh_ll s) = Some ?b" by (simp add: listBack_def ne)
    have step: "evictOver s = evictOver (removeElement ?b s)"
      using True by (subst evictOver.simps) (simp add: bk)
    have "?b \<in> set (sh_ll s)" using ne by simp
    then have "coupled (removeElement ?b s)"
      using removeElement_coupled(1) [OF "1.prems"] by (metis surj_pair)
    note IH = "1.IH" [OF True bk this]
    have "nat (sh_maxSize s) < length (lru s)"
      using True coupled_length [OF "1.prems"] unfolding length_lru by linarith
    then have "take (nat (sh_maxSize s)) (butlast (lru s)) = take (nat (sh_maxSize s)) (lru s)"
      by (rule take_butlast)
    with IH True show ?thesis by (simp add: step lru_butlast [OF "1.prems" ne])
  next
    case False
    then have "evictOver s = s" by (subst evictOver.simps) auto
    moreover have "sh_maxSize s > 0 \<Longrightarrow> length (lru s) \<le> nat (sh_maxSize s)"
      using False coupled_length [OF "1.prems"] by (simp add: length_lru)
    ultimately show ?thesis using "1.prems" by simp
  qed
qed

subsection \<open>The reference operations and the refinement\<close>

definition lru_cut :: "int \<Rightarrow> lru_list \<Rightarrow> lru_list" where
  "lru_cut n xs = (if n > 0 then take (nat n) xs else xs)"

definition lru_put :: "int \<Rightarrow> string \<Rightarrow> entry \<Rightarrow> instant \<Rightarrow> lru_list \<Rightarrow> lru_list" where
  "lru_put n k e x xs = lru_cut n ((k, e, x) # filter (\<lambda>q. fst q \<noteq> k) xs)"

definition lru_get :: "string \<Rightarrow> instant \<Rightarrow> instant \<Rightarrow> lru_list \<Rightarrow> entry option \<times> lru_list" where
  "lru_get k now x xs =
     (case map_of xs k of
        None \<Rightarrow> (None, xs)
      | Some (e, x0) \<Rightarrow>
          (if now > x0 then (None, filter (\<lambda>q. fst q \<noteq> k) xs)
           else (Some e, (k, e, x) # filter (\<lambda>q. fst q \<noteq> k) xs)))"

definition lru_delete :: "string \<Rightarrow> lru_list \<Rightarrow> lru_list" where
  "lru_delete k xs = filter (\<lambda>q. fst q \<noteq> k) xs"

definition lru_sweep :: "instant \<Rightarrow> lru_list \<Rightarrow> lru_list" where
  "lru_sweep now xs = filter (\<lambda>(k, e, x). \<not> now > x) xs"

lemma lru_lookup:
  assumes "coupled s" and "(a, it) \<in> set (sh_ll s)"
  shows "map_of (lru s) (it_key it) = Some (it_entry it, it_expiresAt it)"
proof -
  have "lru_of (a, it) \<in> set (lru s)" using assms(2) by (simp add: lru_def)
  then show ?thesis
    using distinct_lru [OF assms(1)] by (simp add: lru_of_def)
qed

text \<open>Either the key is in neither structure, or the map leads to its element in the list.\<close>

lemma coupled_cases:
  assumes "coupled s"
  obtains (miss) "map_of (sh_items s) k = None" "map_of (lru s) k = None"
    | (hit) a it where "map_of (sh_items s) k = Some a" "map_of (sh_ll s) a = Some it"
        "(a, it) \<in> set (sh_ll s)" "it_key it = k"
        "map_of (lru s) k = Some (it_entry it, it_expiresAt it)"
proof (cases "map_of (sh_items s) k")
  case None
  with coupled_lookup_None [OF assms] have "map_of (lru s) k = None"
    by (simp add: map_of_eq_None_iff)
  with None show ?thesis by (rule miss)
next
  case (Some a)
  with coupled_lookup [OF assms] obtain it where it: "(a, it) \<in> set (sh_ll s)" "it_key it = k"
    by blast
  with Some show ?thesis
    using coupled_element [OF assms] lru_lookup [OF assms it(1)] by (intro hit) auto
qed

lemma lru_cut_id: "shard_ok s \<Longrightarrow> length xs \<le> length (lru s) \<Longrightarrow> lru_cut (sh_maxSize s) xs = xs"
  using coupled_length [of s] by (auto simp: shard_ok_def lru_cut_def length_lru)

lemma shard_put_refines:
  assumes "shard_ok s"
  shows "shard_ok (shard_put k e ttl now s)"
    and "sh_maxSize (shard_put k e ttl now s) = sh_maxSize s"
    and "lru (shard_put k e ttl now s) = lru_put (sh_maxSize s) k e (now + ttl) (lru s)"
proof -
  let ?t = "shard_put k e ttl now s"
  have c: "coupled s" using assms by (simp add: shard_ok_def)
  have "coupled ?t \<and> sh_maxSize ?t = sh_maxSize s \<and>
      lru ?t = lru_put (sh_maxSize s) k e (now + ttl) (lru s)"
    using c
  proof (cases rule: coupled_cases [where k = k])
    case miss
    let ?it = "\<lparr>it_key = k, it_entry = e, it_expiresAt = now + ttl\<rparr>"
    have "filter (\<lambda>q. fst q \<noteq> k) (lru s) = lru s"
      using miss(2) by (simp add: map_of_eq_None_iff filter_id_conv) (metis fst_conv imageI)
    then show ?thesis
      using push_coupled [OF c miss(1), of ?it] evictOver_coupled
      by (simp add: shard_put_def miss lru_put_def lru_cut_def)
  next
    case (hit a it)
    let ?f = "\<lambda>it. it\<lparr>it_entry := e, it_expiresAt := now + ttl\<rparr>"
    have "(k, it_entry it, it_expiresAt it) \<in> set (lru s)" using hit(5) by (rule map_of_SomeD)
    then have "length (filter (\<lambda>q. fst q \<noteq> k) (lru s)) < length (lru s)"
      by (rule length_filter_less) simp
    then have "lru_put (sh_maxSize s) k e (now + ttl) (lru s) =
        (k, e, now + ttl) # filter (\<lambda>q. fst q \<noteq> k) (lru s)"
      unfolding lru_put_def by (intro lru_cut_id [OF assms]) simp
    then show ?thesis
      using touch_coupled [OF c hit(3), of ?f] by (simp add: shard_put_def hit)
  qed
  then show "sh_maxSize ?t = sh_maxSize s"
    and *: "lru ?t = lru_put (sh_maxSize s) k e (now + ttl) (lru s)" and "shard_ok ?t"
    using coupled_length [of ?t] length_lru [of ?t]
    by (auto simp: shard_ok_def lru_put_def lru_cut_def)
qed

lemma shard_get_refines:
  assumes "shard_ok s" and g: "shard_get k ttl now1 now2 s = (r, s')"
  shows "shard_ok s'" and "sh_maxSize s' = sh_maxSize s"
    and "lru_get k now1 (now2 + ttl) (lru s) = (r, lru s')"
proof -
  have c: "coupled s" using assms by (simp add: shard_ok_def)
  have "coupled s' \<and> sh_maxSize s' = sh_maxSize s \<and> lru_get k now1 (now2 + ttl) (lru s) = (r, lru s')"
    using c
  proof (cases rule: coupled_cases [where k = k])
    case miss
    with g c show ?thesis by (auto simp: shard_get_def lru_get_def)
  next
    case (hit a it)
    let ?f = "\<lambda>it. it\<lparr>it_expiresAt := now2 + ttl\<rparr>"
    show ?thesis
      using g hit touch_coupled [OF c hit(3), of ?f] removeElement_coupled [OF c hit(3)]
      by (auto simp: shard_get_def lru_get_def split: if_splits)
  qed
  moreover have "length (snd (lru_get k now1 (now2 + ttl) (lru s))) \<le> length (lru s)"
  proof (cases "map_of (lru s) k")
    case (Some v)
    then have "(k, v) \<in> set (lru s)" by (rule map_of_SomeD)
    then have "length (filter (\<lambda>q. fst q \<noteq> k) (lru s)) < length (lru s)"
      by (rule length_filter_less) simp
    with Some show ?thesis by (cases v) (auto simp: lru_get_def)
  qed (simp add: lru_get_def)
  ultimately show "shard_ok s'" and "sh_maxSize s' = sh_maxSize s"
    and "lru_get k now1 (now2 + ttl) (lru s) = (r, lru s')"
    using assms(1) coupled_length [of s] coupled_length [of s']
    by (auto simp: shard_ok_def length_lru)
qed

lemma shard_delete_refines:
  assumes "shard_ok s"
  shows "shard_ok (shard_delete k s)" and "sh_maxSize (shard_delete k s) = sh_maxSize s"
    and "lru (shard_delete k s) = lru_delete k (lru s)"
proof -
  let ?t = "shard_delete k s"
  have c: "coupled s" using assms by (simp add: shard_ok_def)
  have "coupled ?t \<and> sh_maxSize ?t = sh_maxSize s \<and> lru ?t = lru_delete k (lru s)"
    using c
  proof (cases rule: coupled_cases [where k = k])
    case miss
    then have "filter (\<lambda>q. fst q \<noteq> k) (lru s) = lru s"
      by (simp add: map_of_eq_None_iff filter_id_conv) (metis fst_conv imageI)
    with miss c show ?thesis by (simp add: shard_delete_def lru_delete_def)
  next
    case (hit a it)
    then show ?thesis
      using removeElement_coupled [OF c hit(3)] by (simp add: shard_delete_def lru_delete_def)
  qed
  moreover have "length (lru_delete k (lru s)) \<le> length (lru s)"
    by (simp add: lru_delete_def)
  ultimately show "shard_ok ?t" and "sh_maxSize ?t = sh_maxSize s"
    and "lru ?t = lru_delete k (lru s)"
    using assms coupled_length [of s] coupled_length [of ?t] length_lru [of s] length_lru [of ?t]
    by (auto simp: shard_ok_def)
qed

subsection \<open>The sweep of expired elements\<close>

lemma listPrev_at:
  "distinct (map fst (xs @ (a, it) # ys)) \<Longrightarrow>
   listPrev a (xs @ (a, it) # ys) = (if xs = [] then None else Some (last xs))"
proof (induction xs rule: induct_list012)
  case 1
  then show ?case by (cases ys) simp_all
next
  case (2 x)
  then show ?case by simp
next
  case (3 x y xs)
  then show ?case by auto
qed

lemma evictFrom_list:
  assumes "coupled s" and "sh_ll s = xs @ el # ys"
  shows "coupled (evictFrom now (Some el) s) \<and>
    sh_maxSize (evictFrom now (Some el) s) = sh_maxSize s \<and>
    sh_ll (evictFrom now (Some el) s) =
      filter (\<lambda>p. \<not> now > it_expiresAt (snd p)) (xs @ [el]) @ ys"
  using assms
proof (induction xs arbitrary: s el ys rule: rev_induct)
  case Nil
  obtain a it where el: "el = (a, it)" by (cases el)
  have d: "distinct (map fst ([] @ (a, it) # ys))"
    using Nil.prems by (simp add: coupled_def el)
  then have "listRemove a (sh_ll s) = ys"
    using Nil.prems(2) by (auto simp: el listRemove_def filter_id_conv)
  moreover have "coupled (removeElement el s)"
    using removeElement_coupled(1) [OF Nil.prems(1)] Nil.prems(2) by (simp add: el)
  ultimately show ?case
    using Nil.prems listPrev_at [OF d] by (simp add: el removeElement_def)
next
  case (snoc x xs)
  obtain a it where el: "el = (a, it)" by (cases el)
  have d: "distinct (map fst ((xs @ [x]) @ (a, it) # ys))"
    using snoc.prems by (simp add: coupled_def el)
  have prev: "listPrev a (sh_ll s) = Some x"
    using listPrev_at [OF d] snoc.prems(2) by (simp add: el)
  show ?case
  proof (cases "now > it_expiresAt it")
    case True
    have "fst x \<noteq> a" "\<forall>p \<in> set xs. fst p \<noteq> a" "\<forall>p \<in> set ys. fst p \<noteq> a"
      using d by auto
    then have "sh_ll (removeElement el s) = xs @ x # ys"
      using snoc.prems(2) by (simp add: el removeElement_def listRemove_def filter_id_conv)
    moreover have "coupled (removeElement el s)"
      using removeElement_coupled(1) [OF snoc.prems(1)] snoc.prems(2) by (simp add: el)
    ultimately show ?thesis
      using snoc.IH [of "removeElement el s" x ys] True prev by (simp add: el)
  next
    case False
    then show ?thesis
      using snoc.IH [of s x "el # ys"] snoc.prems prev by (simp add: el)
  qed
qed

lemma shard_sweep_refines:
  assumes "shard_ok s"
  shows "shard_ok (evictExpired now s)" and "sh_maxSize (evictExpired now s) = sh_maxSize s"
    and "lru (evictExpired now s) = lru_sweep now (lru s)"
proof -
  let ?t = "evictExpired now s"
  have c: "coupled s" using assms by (simp add: shard_ok_def)
  have "coupled ?t \<and> sh_maxSize ?t = sh_maxSize s \<and>
      sh_ll ?t = filter (\<lambda>p. \<not> now > it_expiresAt (snd p)) (sh_ll s)"
  proof (cases "sh_ll s" rule: rev_cases)
    case Nil
    with c show ?thesis by (simp add: evictExpired_def listBack_def)
  next
    case (snoc xs el)
    then show ?thesis
      using evictFrom_list [OF c, of xs el "[]" now] by (simp add: evictExpired_def listBack_def)
  qed
  then have t: "coupled ?t" "sh_maxSize ?t = sh_maxSize s" "lru ?t = lru_sweep now (lru s)"
    by (simp_all add: lru_def lru_sweep_def filter_map comp_def lru_of_def)
  then have "length (lru ?t) \<le> length (lru s)" by (simp add: lru_sweep_def)
  then have "length (sh_items ?t) \<le> length (sh_items s)"
    by (simp add: coupled_length c t(1) length_lru)
  with assms t show "shard_ok ?t" and "sh_maxSize ?t = sh_maxSize s"
    and "lru ?t = lru_sweep now (lru s)"
    by (auto simp: shard_ok_def)
qed

lemmas shard_refinements =
  shard_put_refines shard_get_refines shard_delete_refines shard_sweep_refines

subsection \<open>Properties\<close>

text \<open>C8:
  A shard, with its map and its linked list, behaves like one list of entries, most recently used
  first: each operation keeps the two structures in step and the bound on their size, and acts on the
  list as the reference operation does, evictions and expiry included.
\<close>

theorem shard_refines_lru:
  assumes "shard_ok s"
  shows "(shard_ok (shard_put k e ttl now s) \<and>
       lru (shard_put k e ttl now s) = lru_put (sh_maxSize s) k e (now + ttl) (lru s)) \<and>
     (shard_ok (snd (shard_get k ttl now now2 s)) \<and>
       lru_get k now (now2 + ttl) (lru s) =
         (fst (shard_get k ttl now now2 s), lru (snd (shard_get k ttl now now2 s)))) \<and>
     (shard_ok (shard_delete k s) \<and> lru (shard_delete k s) = lru_delete k (lru s)) \<and>
     (shard_ok (evictExpired now s) \<and> lru (evictExpired now s) = lru_sweep now (lru s))"
  by (intro conjI shard_put_refines(1,3) shard_get_refines(1,3) [OF _ prod.collapse [symmetric]]
      shard_delete_refines(1,3) shard_sweep_refines(1,3) assms)

theorem shard_refines_lru_witness:
  "lru (shard_put ''k'' sample_entry 5 10 (newShard 1)) = [(''k'', sample_entry, 15)]"
proof -
  have "shard_ok (newShard 1)" by simp
  from shard_refines_lru [OF this, of "''k''" sample_entry 5 10] show ?thesis
    by (simp add: lru_put_def lru_cut_def lru_def newShard_def)
qed

end
