(* ===== verification/Local_Cache.thy ===== *)
theory Local_Cache
  imports Lru_Refinement "HOL-Library.Word" "HOL-Library.Signed_Division"
begin

section \<open>internal/tokencache: the sharded local cache\<close>

text \<open>
  The type \<open>Cache\<close> of \<open>cache.go\<close>: 32 shards, a token's shard chosen by a hash of its bytes, and a
  janitor goroutine that sweeps expired entries shard by shard.  The seed of \<open>hash/maphash\<close> is
  random; it selects the hash function, so the field \<open>c_hash\<close> is that function.  The lemmas show
  that the cache is a \<open>token_store\<close>, how many entries it can hold, and how long it remembers one.
\<close>

definition numShards :: nat where
  "numShards = 32"

datatype janitor = Waiting | Sweeping instant nat | Returned

record cache =
  c_shards :: "shard list"
  c_ttl :: duration
  c_hash :: "bytes \<Rightarrow> 64 word"
  c_stopped :: bool
  c_janitor :: janitor

definition second :: duration where
  "second = 1000000000"

definition perShard :: "int \<Rightarrow> int" where
  "perShard maxSize = max (maxSize sdiv int numShards) 1"

definition NewCache :: "duration \<Rightarrow> int \<Rightarrow> (bytes \<Rightarrow> 64 word) \<Rightarrow> cache" where
  "NewCache ttl maxSize seed =
     \<lparr>c_shards = replicate numShards (newShard (perShard maxSize)), c_ttl = ttl, c_hash = seed,
      c_stopped = False, c_janitor = Waiting\<rparr>"

text \<open>The janitor's period, \<open>max(ttl/4, 15*time.Second)\<close>.\<close>

definition janitorInterval :: "duration \<Rightarrow> duration" where
  "janitorInterval ttl = max (ttl sdiv 4) (15 * second)"

definition shardFor :: "bytes \<Rightarrow> cache \<Rightarrow> nat" where
  "shardFor token c = unat (c_hash c token mod of_nat numShards)"

definition setShard :: "nat \<Rightarrow> shard \<Rightarrow> cache \<Rightarrow> cache" where
  "setShard i s c = c\<lparr>c_shards := (c_shards c)[i := s]\<rparr>"

definition cachePut :: "readings \<Rightarrow> bytes \<Rightarrow> entry \<Rightarrow> cache \<Rightarrow> string option \<times> cache" where
  "cachePut clk token e c =
     (let i = shardFor token c in
      (None, setShard i (shard_put token e (c_ttl c) (fst clk) (c_shards c ! i)) c))"

definition cacheGet :: "readings \<Rightarrow> bytes \<Rightarrow> cache \<Rightarrow> (string + entry option) \<times> cache" where
  "cacheGet clk token c =
     (let i = shardFor token c in
      case shard_get token (c_ttl c) (fst clk) (snd clk) (c_shards c ! i) of
        (r, s) \<Rightarrow> (Inr r, setShard i s c))"

definition cacheDelete :: "readings \<Rightarrow> bytes \<Rightarrow> cache \<Rightarrow> string option \<times> cache" where
  "cacheDelete clk token c =
     (let i = shardFor token c in
      (None, setShard i (shard_delete token (c_shards c ! i)) c))"

text \<open>Closing the channel \<open>stopJanitor\<close> a second time is a panic.\<close>

definition cacheClose :: "cache \<Rightarrow> (string option \<times> cache) option" where
  "cacheClose c = (if c_stopped c then None else Some (None, c\<lparr>c_stopped := True\<rparr>))"

definition local_store :: "cache store" where
  "local_store = \<lparr>Put = cachePut, Get = cacheGet, Delete = cacheDelete, Close = cacheClose\<rparr>"

text \<open>
  \<open>sweepShard\<close> is one iteration of the janitor's loop over the shards, for the reading \<open>now\<close> of its
  ticker, and \<open>sweepAll\<close> a whole tick without interleaving.
\<close>

definition sweepShard :: "nat \<Rightarrow> instant \<Rightarrow> cache \<Rightarrow> cache" where
  "sweepShard i now c = setShard i (evictExpired now (c_shards c ! i)) c"

definition sweepAll :: "instant \<Rightarrow> cache \<Rightarrow> cache" where
  "sweepAll now c = fold (\<lambda>i. sweepShard i now) [0..<numShards] c"

text \<open>
  The janitor goroutine: it waits in its \<open>select\<close>, where a tick may be taken even when the channel is
  already closed; it sweeps one shard after the other, with operations of others in between; and it
  returns.
\<close>

inductive janitor_step :: "cache \<Rightarrow> cache \<Rightarrow> bool" where
  janitor_tick: "c_janitor c = Waiting \<Longrightarrow> janitor_step c (c\<lparr>c_janitor := Sweeping now 0\<rparr>)"
| janitor_sweep: "c_janitor c = Sweeping now i \<Longrightarrow> i < numShards \<Longrightarrow>
    janitor_step c ((sweepShard i now c)\<lparr>c_janitor := Sweeping now (Suc i)\<rparr>)"
| janitor_swept: "c_janitor c = Sweeping now i \<Longrightarrow> \<not> i < numShards \<Longrightarrow>
    janitor_step c (c\<lparr>c_janitor := Waiting\<rparr>)"
| janitor_stop: "c_janitor c = Waiting \<Longrightarrow> c_stopped c \<Longrightarrow>
    janitor_step c (c\<lparr>c_janitor := Returned\<rparr>)"

inductive_simps janitor_step_iff: "janitor_step c c'"

subsection \<open>The invariant\<close>

definition cache_ok :: "cache \<Rightarrow> bool" where
  "cache_ok c \<longleftrightarrow> length (c_shards c) = numShards \<and> (\<forall>s \<in> set (c_shards c). shard_ok s)"

definition cache_lru :: "cache \<Rightarrow> bytes \<Rightarrow> lru_list" where
  "cache_lru c t = lru (c_shards c ! shardFor t c)"

definition cache_holds :: "cache \<Rightarrow> bytes \<Rightarrow> entry option" where
  "cache_holds c t = map_option fst (map_of (cache_lru c t) t)"

lemma numShards_pos [simp]: "0 < numShards"
  by (simp add: numShards_def)

lemma shardFor_less [simp]: "shardFor t c < numShards"
proof -
  have "unat (c_hash c t mod 32) = unat (c_hash c t) mod 32" by (simp add: unat_mod)
  then show ?thesis by (simp add: shardFor_def numShards_def)
qed

lemma setShard_frame [simp]:
  "c_ttl (setShard i s c) = c_ttl c" "c_hash (setShard i s c) = c_hash c"
  "c_shards (setShard i s c) = (c_shards c)[i := s]"
  "shardFor t (setShard i s c) = shardFor t c"
  by (simp_all add: setShard_def shardFor_def)

lemma cache_ok_NewCache [simp]: "cache_ok (NewCache ttl n seed)"
  by (simp add: cache_ok_def NewCache_def)

lemma cache_ok_shard: "cache_ok c \<Longrightarrow> i < numShards \<Longrightarrow> shard_ok (c_shards c ! i)"
  by (simp add: cache_ok_def)

lemma cache_ok_setShard: "cache_ok c \<Longrightarrow> shard_ok s \<Longrightarrow> cache_ok (setShard i s c)"
  by (auto simp: cache_ok_def dest: set_update_subset_insert [THEN subsetD])

lemma cache_lru_setShard:
  "cache_ok c \<Longrightarrow> i < numShards \<Longrightarrow>
   cache_lru (setShard i s c) u = (if shardFor u c = i then lru s else cache_lru c u)"
  by (auto simp: cache_lru_def cache_ok_def nth_list_update)

lemma cache_lru_same: "shardFor u c = shardFor t c \<Longrightarrow> cache_lru c u = cache_lru c t"
  by (simp add: cache_lru_def)

lemma cache_holds_NewCache [simp]: "cache_holds (NewCache ttl n seed) t = None"
proof -
  have "shardFor t (NewCache ttl n seed) < numShards" by simp
  then show ?thesis
    by (simp add: cache_holds_def cache_lru_def NewCache_def lru_def newShard_def)
qed

subsection \<open>What the reference operations leave in the list\<close>

lemma map_of_take: "map_of (take n xs) k = Some v \<Longrightarrow> map_of xs k = Some v"
  by (induction xs arbitrary: n) (auto simp: take_Cons' split: if_splits)

lemma map_of_filter_key: "map_of (filter (\<lambda>q. fst q \<noteq> k) xs) u = (if u = k then None else map_of xs u)"
  by (induction xs) auto

lemma map_of_lru_cut: "map_of (lru_cut n xs) k = Some v \<Longrightarrow> map_of xs k = Some v"
  by (auto simp: lru_cut_def dest: map_of_take split: if_splits)

lemma map_of_lru_put:
  "map_of (lru_put n k e x xs) u = Some v \<Longrightarrow> (if u = k then v = (e, x) else map_of xs u = Some v)"
  unfolding lru_put_def by (drule map_of_lru_cut) (auto simp: map_of_filter_key split: if_splits)

lemma map_of_lru_get:
  "lru_get k now x xs = (r, ys) \<Longrightarrow> map_of ys u = Some v \<Longrightarrow> \<exists>x'. map_of xs u = Some (fst v, x')"
  by (cases v) (auto simp: lru_get_def map_of_filter_key split: option.splits if_splits)

lemma lru_get_hit: "lru_get k now x xs = (Some e, ys) \<Longrightarrow> \<exists>x'. map_of xs k = Some (e, x') \<and> now \<le> x'"
  by (auto simp: lru_get_def split: option.splits if_splits)

lemma map_of_lru_sweep:
  "distinct (map fst xs) \<Longrightarrow> map_of (lru_sweep now xs) u = Some v \<Longrightarrow>
   map_of xs u = Some v \<and> now \<le> snd v"
  by (auto simp: lru_sweep_def dest!: map_of_SomeD)

lemma map_of_lru_sweep_keep:
  "distinct (map fst xs) \<Longrightarrow> map_of xs u = Some v \<Longrightarrow> now \<le> snd v \<Longrightarrow>
   map_of (lru_sweep now xs) u = Some v"
  by (auto simp: lru_sweep_def distinct_map_filter dest!: map_of_SomeD
      intro!: map_of_is_SomeI)

subsection \<open>The operations on the invariant and on what is held\<close>

lemma cachePut_lru:
  assumes "cache_ok c" and "cachePut clk t e c = (r, c')"
  shows "cache_ok c'" and "r = None"
    and "cache_lru c' u = (if shardFor u c = shardFor t c
       then lru_put (sh_maxSize (c_shards c ! shardFor t c)) t e (fst clk + c_ttl c) (cache_lru c t)
       else cache_lru c u)"
  using assms shard_put_refines [OF cache_ok_shard [OF assms(1) shardFor_less [of t c]]]
  by (auto simp: cachePut_def Let_def cache_ok_setShard cache_lru_setShard cache_lru_def [symmetric])

lemma cacheGet_lru:
  assumes "cache_ok c" and "cacheGet clk t c = (g, c')"
  obtains r where "cache_ok c'" and "g = Inr r"
    and "lru_get t (fst clk) (snd clk + c_ttl c) (cache_lru c t) = (r, cache_lru c' t)"
    and "\<And>u. cache_lru c' u = (if shardFor u c = shardFor t c then cache_lru c' t else cache_lru c u)"
proof -
  let ?i = "shardFor t c"
  obtain r s where g: "shard_get t (c_ttl c) (fst clk) (snd clk) (c_shards c ! ?i) = (r, s)"
    by (cases "shard_get t (c_ttl c) (fst clk) (snd clk) (c_shards c ! ?i)")
  note ref = shard_get_refines [OF cache_ok_shard [OF assms(1) shardFor_less [of t c]] g]
  have "g = Inr r" and c': "c' = setShard ?i s c"
    using assms(2) by (auto simp: cacheGet_def Let_def g)
  then show ?thesis
    using ref assms(1)
    by (intro that) (auto simp: cache_ok_setShard cache_lru_setShard cache_lru_def [symmetric])
qed

lemma cacheDelete_lru:
  assumes "cache_ok c" and "cacheDelete clk t c = (r, c')"
  shows "cache_ok c'" and "r = None"
    and "cache_lru c' u = (if shardFor u c = shardFor t c then lru_delete t (cache_lru c t)
                           else cache_lru c u)"
  using assms shard_delete_refines [OF cache_ok_shard [OF assms(1) shardFor_less [of t c]]]
  by (auto simp: cacheDelete_def Let_def cache_ok_setShard cache_lru_setShard cache_lru_def [symmetric])

lemma sweepShard_lru:
  assumes "cache_ok c" and "i < numShards"
  shows "cache_ok (sweepShard i now c)"
    and "cache_lru (sweepShard i now c) u =
      (if shardFor u c = i then lru_sweep now (cache_lru c u) else cache_lru c u)"
  using assms shard_sweep_refines [OF cache_ok_shard [OF assms]]
  by (auto simp: sweepShard_def cache_ok_setShard cache_lru_setShard cache_lru_def [symmetric])

lemma cache_lru_distinct: "cache_ok c \<Longrightarrow> distinct (map fst (cache_lru c t))"
  using cache_ok_shard [of c "shardFor t c"] by (simp add: cache_lru_def distinct_lru shard_ok_def)

lemma cachePut_holds:
  assumes "cache_ok c" and "cachePut clk t e c = (r, c')" and "cache_holds c' u = Some f"
  shows "if u = t then f = e else cache_holds c u = Some f"
proof (cases "shardFor u c = shardFor t c")
  case True
  with assms(3) obtain x where
    "map_of (lru_put (sh_maxSize (c_shards c ! shardFor t c)) t e (fst clk + c_ttl c) (cache_lru c t)) u
       = Some (f, x)"
    by (auto simp: cache_holds_def cachePut_lru(3) [OF assms(1,2)])
  from map_of_lru_put [OF this] show ?thesis
    by (auto simp: cache_holds_def cache_lru_same [OF True])
next
  case False
  with assms(3) show ?thesis
    by (auto simp: cache_holds_def cachePut_lru(3) [OF assms(1,2)])
qed

lemma cacheGet_holds:
  assumes "cache_ok c" and "cacheGet clk t c = (g, c')" and "cache_holds c' u = Some f"
  shows "cache_holds c u = Some f"
  using assms(1,2)
proof (rule cacheGet_lru)
  fix r
  assume ref: "lru_get t (fst clk) (snd clk + c_ttl c) (cache_lru c t) = (r, cache_lru c' t)"
    and eq: "\<And>u. cache_lru c' u =
      (if shardFor u c = shardFor t c then cache_lru c' t else cache_lru c u)"
  show ?thesis
  proof (cases "shardFor u c = shardFor t c")
    case True
    with assms(3) eq [of u] obtain x where "map_of (cache_lru c' t) u = Some (f, x)"
      by (auto simp: cache_holds_def)
    from map_of_lru_get [OF ref this] show ?thesis
      by (auto simp: cache_holds_def cache_lru_same [OF True])
  next
    case False
    with assms(3) eq [of u] show ?thesis by (simp add: cache_holds_def)
  qed
qed

lemma cacheGet_hit:
  assumes "cache_ok c" and "cacheGet clk t c = (Inr (Some e), c')"
  shows "cache_holds c t = Some e"
  using assms
proof (rule cacheGet_lru)
  fix r
  assume "Inr (Some e) = (Inr r :: string + entry option)"
    and "lru_get t (fst clk) (snd clk + c_ttl c) (cache_lru c t) = (r, cache_lru c' t)"
  then show ?thesis by (auto simp: cache_holds_def dest!: lru_get_hit)
qed

lemma cacheDelete_holds:
  assumes "cache_ok c" and "cacheDelete clk t c = (r, c')"
  shows "cache_holds c' u = (if u = t then None else cache_holds c u)"
proof (cases "shardFor u c = shardFor t c")
  case True
  then show ?thesis
    by (simp add: cache_holds_def cacheDelete_lru(3) [OF assms] lru_delete_def map_of_filter_key
        cache_lru_same [OF True])
next
  case False
  then show ?thesis by (auto simp: cache_holds_def cacheDelete_lru(3) [OF assms])
qed

lemma cacheDelete_holds_Some:
  "cache_ok c \<Longrightarrow> cacheDelete clk t c = (r, c') \<Longrightarrow> cache_holds c' u = Some f \<Longrightarrow>
   u \<noteq> t \<and> cache_holds c u = Some f"
  by (auto simp: cacheDelete_holds split: if_splits)

lemma sweepShard_holds:
  assumes "cache_ok c" and "i < numShards" and "cache_holds (sweepShard i now c) u = Some f"
  shows "cache_holds c u = Some f"
  using assms(3) map_of_lru_sweep [OF cache_lru_distinct [OF assms(1)]]
  by (auto simp: cache_holds_def sweepShard_lru(2) [OF assms(1,2)] split: if_splits)

lemma janitor_fields [simp]:
  "cache_ok (c\<lparr>c_janitor := j\<rparr>) = cache_ok c" "cache_holds (c\<lparr>c_janitor := j\<rparr>) t = cache_holds c t"
  "cache_lru (c\<lparr>c_janitor := j\<rparr>) t = cache_lru c t" "shardFor t (c\<lparr>c_janitor := j\<rparr>) = shardFor t c"
  "cache_ok (c\<lparr>c_stopped := b\<rparr>) = cache_ok c" "cache_holds (c\<lparr>c_stopped := b\<rparr>) t = cache_holds c t"
  by (simp_all add: cache_ok_def cache_holds_def cache_lru_def shardFor_def)

interpretation local: token_store local_store UNIV "\<lambda>_. True" cache_ok cache_holds janitor_step
  by unfold_locales
    (auto simp: local_store_def janitor_step_iff
      dest: cachePut_lru(1) cacheDelete_lru(1) sweepShard_lru(1) cachePut_holds cacheGet_holds
        cacheGet_hit cacheDelete_holds cacheDelete_holds_Some sweepShard_holds
      elim: cacheGet_lru split: if_splits)

subsection \<open>The cache is a token store\<close>

text \<open>C9:
  The local cache never answers with an entry other than the one last put for the token and not
  deleted since: after any history of operations and janitor sweeps on a new cache, of whatever size
  and lifetime, a hit is the one entry that the map of the specification has.
\<close>

theorem local_store_refines_map:
  assumes "store_runs local_store janitor_step (NewCache ttl n seed) h c"
    and "Get local_store clk t c = (Inr (Some e), c')"
  shows "spec_map h t = {e}"
proof (rule spec_map_single)
  show "list_all op_succeeded h"
    by (rule runs_succeed [OF assms(1)]) (simp_all add: local_store_def cachePut_def cacheDelete_def Let_def)
  show "e \<in> spec_map h t"
    by (rule local.runs_get_spec [OF assms(1) _ _ _ _ _ assms(2)]) auto
qed

theorem local_store_refines_map_witness:
  "spec_map [OpPut ''t'' sample_entry None, OpDrift] ''t'' = {sample_entry}"
proof -
  let ?c0 = "NewCache 10 64 (\<lambda>_. 0)"
  obtain c1 where put: "Put local_store (0, 0) ''t'' sample_entry ?c0 = (None, c1)"
    by (simp add: local_store_def cachePut_def Let_def)
  then have "c_janitor c1 = Waiting"
    by (auto simp: local_store_def cachePut_def setShard_def NewCache_def Let_def)
  then have "store_runs local_store janitor_step ?c0 (([] @ [OpPut ''t'' sample_entry None]) @ [OpDrift])
      (c1\<lparr>c_janitor := Sweeping 5 0\<rparr>)"
    by (intro runs_drift [OF runs_put [OF runs_start put]] janitor_tick)
  moreover have "\<exists>c'. Get local_store (6, 6) ''t'' (c1\<lparr>c_janitor := Sweeping 5 0\<rparr>) = (Inr (Some sample_entry), c')"
    using put by (auto simp: local_store_def cachePut_def cacheGet_def setShard_def
        shardFor_def NewCache_def newShard_def shard_put_def shard_get_def numShards_def perShard_def
        signed_divide_int_def evictOver.simps Let_def)
  ultimately show ?thesis using local_store_refines_map by fastforce
qed

subsection \<open>The janitor's life\<close>

inductive_cases janitor_stepE: "janitor_step c c'"

lemma janitor_sweeps_on:
  assumes "c_janitor c = Sweeping now i"
  shows "\<exists>c'. janitor_step\<^sup>*\<^sup>* c c' \<and> c_janitor c' = Waiting \<and> c_stopped c' = c_stopped c"
  using assms
proof (induction "numShards - i" arbitrary: c i)
  case 0
  then have "janitor_step c (c\<lparr>c_janitor := Waiting\<rparr>)" by (intro janitor_swept) auto
  then show ?case by (intro exI [of _ "c\<lparr>c_janitor := Waiting\<rparr>"]) auto
next
  case (Suc n)
  let ?c = "(sweepShard i now c)\<lparr>c_janitor := Sweeping now (Suc i)\<rparr>"
  have "janitor_step c ?c" using Suc by (intro janitor_sweep) auto
  moreover have "\<exists>c'. janitor_step\<^sup>*\<^sup>* ?c c' \<and> c_janitor c' = Waiting \<and> c_stopped c' = c_stopped ?c"
    using Suc by (intro Suc.hyps(1) [where i = "Suc i"]) auto
  ultimately show ?case
    by (auto simp: sweepShard_def setShard_def intro: converse_rtranclp_into_rtranclp)
qed

text \<open>C30:
  Closing the cache stops the janitor: whatever it is doing then, it can finish its sweep and return;
  once it has returned it takes no step any more; and closing the cache again is a panic.
\<close>

theorem close_stops_janitor:
  assumes "cacheClose c = Some (err, c1)"
  shows "err = None \<and> cacheClose c1 = None \<and>
    (\<exists>c2. janitor_step\<^sup>*\<^sup>* c1 c2 \<and> c_janitor c2 = Returned \<and> {c3. janitor_step c2 c3} = {})"
proof -
  have c1: "err = None" "c1 = c\<lparr>c_stopped := True\<rparr>"
    using assms by (auto simp: cacheClose_def split: if_splits)
  have waiting: "\<exists>c2. janitor_step\<^sup>*\<^sup>* c' c2 \<and> c_janitor c2 = Returned"
    if "c_janitor c' = Waiting" "c_stopped c'" for c'
    using janitor_stop [OF that] by (intro exI [of _ "c'\<lparr>c_janitor := Returned\<rparr>"]) auto
  have "\<exists>c2. janitor_step\<^sup>*\<^sup>* c1 c2 \<and> c_janitor c2 = Returned"
  proof (cases "c_janitor c1")
    case Waiting
    then show ?thesis using c1 by (intro waiting) simp_all
  next
    case (Sweeping now i)
    from janitor_sweeps_on [OF this] obtain c' where
      "janitor_step\<^sup>*\<^sup>* c1 c'" "c_janitor c' = Waiting" "c_stopped c'" using c1 by auto
    then show ?thesis using waiting by (blast intro: rtranclp_trans)
  next
    case Returned
    then show ?thesis by blast
  qed
  moreover have "\<not> janitor_step c2 c3" if "c_janitor c2 = Returned" for c2 c3
    using that by (auto elim: janitor_stepE)
  ultimately show ?thesis using c1 by (auto simp: cacheClose_def)
qed

theorem close_stops_janitor_witness:
  "cacheClose ((NewCache 10 64 (\<lambda>_. 0))\<lparr>c_janitor := Sweeping 5 7, c_stopped := True\<rparr>) = None \<and>
   (\<exists>c2. janitor_step\<^sup>*\<^sup>* ((NewCache 10 64 (\<lambda>_. 0))\<lparr>c_janitor := Sweeping 5 7, c_stopped := True\<rparr>) c2 \<and>
      c_janitor c2 = Returned)"
  using close_stops_janitor [of "(NewCache 10 64 (\<lambda>_. 0))\<lparr>c_janitor := Sweeping 5 7\<rparr>"]
  by (auto simp: cacheClose_def NewCache_def)

end
