(* ===== verification/Cache_Retention.thy ===== *)
theory Cache_Retention
  imports Local_Cache
begin

section \<open>How much the local cache holds, and how long\<close>

text \<open>
  The capacity of a cache that \<open>New\<close> has built, the effect of a janitor tick, and retention: which
  operations a registered token survives.  Retention is what keeps a legitimate worker from being
  denied, so it is stated for arbitrary sequences of operations by other callers.
\<close>

subsection \<open>Sequences of operations\<close>

datatype cache_op =
    CPut readings bytes entry
  | CGet readings bytes
  | CDelete readings bytes
  | CSweep nat instant

fun run_op :: "cache_op \<Rightarrow> cache \<Rightarrow> cache" where
  "run_op (CPut clk u e) c = snd (cachePut clk u e c)"
| "run_op (CGet clk u) c = snd (cacheGet clk u c)"
| "run_op (CDelete clk u) c = snd (cacheDelete clk u c)"
| "run_op (CSweep i now) c = (if i < numShards then sweepShard i now c else c)"

definition run_ops :: "cache_op list \<Rightarrow> cache \<Rightarrow> cache" where
  "run_ops ops c = fold run_op ops c"

lemma run_ops_simps [simp]:
  "run_ops [] c = c"
  "run_ops (op # ops) c = run_ops ops (run_op op c)"
  by (simp_all add: run_ops_def)

text \<open>The fields of a cache that no operation changes.\<close>

definition frame :: "cache \<Rightarrow> cache \<Rightarrow> bool" where
  "frame c c' \<longleftrightarrow> c_ttl c' = c_ttl c \<and> c_hash c' = c_hash c \<and>
     map sh_maxSize (c_shards c') = map sh_maxSize (c_shards c)"

lemma frame_refl [simp]: "frame c c"
  by (simp add: frame_def)

lemma frame_trans: "frame c1 c2 \<Longrightarrow> frame c2 c3 \<Longrightarrow> frame c1 c3"
  by (simp add: frame_def)

lemma frame_shardFor: "frame c c' \<Longrightarrow> shardFor t c' = shardFor t c"
  by (simp add: frame_def shardFor_def)

lemma frame_setShard:
  "i < length (c_shards c) \<Longrightarrow> sh_maxSize s = sh_maxSize (c_shards c ! i) \<Longrightarrow> frame c (setShard i s c)"
  by (simp add: frame_def map_update list_update_same_conv)

lemma cache_ok_length: "cache_ok c \<Longrightarrow> length (c_shards c) = numShards"
  by (simp add: cache_ok_def)

lemma run_op_ok:
  assumes "cache_ok c"
  shows "cache_ok (run_op op c) \<and> frame c (run_op op c)"
proof -
  note ok = cache_ok_shard [OF assms shardFor_less]
  show ?thesis
  proof (cases op)
    case (CPut clk u e)
    with assms shard_put_refines(1,2) [OF ok [of u]] show ?thesis
      by (simp add: cachePut_def Let_def cache_ok_setShard frame_setShard cache_ok_length)
  next
    case (CGet clk u)
    obtain r s where g: "shard_get u (c_ttl c) (fst clk) (snd clk) (c_shards c ! shardFor u c) = (r, s)"
      by (cases "shard_get u (c_ttl c) (fst clk) (snd clk) (c_shards c ! shardFor u c)")
    with assms shard_get_refines(1,2) [OF ok [of u] g] CGet show ?thesis
      by (simp add: cacheGet_def Let_def cache_ok_setShard frame_setShard cache_ok_length)
  next
    case (CDelete clk u)
    with assms shard_delete_refines(1,2) [OF ok [of u]] show ?thesis
      by (simp add: cacheDelete_def Let_def cache_ok_setShard frame_setShard cache_ok_length)
  next
    case (CSweep i now)
    with assms shard_sweep_refines(1,2) [OF cache_ok_shard [OF assms, of i]] show ?thesis
      by (simp add: sweepShard_def cache_ok_setShard frame_setShard cache_ok_length)
  qed
qed

lemma run_ops_ok: "cache_ok c \<Longrightarrow> cache_ok (run_ops ops c) \<and> frame c (run_ops ops c)"
  by (induction ops arbitrary: c) (simp, metis run_ops_simps(2) run_op_ok frame_trans)

subsection \<open>Capacity\<close>

definition cache_size :: "cache \<Rightarrow> nat" where
  "cache_size c = sum_list (map (\<lambda>s. length (sh_items s)) (c_shards c))"

lemma cache_size_bound:
  assumes "cache_ok c" and "\<forall>s \<in> set (c_shards c). 0 < sh_maxSize s \<and> sh_maxSize s = m"
  shows "int (cache_size c) \<le> int numShards * m"
proof -
  have "length (sh_items s) \<le> nat m" if "s \<in> set (c_shards c)" for s
    using assms that by (auto simp: cache_ok_def shard_ok_def)
  then have "sum_list (map (\<lambda>s. length (sh_items s)) (c_shards c)) \<le>
      sum_list (map (\<lambda>s. nat m) (c_shards c))"
    by (rule sum_list_mono)
  also have "\<dots> = numShards * nat m"
    using cache_ok_length [OF assms(1)] by (simp add: sum_list_triv)
  finally have "int (cache_size c) \<le> int (numShards * nat m)" unfolding cache_size_def by (rule zle_int [THEN iffD2])
  moreover have "c_shards c \<noteq> []" using cache_ok_length [OF assms(1)] by (auto simp: numShards_def)
  then have "0 < m" using assms(2) by (metis list.set_intros(1) neq_Nil_conv)
  ultimately show ?thesis by simp
qed

lemma perShard_pos [simp]: "0 < perShard n"
  by (simp add: perShard_def)

lemma frame_NewCache:
  assumes "frame (NewCache ttl n seed) c"
  shows "\<forall>s \<in> set (c_shards c). sh_maxSize s = perShard n"
proof -
  have "map sh_maxSize (c_shards c) = replicate numShards (perShard n)"
    using assms by (simp add: frame_def NewCache_def newShard_def)
  then have "set (map sh_maxSize (c_shards c)) \<subseteq> {perShard n}" by (simp add: set_replicate_conv_if)
  then show ?thesis by auto
qed

lemma run_ops_size:
  "int (cache_size (run_ops ops (NewCache ttl n seed))) \<le> int numShards * perShard n"
  using run_ops_ok [OF cache_ok_NewCache, of ops ttl n seed]
  by (intro cache_size_bound) (auto dest: frame_NewCache)

lemma perShard_bound: "32 \<le> n \<Longrightarrow> int numShards * perShard n \<le> n \<and> n - 32 < int numShards * perShard n"
proof -
  assume "32 \<le> n"
  then have "n sdiv 32 = n div 32" and "1 \<le> n div 32"
    by (simp_all add: signed_divide_int_def)
  moreover have "32 * (n div 32) \<le> n \<and> n - 32 < 32 * (n div 32)" by linarith
  ultimately show ?thesis by (simp add: perShard_def numShards_def)
qed

text \<open>What puts of distinct tokens leave in a shard, as long as it has room for all of them.\<close>

lemma run_ops_append: "run_ops (ops @ ops') c = run_ops ops' (run_ops ops c)"
  by (simp add: run_ops_def)

lemma puts_keys:
  assumes "distinct ts"
    and "int (length (filter (\<lambda>t. shardFor t (NewCache ttl n seed) = shardFor u (NewCache ttl n seed)) ts)) \<le> perShard n"
  shows "map fst (cache_lru (run_ops (map (\<lambda>t. CPut (clk t) t (e t)) ts) (NewCache ttl n seed)) u) =
    rev (filter (\<lambda>t. shardFor t (NewCache ttl n seed) = shardFor u (NewCache ttl n seed)) ts)"
  using assms
proof (induction ts rule: rev_induct)
  case Nil
  have "shardFor u (NewCache ttl n seed) < numShards" by simp
  then show ?case by (simp add: cache_lru_def NewCache_def lru_def newShard_def)
next
  case (snoc t ts)
  let ?new = "NewCache ttl n seed" and ?in = "\<lambda>v. shardFor v (NewCache ttl n seed) = shardFor u (NewCache ttl n seed)"
  let ?c = "run_ops (map (\<lambda>t. CPut (clk t) t (e t)) ts) ?new"
  have ok: "cache_ok ?c" by (rule conjunct1 [OF run_ops_ok]) simp
  have frame: "frame ?new ?c" by (rule conjunct2 [OF run_ops_ok]) simp
  have shard: "shardFor v ?c = shardFor v ?new" for v by (rule frame_shardFor [OF frame])
  have "c_shards ?c ! shardFor v ?new \<in> set (c_shards ?c)" for v using cache_ok_length [OF ok] by simp
  then have max: "sh_maxSize (c_shards ?c ! shardFor v ?new) = perShard n" for v using frame_NewCache [OF frame] by blast
  have IH: "map fst (cache_lru ?c u) = rev (filter ?in ts)" using snoc by (simp split: if_splits)
  note p = cachePut_lru(3) [OF ok prod.collapse [symmetric], of "clk t" t "e t" u]
  show ?case
  proof (cases "?in t")
    case True
    have "cache_lru ?c t = cache_lru ?c u" by (rule cache_lru_same) (simp add: shard True)
    moreover have "filter (\<lambda>q. fst q \<noteq> t) (cache_lru ?c u) = cache_lru ?c u"
      using snoc.prems(1) arg_cong [OF IH, of set] by (intro filter_True) (auto simp: image_iff)
    moreover have "Suc (length (cache_lru ?c u)) \<le> nat (perShard n)"
      using snoc.prems(2) True arg_cong [OF IH, of length] by simp
    moreover obtain k where "nat (perShard n) = Suc k" using perShard_pos [of n] by (metis gr0_implies_Suc zero_less_nat_eq)
    ultimately show ?thesis using True by (simp add: run_ops_append p shard max lru_put_def lru_cut_def IH)
  qed (use IH in \<open>simp add: run_ops_append p shard\<close>)
qed

lemma puts_fill:
  assumes "distinct ts"
    and "\<forall>i < numShards. int (length (filter (\<lambda>t. shardFor t (NewCache ttl n seed) = i) ts)) = perShard n"
  shows "int (cache_size (run_ops (map (\<lambda>t. CPut (clk t) t (e t)) ts) (NewCache ttl n seed))) =
    int numShards * perShard n"
proof -
  let ?new = "NewCache ttl n seed" and ?c = "run_ops (map (\<lambda>t. CPut (clk t) t (e t)) ts) (NewCache ttl n seed)"
  have ok: "cache_ok ?c" by (rule conjunct1 [OF run_ops_ok]) simp
  have frame: "frame ?new ?c" by (rule conjunct2 [OF run_ops_ok]) simp
  have "length (sh_items (c_shards ?c ! i)) = nat (perShard n)" if i: "i < numShards" for i
  proof -
    have all: "int (length (filter (\<lambda>t. shardFor t ?new = i) ts)) = perShard n" using assms(2) i by blast
    then have "filter (\<lambda>t. shardFor t ?new = i) ts \<noteq> []"
      using perShard_pos [of n] by fastforce
    then obtain u where u: "shardFor u ?new = i" by (auto simp: filter_empty_conv)
    have "length (cache_lru ?c u) = nat (perShard n)"
      using arg_cong [OF puts_keys [OF assms(1), of ttl n seed u clk e], of length] all by (simp add: u)
    moreover have "coupled (c_shards ?c ! i)" using cache_ok_shard [OF ok i] by (simp add: shard_ok_def)
    ultimately show ?thesis
      by (simp add: cache_lru_def frame_shardFor [OF frame] u length_lru coupled_length)
  qed
  then have "map (\<lambda>s. length (sh_items s)) (c_shards ?c) = replicate numShards (nat (perShard n))"
    using cache_ok_length [OF ok] by (intro nth_equalityI) simp_all
  then have "cache_size ?c = numShards * nat (perShard n)" by (simp add: cache_size_def sum_list_replicate)
  then show ?thesis using perShard_pos [of n, THEN less_imp_le] by simp
qed

lemma perShard_total: "0 < n \<Longrightarrow> int numShards * perShard n = (if n < 32 then 32 else n - n mod 32)"
proof -
  assume "0 < n"
  then have "n sdiv 32 = n div 32" and "n < 32 \<Longrightarrow> n div 32 = 0" by (simp_all add: signed_divide_int_def)
  moreover have "\<not> n < 32 \<Longrightarrow> 1 \<le> n div 32" by linarith
  moreover have "32 * (n div 32) = n - n mod 32" by (simp add: minus_mod_eq_mult_div)
  ultimately show ?thesis by (auto simp: perShard_def numShards_def max_def)
qed

subsection \<open>A whole tick of the janitor\<close>

lemma sweep_fold:
  assumes "cache_ok c" and "set is \<subseteq> {..<numShards}"
  shows "cache_ok (fold (\<lambda>i. sweepShard i now) is c) \<and>
    (\<forall>u. shardFor u (fold (\<lambda>i. sweepShard i now) is c) = shardFor u c) \<and>
    (\<forall>u. cache_lru (fold (\<lambda>i. sweepShard i now) is c) u =
       (if shardFor u c \<in> set is then lru_sweep now (cache_lru c u) else cache_lru c u))"
  using assms
proof (induction "is" arbitrary: c)
  case Nil
  then show ?case by simp
next
  case (Cons i "is")
  have i: "i < numShards" using Cons.prems by simp
  note s = sweepShard_lru [OF Cons.prems(1) i]
  have "shardFor u (sweepShard i now c) = shardFor u c" for u by (simp add: sweepShard_def)
  moreover have "lru_sweep now (lru_sweep now xs) = lru_sweep now xs" for xs
    by (simp add: lru_sweep_def)
  ultimately show ?case using Cons.IH [OF s(1) [of now]] Cons.prems(2) by (auto simp: s(2))
qed

lemma sweepAll_lru:
  "cache_ok c \<Longrightarrow> cache_ok (sweepAll now c) \<and> cache_lru (sweepAll now c) u = lru_sweep now (cache_lru c u)"
  using sweep_fold [of c "[0..<numShards]" now] by (simp add: sweepAll_def atLeast0LessThan)

subsection \<open>Retention\<close>

text \<open>
  In the list: \<open>t\<close> has the entry \<open>e\<close> and does not expire before \<open>x\<close>, and the keys in front of it are
  among \<open>K\<close>, the keys used since.
\<close>

definition kept :: "bytes \<Rightarrow> entry \<Rightarrow> instant \<Rightarrow> bytes set \<Rightarrow> lru_list \<Rightarrow> bool" where
  "kept t e x K xs \<longleftrightarrow>
     (\<exists>ys zs x'. xs = ys @ (t, e, x') # zs \<and> x \<le> x' \<and> fst ` set ys \<subseteq> K \<and> t \<notin> fst ` set ys)"

lemma keptI:
  "xs = ys @ (t, e, x') # zs \<Longrightarrow> x \<le> x' \<Longrightarrow> fst ` set ys \<subseteq> K \<Longrightarrow> t \<notin> fst ` set ys \<Longrightarrow> kept t e x K xs"
  unfolding kept_def by (intro exI conjI)

lemma keptE:
  assumes "kept t e x K xs"
  obtains ys zs x' where "xs = ys @ (t, e, x') # zs" and "x \<le> x'" and "fst ` set ys \<subseteq> K"
    and "t \<notin> fst ` set ys"
  using assms unfolding kept_def by (elim exE conjE)

lemma kept_lookup: "kept t e x K xs \<Longrightarrow> \<exists>x'. map_of xs t = Some (e, x') \<and> x \<le> x'"
  by (erule keptE) (simp add: map_add_def map_of_eq_None_iff [THEN iffD2])

lemma kept_mono: "kept t e x K xs \<Longrightarrow> K \<subseteq> K' \<Longrightarrow> kept t e x K' xs"
  by (erule keptE) (rule keptI, assumption+, rule subset_trans, assumption+)

lemma kept_earlier: "kept t e x' K xs \<Longrightarrow> x \<le> x' \<Longrightarrow> kept t e x K xs"
  by (erule keptE) (rule keptI, assumption, rule order_trans, assumption+)

lemma kept_filter:
  assumes "kept t e x K xs" and "\<And>x'. x \<le> x' \<Longrightarrow> P (t, e, x')"
  shows "kept t e x K (filter P xs)"
proof -
  from assms(1) obtain ys zs x' where "xs = ys @ (t, e, x') # zs" "x \<le> x'"
    "fst ` set ys \<subseteq> K" "t \<notin> fst ` set ys" by (rule keptE)
  with assms(2) have "filter P xs = filter P ys @ (t, e, x') # filter P zs" and
    "fst ` set (filter P ys) \<subseteq> K" and "t \<notin> fst ` set (filter P ys)" by auto
  with \<open>x \<le> x'\<close> show ?thesis by (intro keptI)
qed

lemma kept_Cons:
  assumes "kept t e x K xs" and "u \<noteq> t"
  shows "kept t e x (insert u K) ((u, v) # xs)"
proof -
  from assms(1) obtain ys zs x' where "xs = ys @ (t, e, x') # zs" "x \<le> x'"
    "fst ` set ys \<subseteq> K" "t \<notin> fst ` set ys" by (rule keptE)
  with assms(2) show ?thesis
    by (intro keptI [of _ "(u, v) # ys" t e x' zs]) auto
qed

lemma kept_cut:
  assumes "kept t e x K xs" and "distinct (map fst xs)" and "finite K" and "int (card K) < n"
  shows "kept t e x K (lru_cut n xs)"
proof -
  from assms(1) obtain ys zs x' where xs: "xs = ys @ (t, e, x') # zs" and *: "x \<le> x'"
    "fst ` set ys \<subseteq> K" "t \<notin> fst ` set ys" by (rule keptE)
  have "length ys = card (fst ` set ys)"
    using assms(2) by (simp add: xs distinct_map distinct_card card_image)
  also have "\<dots> \<le> card K" by (rule card_mono [OF assms(3) *(2)])
  finally have "length ys < nat n" using assms(4) by linarith
  then obtain k where "nat n - length ys = Suc k" by (metis Suc_diff_Suc)
  then have "lru_cut n xs = ys @ (t, e, x') # take k zs"
    using assms(4) \<open>length ys < nat n\<close> by (auto simp: lru_cut_def xs)
  from keptI [OF this *] show ?thesis .
qed

lemma kept_lru_put_own: "0 < n \<Longrightarrow> kept t e x {} (lru_put n t e x xs)"
  by (cases "nat n") (auto simp: lru_put_def lru_cut_def intro: keptI [of _ "[]"])

lemma kept_lru_put:
  assumes "kept t e x K xs" and "u \<noteq> t" and "distinct (map fst xs)" and "finite K"
    and "int (card (insert u K)) < n"
  shows "kept t e x (insert u K) (lru_put n u f y xs)"
  unfolding lru_put_def
  by (rule kept_cut, rule kept_Cons, rule kept_filter)
    (use assms in \<open>auto simp: distinct_map_filter\<close>)

lemma kept_lru_get:
  assumes "kept t e x K xs" and "lru_get u now y xs = (r, ys)"
    and "u = t \<Longrightarrow> now \<le> x \<and> x \<le> y"
  shows "kept t e x (if u = t then K else insert u K) ys"
proof (cases "u = t")
  case True
  from kept_lookup [OF assms(1)] obtain x' where "map_of xs t = Some (e, x')" and "x \<le> x'" by blast
  with assms(2,3) True show ?thesis
    by (auto simp: lru_get_def intro: keptI [of _ "[]"])
next
  case False
  have f: "kept t e x K (filter (\<lambda>q. fst q \<noteq> u) xs)"
    by (rule kept_filter [OF assms(1)]) (use False in auto)
  from assms(2) consider "ys = xs" | "ys = filter (\<lambda>q. fst q \<noteq> u) xs"
    | v where "ys = (u, v) # filter (\<lambda>q. fst q \<noteq> u) xs"
    by (auto simp: lru_get_def split: option.splits if_splits)
  then show ?thesis
    using False by cases (auto intro: kept_Cons [OF f] kept_mono [OF f] kept_mono [OF assms(1)])
qed

text \<open>
  The lease of a token \<open>t\<close> in a cache whose shards hold \<open>m\<close> entries: the instant until which a lookup
  finds it, and the keys of its shard that were used since \<open>t\<close> was.  An operation ends the lease if it
  deletes or overwrites \<open>t\<close>, comes too late, or might evict \<open>t\<close>; a timely lookup of \<open>t\<close> renews it.
\<close>

fun lease_step :: "cache \<Rightarrow> int \<Rightarrow> bytes \<Rightarrow> cache_op \<Rightarrow> instant \<times> bytes set \<Rightarrow> (instant \<times> bytes set) option" where
  "lease_step c m t (CPut clk u e) (x, K) =
     (if u = t then None
      else if shardFor u c \<noteq> shardFor t c then Some (x, K)
      else if int (card (insert u K)) < m then Some (x, insert u K) else None)"
| "lease_step c m t (CGet clk u) (x, K) =
     (if u = t then (if fst clk \<le> x then Some (snd clk + c_ttl c, {}) else None)
      else if shardFor u c \<noteq> shardFor t c then Some (x, K) else Some (x, insert u K))"
| "lease_step c m t (CDelete clk u) (x, K) = (if u = t then None else Some (x, K))"
| "lease_step c m t (CSweep i now) (x, K) = (if now \<le> x then Some (x, K) else None)"

fun lease ::
  "cache \<Rightarrow> int \<Rightarrow> bytes \<Rightarrow> cache_op list \<Rightarrow> instant \<times> bytes set \<Rightarrow> (instant \<times> bytes set) option" where
  "lease c m t [] l = Some l"
| "lease c m t (op # ops) l =
     (case lease_step c m t op l of None \<Rightarrow> None | Some l' \<Rightarrow> lease c m t ops l')"

lemma lease_step_frame:
  assumes "frame c c'"
  shows "lease_step c' m t op l = lease_step c m t op l"
proof -
  have "c_ttl c' = c_ttl c" using assms by (simp add: frame_def)
  then show ?thesis
    by (cases "(c, m, t, op, l)" rule: lease_step.cases) (simp_all add: frame_shardFor [OF assms])
qed

lemma lease_frame: "frame c c' \<Longrightarrow> lease c' m t ops l = lease c m t ops l"
  by (induction ops arbitrary: l) (simp, simp add: lease_step_frame [of c c'] split: option.splits)

text \<open>The lease is a promise: operations on the cache keep what they keep of the lease.\<close>

lemma kept_hit:
  assumes "cache_ok c" and "kept t e x K (cache_lru c t)" and "fst clk \<le> x"
  shows "\<exists>c'. cacheGet clk t c = (Inr (Some e), c') \<and> kept t e (snd clk + c_ttl c) {} (cache_lru c' t)"
proof -
  obtain g c' where get: "cacheGet clk t c = (g, c')" by (cases "cacheGet clk t c")
  then obtain r where "g = Inr r"
    and l: "lru_get t (fst clk) (snd clk + c_ttl c) (cache_lru c t) = (r, cache_lru c' t)"
    by (rule cacheGet_lru [OF assms(1)])
  moreover from kept_lookup [OF assms(2)] assms(3) obtain x' where
    "map_of (cache_lru c t) t = Some (e, x')" and "\<not> fst clk > x'" by auto
  with l have "r = Some e" and "cache_lru c' t = (t, e, snd clk + c_ttl c) # filter (\<lambda>q. fst q \<noteq> t) (cache_lru c t)"
    by (auto simp: lru_get_def)
  ultimately show ?thesis using get by (auto intro: keptI [of _ "[]"])
qed

lemma put_kept:
  assumes "cache_ok c" and "cachePut clk t e c = (r, c')" and "\<forall>s \<in> set (c_shards c). 0 < sh_maxSize s"
  shows "kept t e (fst clk + c_ttl c) {} (cache_lru c' t)"
proof -
  have "c_shards c ! shardFor t c \<in> set (c_shards c)" using cache_ok_length [OF assms(1)] by simp
  with assms(3) show ?thesis by (simp add: cachePut_lru(3) [OF assms(1,2)] kept_lru_put_own)
qed

lemma cachePut_kept:
  assumes "cache_ok c" and "kept t e x K (cache_lru c t)" and "u \<noteq> t" and "finite K"
    and "shardFor u c = shardFor t c \<Longrightarrow> int (card (insert u K)) < sh_maxSize (c_shards c ! shardFor u c)"
  shows "kept t e x (if shardFor u c = shardFor t c then insert u K else K)
     (cache_lru (snd (cachePut clk u f c)) t)"
proof -
  note p = cachePut_lru(3) [OF assms(1) prod.collapse [symmetric], of clk u f t]
  show ?thesis
  proof (cases "shardFor u c = shardFor t c")
    case True
    from kept_lru_put [OF assms(2,3) cache_lru_distinct [OF assms(1)] assms(4) assms(5) [OF True]]
    show ?thesis by (simp add: p True cache_lru_same [OF True])
  qed (use assms(2) in \<open>auto simp: p\<close>)
qed

lemma cacheGet_kept:
  assumes "cache_ok c" and "kept t e x K (cache_lru c t)" and "u \<noteq> t"
  shows "kept t e x (if shardFor u c = shardFor t c then insert u K else K)
     (cache_lru (snd (cacheGet clk u c)) t)"
proof -
  obtain r where g: "lru_get u (fst clk) (snd clk + c_ttl c) (cache_lru c u) =
      (r, cache_lru (snd (cacheGet clk u c)) u)"
    and eq: "cache_lru (snd (cacheGet clk u c)) t =
      (if shardFor t c = shardFor u c then cache_lru (snd (cacheGet clk u c)) u else cache_lru c t)"
    by (rule cacheGet_lru [OF assms(1) prod.collapse [symmetric], of clk u]) blast
  show ?thesis
  proof (cases "shardFor t c = shardFor u c")
    case True
    with kept_lru_get [OF assms(2), of u] g assms(3) show ?thesis
      by (auto simp: eq cache_lru_same [OF True])
  qed (use assms(2) in \<open>auto simp: eq\<close>)
qed

definition leased :: "bytes \<Rightarrow> entry \<Rightarrow> instant \<times> bytes set \<Rightarrow> cache \<Rightarrow> bool" where
  "leased t e l c \<longleftrightarrow> cache_ok c \<and> finite (snd l) \<and> kept t e (fst l) (snd l) (cache_lru c t)"

lemma lease_step_leased:
  assumes "leased t e l c" and "lease_step c m t op l = Some l'"
    and "\<forall>s \<in> set (c_shards c). sh_maxSize s = m"
  shows "leased t e l' (run_op op c)"
proof -
  obtain x K where l: "l = (x, K)" by (cases l)
  have ok: "cache_ok c" and K: "finite K" and kept: "kept t e x K (cache_lru c t)"
    using assms(1) by (simp_all add: leased_def l)
  have m: "sh_maxSize (c_shards c ! shardFor u c) = m" for u
    using assms(3) cache_ok_length [OF ok] by simp
  have "finite (snd l') \<and> kept t e (fst l') (snd l') (cache_lru (run_op op c) t)"
  proof (cases op)
    case (CPut clk u f)
    with assms(2) cachePut_kept [OF ok kept _ K, of u clk f] m K show ?thesis
      by (auto simp: l split: if_splits)
  next
    case (CGet clk u)
    with assms(2) cacheGet_kept [OF ok kept, of u clk] kept_hit [OF ok kept, of clk] K show ?thesis
      by (auto simp: l split: if_splits)
  next
    case (CDelete clk u)
    with assms(2) kept K show ?thesis
      by (auto simp: l cacheDelete_lru(3) [OF ok prod.collapse [symmetric]] lru_delete_def
          intro!: kept_filter dest: cache_lru_same split: if_splits)
  next
    case (CSweep i now)
    with assms(2) kept K show ?thesis
      by (auto simp: l sweepShard_lru(2) [OF ok] lru_sweep_def intro!: kept_filter split: if_splits)
  qed
  then show ?thesis using run_op_ok [OF ok, of op] by (simp add: leased_def)
qed

lemma frame_bound:
  assumes "frame c c'" and "\<forall>s \<in> set (c_shards c). sh_maxSize s = m"
  shows "\<forall>s \<in> set (c_shards c'). sh_maxSize s = m"
proof -
  have "map sh_maxSize (c_shards c') = map sh_maxSize (c_shards c)" using assms(1) by (simp add: frame_def)
  then have "set (map sh_maxSize (c_shards c')) \<subseteq> {m}" using assms(2) by auto
  then show ?thesis by auto
qed

lemma lease_leased:
  assumes "leased t e l c" and "lease c m t ops l = Some l'" and "\<forall>s \<in> set (c_shards c). sh_maxSize s = m"
  shows "leased t e l' (run_ops ops c)"
  using assms
proof (induction ops arbitrary: c l)
  case (Cons op ops)
  from Cons.prems(2) obtain l1 where l1: "lease_step c m t op l = Some l1" "lease c m t ops l1 = Some l'"
    by (auto split: option.splits)
  have f: "frame c (run_op op c)" using run_op_ok Cons.prems(1) by (simp add: leased_def)
  show ?case
    unfolding run_ops_simps
    by (rule Cons.IH [OF lease_step_leased [OF Cons.prems(1) l1(1) Cons.prems(3)] _ frame_bound [OF f Cons.prems(3)]])
      (simp add: lease_frame [OF f] l1(2))
qed simp

text \<open>After a put, for as long as the lease runs, the token is found.\<close>

lemma leased_token_found:
  assumes "cache_ok c" and "\<forall>s \<in> set (c_shards c). sh_maxSize s = m" and "0 < m"
    and "cachePut clk t e c = (r, c1)" and "lease c m t ops (fst clk + c_ttl c, {}) = Some (x, K)"
    and "fst clk' \<le> x"
  shows "fst (cacheGet clk' t (run_ops ops c1)) = Inr (Some e)"
proof -
  have c1: "cache_ok c1" "frame c c1"
    using run_op_ok [OF assms(1), of "CPut clk t e"] assms(4) by simp_all
  then have "leased t e (fst clk + c_ttl c, {}) c1"
    using put_kept [OF assms(1,4)] assms(2,3) by (simp add: leased_def)
  from lease_leased [OF this _ frame_bound [OF c1(2) assms(2)], of ops]
  have "leased t e (x, K) (run_ops ops c1)" by (simp add: lease_frame [OF c1(2)] assms(5))
  then have "cache_ok (run_ops ops c1)" and "kept t e x K (cache_lru (run_ops ops c1) t)"
    by (simp_all add: leased_def)
  from kept_hit [OF this assms(6)] show ?thesis by auto
qed

subsection \<open>Properties\<close>

text \<open>C31:
  However the cache is used, it never holds more entries than its shards may hold together; from 32
  on this is at most the configured size.
\<close>

theorem cache_bounded:
  "int (cache_size (run_ops ops (NewCache ttl n seed))) \<le> 32 * perShard n \<and>
   (32 \<le> n \<longrightarrow> int (cache_size (run_ops ops (NewCache ttl n seed))) \<le> n)"
  using run_ops_size [of ops ttl n seed] perShard_bound [of n] by (auto simp: numShards_def)

theorem cache_bounded_witness:
  "int (cache_size (run_ops [CPut (0, 0) ''a'' sample_entry, CPut (0, 0) ''b'' sample_entry] (NewCache 10 64 (\<lambda>_. 0)))) \<le> 64"
  using cache_bounded [of "[CPut (0, 0) ''a'' sample_entry, CPut (0, 0) ''b'' sample_entry]" 10 64 "\<lambda>_. 0"] by simp



text \<open>C33:
  One tick of the janitor removes exactly the entries that have expired by its time, in every shard,
  and leaves the order of the others as it was.
\<close>

theorem tick_sweeps_expired:
  assumes "cache_ok c"
  shows "cache_ok (sweepAll now c) \<and>
    cache_lru (sweepAll now c) t = filter (\<lambda>(k, e, x). now \<le> x) (cache_lru c t) \<and>
    cache_holds (sweepAll now c) t =
      (case map_of (cache_lru c t) t of Some (e, x) \<Rightarrow> if now \<le> x then Some e else None | None \<Rightarrow> None)"
proof -
  have l: "cache_lru (sweepAll now c) t = lru_sweep now (cache_lru c t)" and "cache_ok (sweepAll now c)"
    using sweepAll_lru [OF assms] by simp_all
  moreover have "lru_sweep now xs = filter (\<lambda>(k, e, x). now \<le> x) xs" for xs
    by (simp add: lru_sweep_def not_less)
  moreover have "cache_holds (sweepAll now c) t =
      (case map_of (cache_lru c t) t of Some (e, x) \<Rightarrow> if now \<le> x then Some e else None | None \<Rightarrow> None)"
  proof (cases "map_of (lru_sweep now (cache_lru c t)) t")
    case None
    then show ?thesis
      using map_of_lru_sweep_keep [OF cache_lru_distinct [OF assms], of t t _ now]
      by (force simp: cache_holds_def l split: option.splits)
  next
    case (Some v)
    with map_of_lru_sweep [OF cache_lru_distinct [OF assms] Some] show ?thesis
      by (cases v) (simp add: cache_holds_def l)
  qed
  ultimately show ?thesis by simp
qed

theorem tick_sweeps_expired_witness:
  "cache_holds (sweepAll 20 (snd (cachePut (0, 0) ''t'' sample_entry (NewCache 10 64 (\<lambda>_. 0))))) ''t'' = None"
proof -
  have ok: "cache_ok (snd (cachePut (0, 0) ''t'' sample_entry (NewCache 10 64 (\<lambda>_. 0))))"
    by (rule cachePut_lru(1) [OF cache_ok_NewCache prod.collapse [symmetric]])
  have "cache_lru (snd (cachePut (0, 0) ''t'' sample_entry (NewCache 10 64 (\<lambda>_. 0)))) ''t'' = [(''t'', sample_entry, 10)]"
    by (subst cachePut_lru(3) [OF cache_ok_NewCache prod.collapse [symmetric]])
      (simp add: lru_put_def lru_cut_def cache_lru_def NewCache_def shardFor_def lru_def newShard_def
        perShard_def numShards_def signed_divide_int_def)
  with tick_sweeps_expired [OF ok, of 20 "''t''"] show ?thesis by simp
qed

text \<open>C11:
  Retention.  After a token has been put, a lookup finds its entry for as long as its lease runs,
  whatever callers and the janitor do in between.  The lease runs for one lifetime after the token was
  last used, however often its uses renew it, as long as nobody deletes or overwrites the token and,
  between two uses, fewer other tokens of its shard are used than a shard holds.
\<close>

theorem token_retained:
  assumes "cache_ok c" and "\<forall>s \<in> set (c_shards c). sh_maxSize s = m" and "0 < m"
    and "cachePut clk t e c = (r, c1)" and "lease c m t ops (fst clk + c_ttl c, {}) = Some (x, K)"
    and "fst clk' \<le> x"
  shows "fst (cacheGet clk' t (run_ops ops c1)) = Inr (Some e)"
  by (rule leased_token_found [OF assms])

theorem token_retained_witness:
  "fst (cacheGet (27, 27) ''t'' (run_ops
     [CPut (1, 1) ''u'' sample_entry, CSweep 0 5, CGet (9, 9) ''t'', CDelete (10, 10) ''u'', CGet (18, 18) ''t'',
      CPut (19, 19) ''v'' sample_entry, CSweep 0 25]
     (snd (cachePut (0, 0) ''t'' sample_entry (NewCache 10 64 (\<lambda>_. 0)))))) = Inr (Some sample_entry)"
proof -
  let ?c = "NewCache 10 64 (\<lambda>_. 0)"
  have "c_ttl ?c = 10" and "\<And>u v. shardFor u ?c = shardFor v ?c"
    by (simp_all add: NewCache_def shardFor_def)
  moreover have "\<forall>s \<in> set (c_shards ?c). sh_maxSize s = 2"
    by (simp add: NewCache_def newShard_def perShard_def numShards_def signed_divide_int_def)
  ultimately show ?thesis
    by (intro token_retained [OF cache_ok_NewCache _ _ prod.collapse [symmetric], where m = 2 and x = 28 and K = "{''v''}"])
      simp_all
qed

end
