(* ===== verification/Go_Json.thy ===== *)
theory Go_Json
  imports Prelude
begin

section \<open>The part of encoding/json that the proxy uses\<close>

text \<open>
  \<open>json.Marshal\<close> of a struct of strings and \<open>json.Unmarshal\<close> into structs, maps and slices of
  strings, for the Valkey entries and the auth file.  Strings are byte sequences: encoding escapes
  them as the standard library does (HTML characters, control characters, invalid UTF-8 replaced),
  decoding checks the syntax, resolves the escapes and replaces invalid UTF-8.  Decoding is a
  tokenizer and a push-down parser, both structural, so no fuel is needed.  The lemmas show the
  round trip for valid UTF-8.
\<close>

subsection \<open>UTF-8\<close>

text \<open>The ranges of \<open>unicode/utf8\<close>: first byte, then the bounds of the second.\<close>

definition second_range :: "char \<Rightarrow> char \<Rightarrow> bool" where
  "second_range c d =
     (if ord c = 0xE0 then in_range 0xA0 0xBF d
      else if ord c = 0xED then in_range 0x80 0x9F d
      else if ord c = 0xF0 then in_range 0x90 0xBF d
      else if ord c = 0xF4 then in_range 0x80 0x8F d
      else in_range 0x80 0xBF d)"

definition continuation :: "char \<Rightarrow> bool" where
  "continuation d = in_range 0x80 0xBF d"

text \<open>The number of bytes of the rune at the head of a string, 0 if there is no valid one.\<close>

definition rune_width :: "char \<Rightarrow> nat" where
  "rune_width c =
     (if ord c < 0x80 then 1 else if in_range 0xC2 0xDF c then 2
      else if in_range 0xE0 0xEF c then 3 else if in_range 0xF0 0xF4 c then 4 else 0)"

definition rune_len :: "string \<Rightarrow> nat" where
  "rune_len s =
     (case s of
        [] \<Rightarrow> 0
      | c # r \<Rightarrow>
          (let n = rune_width c in
           if n \<le> 1 then n
           else if n \<le> length s \<and> second_range c (hd r) \<and> list_all continuation (take (n - 2) (tl r))
           then n else 0))"

text \<open>\<open>utf8.AppendRune\<close> for a rune that is no surrogate.\<close>

definition encode_rune :: "nat \<Rightarrow> string" where
  "encode_rune r =
     (if r < 0x80 then [char_of r]
      else if r < 0x800 then [char_of (0xC0 + r div 64), char_of (0x80 + r mod 64)]
      else if r < 0x10000 then
        [char_of (0xE0 + r div 4096), char_of (0x80 + r div 64 mod 64), char_of (0x80 + r mod 64)]
      else
        [char_of (0xF0 + r div 262144), char_of (0x80 + r div 4096 mod 64),
         char_of (0x80 + r div 64 mod 64), char_of (0x80 + r mod 64)])"

definition replacement :: string where
  "replacement = encode_rune 0xFFFD"

function valid_utf8 :: "string \<Rightarrow> bool" where
  "valid_utf8 s =
     (if s = [] then True else if rune_len s = 0 then False else valid_utf8 (drop (rune_len s) s))"
  by pat_completeness auto
termination by (relation "measure length") auto

declare valid_utf8.simps [simp del]

lemma rune_len_le: "rune_len s \<le> length s"
  by (cases s) (auto simp: rune_len_def Let_def)

lemma rune_len_ascii [simp]: "ord c < 0x80 \<Longrightarrow> rune_len (c # s) = 1"
  by (simp add: rune_len_def rune_width_def)

lemma rune_len_append:
  assumes "0 < rune_len s"
  shows "rune_len (take (rune_len s) s @ r) = rune_len s"
proof (cases s)
  case (Cons c t)
  let ?n = "rune_width c"
  show ?thesis
  proof (cases "?n \<le> 1")
    case True
    with assms Cons have "?n = 1" by (simp add: rune_len_def)
    with Cons show ?thesis by (simp add: rune_len_def)
  next
    case False
    then obtain k where n: "?n = Suc (Suc k)" by (metis One_nat_def Suc_le_eq not0_implies_Suc not_less_eq_eq le0)
    with assms Cons obtain d t' where t: "t = d # t'" and k: "k \<le> length t'"
      by (cases t) (auto simp: rune_len_def split: if_splits)
    with assms Cons n show ?thesis by (auto simp: rune_len_def split: if_splits)
  qed
qed (use assms in \<open>simp add: rune_len_def\<close>)

lemma rune_len_multi: "0 < rune_len (c # s) \<Longrightarrow> \<not> ord c < 0x80 \<Longrightarrow> Suc 0 < rune_len (c # s)"
  by (auto simp: rune_len_def rune_width_def Let_def split: if_splits)

subsection \<open>Encoding a string\<close>

definition json_hex :: "nat \<Rightarrow> char" where
  "json_hex n = ''0123456789abcdef'' ! (n mod 16)"

text \<open>The characters that \<open>htmlSafeSet\<close> has, and the escapes of the others below 0x80.\<close>

definition html_safe :: "char \<Rightarrow> bool" where
  "html_safe c \<longleftrightarrow> 0x20 \<le> ord c \<and> ord c < 0x80 \<and> c \<notin> {CHR 0x22, CHR 0x5C, CHR ''<'', CHR ''>'', CHR ''&''}"

definition escape_char :: "char \<Rightarrow> string" where
  "escape_char c =
     (if html_safe c then [c]
      else if c = CHR 0x22 \<or> c = CHR 0x5C then [CHR 0x5C, c]
      else if ord c = 8 then [CHR 0x5C, CHR ''b'']
      else if ord c = 12 then [CHR 0x5C, CHR ''f'']
      else if ord c = 10 then [CHR 0x5C, CHR ''n'']
      else if ord c = 13 then [CHR 0x5C, CHR ''r'']
      else if ord c = 9 then [CHR 0x5C, CHR ''t'']
      else [CHR 0x5C, CHR ''u'', CHR ''0'', CHR ''0'', json_hex (ord c div 16), json_hex (ord c)])"

definition u_escape :: "string \<Rightarrow> string" where
  "u_escape digits = CHR 0x5C # CHR ''u'' # digits"

function quote_body :: "string \<Rightarrow> string" where
  "quote_body [] = []"
| "quote_body (c # s) =
     (if ord c < 0x80 then escape_char c @ quote_body s
      else if rune_len (c # s) = 0 then u_escape ''fffd'' @ quote_body s
      else (let n = rune_len (c # s); u = take n (c # s) in
            (if u = encode_rune 0x2028 then u_escape ''2028''
             else if u = encode_rune 0x2029 then u_escape ''2029''
             else u) @ quote_body (drop n (c # s))))"
  by pat_completeness auto
termination by (relation "measure length") auto

definition quote :: "string \<Rightarrow> string" where
  "quote s = CHR 0x22 # quote_body s @ [CHR 0x22]"

subsection \<open>Decoding a string\<close>

definition hex_value :: "char \<Rightarrow> nat option" where
  "hex_value c =
     (if in_range 0x30 0x39 c then Some (ord c - 0x30)
      else if in_range 0x61 0x66 c then Some (ord c - 0x61 + 10)
      else if in_range 0x41 0x46 c then Some (ord c - 0x41 + 10)
      else None)"

text \<open>Four hexadecimal digits, and the rest of the input.\<close>

definition getu4 :: "string \<Rightarrow> (nat \<times> string) option" where
  "getu4 s =
     (case s of
        a # b # c # d # r \<Rightarrow>
          (case (hex_value a, hex_value b, hex_value c, hex_value d) of
             (Some w, Some x, Some y, Some z) \<Rightarrow> Some (w * 4096 + x * 256 + y * 16 + z, r)
           | _ \<Rightarrow> None)
      | _ \<Rightarrow> None)"

definition surrogate :: "nat \<Rightarrow> bool" where
  "surrogate r \<longleftrightarrow> 0xD800 \<le> r \<and> r < 0xE000"

text \<open>What follows a backslash and a \<open>u\<close>; a surrogate must be followed by its other half.\<close>

definition unescape_u :: "string \<Rightarrow> (string \<times> string) option" where
  "unescape_u s =
     (case getu4 s of
        None \<Rightarrow> None
      | Some (r, rest) \<Rightarrow>
          if \<not> surrogate r then Some (encode_rune r, rest)
          else (case rest of
                  b # u # rest1 \<Rightarrow>
                    (case (if b = CHR 0x5C \<and> u = CHR ''u'' then getu4 rest1 else None) of
                       Some (r2, rest2) \<Rightarrow>
                         if r < 0xDC00 \<and> 0xDC00 \<le> r2 \<and> r2 < 0xE000
                         then Some (encode_rune ((r - 0xD800) * 1024 + (r2 - 0xDC00) + 0x10000), rest2)
                         else Some (replacement, rest)
                     | None \<Rightarrow> Some (replacement, rest))
                | _ \<Rightarrow> Some (replacement, rest)))"

definition unescape :: "string \<Rightarrow> (string \<times> string) option" where
  "unescape s =
     (case s of
        [] \<Rightarrow> None
      | c # r \<Rightarrow>
          if c = CHR 0x22 \<or> c = CHR 0x5C \<or> c = CHR ''/'' then Some ([c], r)
          else if c = CHR ''b'' then Some ([char_of (8 :: nat)], r)
          else if c = CHR ''f'' then Some ([char_of (12 :: nat)], r)
          else if c = CHR ''n'' then Some ([char_of (10 :: nat)], r)
          else if c = CHR ''r'' then Some ([char_of (13 :: nat)], r)
          else if c = CHR ''t'' then Some ([char_of (9 :: nat)], r)
          else if c = CHR ''u'' then unescape_u r
          else None)"

lemma getu4_shorter: "getu4 s = Some (n, r) \<Longrightarrow> length r < length s"
  by (auto simp: getu4_def split: list.splits option.splits)

lemma unescape_u_shorter: "unescape_u s = Some (d, r) \<Longrightarrow> length r < length s"
  by (auto simp: unescape_u_def dest!: getu4_shorter split: option.splits if_splits list.splits)

lemma unescape_shorter: "unescape s = Some (d, r) \<Longrightarrow> length r < length s"
  by (auto simp: unescape_def dest!: unescape_u_shorter split: list.splits if_splits)

text \<open>The rest of a string literal, after its opening quote, and what follows the closing one.\<close>

function unquote :: "string \<Rightarrow> (string \<times> string) option" where
  "unquote [] = None"
| "unquote (c # s) =
     (if c = CHR 0x22 then Some ([], s)
      else if c = CHR 0x5C then
        (case unescape s of
           None \<Rightarrow> None
         | Some (d, r) \<Rightarrow> map_option (apfst ((@) d)) (unquote r))
      else if ord c < 0x20 then None
      else if ord c < 0x80 then map_option (apfst ((#) c)) (unquote s)
      else if rune_len (c # s) = 0 then map_option (apfst ((@) replacement)) (unquote s)
      else map_option (apfst ((@) (take (rune_len (c # s)) (c # s))))
             (unquote (drop (rune_len (c # s)) (c # s))))"
  by pat_completeness auto
termination
  by (relation "measure length") (auto dest: unescape_shorter)

declare unquote.simps [simp del]

subsection \<open>The round trip of a string\<close>

lemma hex_value_json_hex: "hex_value (json_hex n) = Some (n mod 16)"
proof -
  have "\<forall>k < 16. hex_value (''0123456789abcdef'' ! k) = Some k"
    by (simp add: hex_value_def in_range_def numeral_eq_Suc All_less_Suc)
  then show ?thesis by (simp add: json_hex_def)
qed

lemma getu4_hex:
  "getu4 (CHR ''0'' # CHR ''0'' # json_hex m # json_hex n # r) = Some (m mod 16 * 16 + n mod 16, r)"
proof -
  have "hex_value (CHR ''0'') = Some 0" by (simp add: hex_value_def in_range_def)
  then show ?thesis by (simp add: getu4_def hex_value_json_hex)
qed

lemma encode_rune_ascii: "ord c < 0x80 \<Longrightarrow> encode_rune (ord c) = [c]"
  by (simp add: encode_rune_def)

lemma unquote_u_escape:
  assumes "getu4 (digits @ r) = Some (n, r)" and "\<not> surrogate n"
  shows "unquote (u_escape digits @ r) = map_option (apfst ((@) (encode_rune n))) (unquote r)"
  using assms by (simp add: u_escape_def unquote.simps unescape_def unescape_u_def)

lemma unquote_escape_char:
  assumes "ord c < 0x80"
  shows "unquote (escape_char c @ r) = map_option (apfst ((#) c)) (unquote r)"
proof -
  let ?u = "u_escape (CHR ''0'' # CHR ''0'' # [json_hex (ord c div 16), json_hex (ord c)])"
  have "ord c div 16 mod 16 * 16 + ord c mod 16 = ord c"
  proof -
    have "ord c div 16 < 16" using assms by (simp add: div_less_iff_less_mult)
    then show ?thesis by simp
  qed
  then have "unquote (?u @ r) = map_option (apfst ((@) [c])) (unquote r)"
    using unquote_u_escape [of "CHR ''0'' # CHR ''0'' # [json_hex (ord c div 16), json_hex (ord c)]" r "ord c"]
      assms by (simp add: getu4_hex surrogate_def encode_rune_ascii)
  moreover have "(@) [c] = (#) c" by (simp add: fun_eq_iff)
  moreover have co: "char_of n = c" if "ord c = n" for n
    using that by auto
  ultimately show ?thesis
    using assms
    by (auto simp: co escape_char_def u_escape_def html_safe_def unquote.simps unescape_def apfst_def)
qed

lemma unquote_multibyte:
  assumes "0 < rune_len (c # s)" and "\<not> ord c < 0x80"
  shows "unquote (take (rune_len (c # s)) (c # s) @ r) =
         map_option (apfst ((@) (take (rune_len (c # s)) (c # s)))) (unquote r)"
proof -
  let ?n = "rune_len (c # s)"
  let ?u = "take ?n (c # s)"
  obtain t where u: "?u = c # t" using assms(1) by (cases ?n) auto
  have len: "rune_len (c # s) = Suc (length t)"
    using u rune_len_le [of "c # s"] by (metis length_Cons length_take min.absorb2)
  have "rune_len (c # t @ r) = rune_len (c # s)" using rune_len_append [OF assms(1), of r] u by simp
  moreover have "c \<noteq> CHR 0x22" and "c \<noteq> CHR 0x5C" and "\<not> ord c < 0x20" using assms(2) by auto
  ultimately show ?thesis using assms(2) unfolding u by (simp add: unquote.simps len)
qed

lemma u_escape_separator:
  "unquote (u_escape ''2028'' @ r) = map_option (apfst ((@) (encode_rune 0x2028))) (unquote r)"
  "unquote (u_escape ''2029'' @ r) = map_option (apfst ((@) (encode_rune 0x2029))) (unquote r)"
  by (rule unquote_u_escape; simp add: getu4_def hex_value_def in_range_def surrogate_def)+

lemma unquote_quote_body:
  "valid_utf8 s \<Longrightarrow> unquote (quote_body s @ CHR 0x22 # r) = Some (s, r)"
proof (induction s rule: quote_body.induct)
  case 1
  then show ?case by (simp add: unquote.simps)
next
  case (2 c s)
  let ?n = "rune_len (c # s)"
  show ?case
  proof (cases "ord c < 0x80")
    case True
    with "2.prems" have "valid_utf8 s" by (subst (asm) valid_utf8.simps) simp
    with "2.IH"(1) [OF True] True show ?thesis by (simp add: unquote_escape_char)
  next
    case False
    from "2.prems" have n: "0 < ?n" and v: "valid_utf8 (drop ?n (c # s))"
      by (subst (asm) valid_utf8.simps, simp split: if_splits)+
    from n have IH: "unquote (quote_body (drop ?n (c # s)) @ CHR 0x22 # r) = Some (drop ?n (c # s), r)"
      using "2.IH"(3) [OF False _ refl refl v] by simp
    have u: "map_option (apfst ((@) u)) (Some (drop ?n (c # s), r)) = Some (c # s, r)"
      if "u = take ?n (c # s)" for u
      using that by simp
    consider "take ?n (c # s) = encode_rune 0x2028" | "take ?n (c # s) = encode_rune 0x2029"
      | "take ?n (c # s) \<noteq> encode_rune 0x2028" "take ?n (c # s) \<noteq> encode_rune 0x2029" by blast
    then show ?thesis
      using n False IH u
      by cases (auto simp: Let_def u_escape_separator unquote_multibyte
          simp del: take_append drop_append append_take_drop_id)
  qed
qed

lemma unquote_quote: "valid_utf8 s \<Longrightarrow> unquote (tl (quote s) @ r) = Some (s, r)"
  by (simp add: quote_def unquote_quote_body)

subsection \<open>Tokens\<close>

datatype token =
    TObjOpen | TObjClose | TArrOpen | TArrClose | TComma | TColon
  | TString string | TNumber | TTrue | TFalse | TNull

text \<open>
  The scanner for numbers; the value is never used.  \<open>digits1\<close> skips one digit or more, and the
  result of each part is the rest of the input.
\<close>

definition digits1 :: "string \<Rightarrow> string option" where
  "digits1 s = (case s of c # r \<Rightarrow> (if is_digit c then Some (dropWhile is_digit r) else None) | [] \<Rightarrow> None)"

definition scan_int :: "string \<Rightarrow> string option" where
  "scan_int s = (case s of c # r \<Rightarrow> (if c = CHR ''0'' then Some r else digits1 s) | [] \<Rightarrow> None)"

definition scan_frac :: "string \<Rightarrow> string option" where
  "scan_frac s = (case s of c # r \<Rightarrow> (if c = CHR ''.'' then digits1 r else Some s) | [] \<Rightarrow> Some s)"

definition scan_exp :: "string \<Rightarrow> string option" where
  "scan_exp s =
     (case s of
        c # r \<Rightarrow>
          (if c = CHR ''e'' \<or> c = CHR ''E''
           then (case r of
                   d # r' \<Rightarrow> digits1 (if d = CHR ''+'' \<or> d = CHR ''-'' then r' else r)
                 | [] \<Rightarrow> None)
           else Some s)
      | [] \<Rightarrow> Some s)"

definition scan_number :: "string \<Rightarrow> string option" where
  "scan_number s =
     (case scan_int (case s of c # r \<Rightarrow> (if c = CHR ''-'' then r else s) | [] \<Rightarrow> s) of
        None \<Rightarrow> None
      | Some r1 \<Rightarrow> (case scan_frac r1 of None \<Rightarrow> None | Some r2 \<Rightarrow> scan_exp r2))"

lemma digits1_shorter: "digits1 s = Some r \<Longrightarrow> length r < length s"
  by (auto simp: digits1_def le_imp_less_Suc length_dropWhile_le split: list.splits if_splits)

lemma scan_number_shorter:
  assumes "scan_number s = Some r"
  shows "length r < length s"
proof -
  have i: "scan_int a = Some b \<Longrightarrow> length b < length a" for a b
    by (auto simp: scan_int_def dest: digits1_shorter split: list.splits if_splits)
  have f: "scan_frac a = Some b \<Longrightarrow> length b \<le> length a" for a b
    by (fastforce simp: scan_frac_def dest: digits1_shorter split: list.splits if_splits)
  have e: "scan_exp a = Some b \<Longrightarrow> length b \<le> length a" for a b
    by (fastforce simp: scan_exp_def dest: digits1_shorter split: list.splits if_splits)
  from assms obtain r1 r2 where "scan_int (case s of c # r \<Rightarrow> (if c = CHR ''-'' then r else s) | [] \<Rightarrow> s) = Some r1"
    and "scan_frac r1 = Some r2" and "scan_exp r2 = Some r"
    by (auto simp: scan_number_def split: option.splits)
  from i [OF this(1)] f [OF this(2)] e [OF this(3)] show ?thesis
    by (auto split: list.splits if_splits)
qed

lemma unquote_shorter: "unquote s = Some (d, r) \<Longrightarrow> length r < length s"
proof (induction s arbitrary: d r rule: unquote.induct)
  case 1
  then show ?case by (simp add: unquote.simps)
next
  case (2 c s)
  then show ?case
    by (subst (asm) unquote.simps)
      (fastforce dest: unescape_shorter split: if_splits option.splits)
qed

definition blank :: "char \<Rightarrow> bool" where
  "blank c \<longleftrightarrow> ord c \<in> {0x20, 0x09, 0x0A, 0x0D}"

definition punctuation :: "char \<Rightarrow> token option" where
  "punctuation c =
     (if c = CHR ''{'' then Some TObjOpen else if c = CHR ''}'' then Some TObjClose
      else if c = CHR ''['' then Some TArrOpen else if c = CHR '']'' then Some TArrClose
      else if c = CHR '','' then Some TComma else if c = CHR '':'' then Some TColon else None)"

definition keyword :: "string \<Rightarrow> (token \<times> string) option" where
  "keyword s =
     (if hasPrefix s ''true'' then Some (TTrue, drop 4 s)
      else if hasPrefix s ''false'' then Some (TFalse, drop 5 s)
      else if hasPrefix s ''null'' then Some (TNull, drop 4 s) else None)"

text \<open>One token at the head of a non-empty input, and the rest.\<close>

definition next_token :: "char \<Rightarrow> string \<Rightarrow> (token \<times> string) option" where
  "next_token c s =
     (case punctuation c of
        Some t \<Rightarrow> Some (t, s)
      | None \<Rightarrow>
          if c = CHR 0x22 then map_option (apfst TString) (unquote s)
          else if c = CHR ''-'' \<or> is_digit c then map_option (\<lambda>r. (TNumber, r)) (scan_number (c # s))
          else keyword (c # s))"

lemma next_token_shorter: "next_token c s = Some (t, r) \<Longrightarrow> length r \<le> length s"
  by (auto simp: next_token_def keyword_def dest!: unquote_shorter scan_number_shorter
      split: option.splits if_splits)

function tokenize :: "string \<Rightarrow> token list option" where
  "tokenize [] = Some []"
| "tokenize (c # s) =
     (if blank c then tokenize s
      else (case next_token c s of
              None \<Rightarrow> None
            | Some (t, r) \<Rightarrow> map_option ((#) t) (tokenize r)))"
  by pat_completeness auto
termination
  by (relation "measure length") (auto simp: less_Suc_eq_le dest: next_token_shorter)

subsection \<open>The push-down parser\<close>

datatype json = JNull | JBool bool | JNumber | JString string | JArray "json list"
  | JObject "(string \<times> json) list"

text \<open>The open containers, innermost first, with what they hold so far in reverse.\<close>

datatype frame = InArray "json list" | InObject "(string \<times> json) list"
  | InField "(string \<times> json) list" string

datatype mode = WantValue | WantValueOrClose | WantKeyOrClose | WantKey | WantColon string | Got json

definition maxNestingDepth :: nat where
  "maxNestingDepth = 10000"

definition open_frame :: "mode \<Rightarrow> frame \<Rightarrow> frame list \<Rightarrow> (mode \<times> frame list) option" where
  "open_frame m f fs = (if length fs < maxNestingDepth then Some (m, f # fs) else None)"

fun value_token :: "token \<Rightarrow> frame list \<Rightarrow> (mode \<times> frame list) option" where
  "value_token (TString s) fs = Some (Got (JString s), fs)"
| "value_token TNumber fs = Some (Got JNumber, fs)"
| "value_token TTrue fs = Some (Got (JBool True), fs)"
| "value_token TFalse fs = Some (Got (JBool False), fs)"
| "value_token TNull fs = Some (Got JNull, fs)"
| "value_token TArrOpen fs = open_frame WantValueOrClose (InArray []) fs"
| "value_token TObjOpen fs = open_frame WantKeyOrClose (InObject []) fs"
| "value_token _ fs = None"

definition close_empty :: "token \<Rightarrow> frame list \<Rightarrow> (mode \<times> frame list) option" where
  "close_empty t fs =
     (case fs of
        InArray vs # fs' \<Rightarrow> (if t = TArrClose then Some (Got (JArray (rev vs)), fs') else None)
      | InObject kvs # fs' \<Rightarrow> (if t = TObjClose then Some (Got (JObject (rev kvs)), fs') else None)
      | _ \<Rightarrow> None)"

definition after_value :: "json \<Rightarrow> token \<Rightarrow> frame list \<Rightarrow> (mode \<times> frame list) option" where
  "after_value v t fs =
     (case fs of
        InArray vs # fs' \<Rightarrow>
          (if t = TComma then Some (WantValue, InArray (v # vs) # fs')
           else if t = TArrClose then Some (Got (JArray (rev (v # vs))), fs') else None)
      | InField kvs k # fs' \<Rightarrow>
          (if t = TComma then Some (WantKey, InObject ((k, v) # kvs) # fs')
           else if t = TObjClose then Some (Got (JObject (rev ((k, v) # kvs))), fs') else None)
      | _ \<Rightarrow> None)"

definition key_token :: "token \<Rightarrow> frame list \<Rightarrow> (mode \<times> frame list) option" where
  "key_token t fs = (case t of TString k \<Rightarrow> Some (WantColon k, fs) | _ \<Rightarrow> None)"

definition after_key :: "string \<Rightarrow> token \<Rightarrow> frame list \<Rightarrow> (mode \<times> frame list) option" where
  "after_key k t fs =
     (case fs of
        InObject kvs # fs' \<Rightarrow> (if t = TColon then Some (WantValue, InField kvs k # fs') else None)
      | _ \<Rightarrow> None)"

fun parse_step :: "token \<Rightarrow> mode \<Rightarrow> frame list \<Rightarrow> (mode \<times> frame list) option" where
  "parse_step t WantValue fs = value_token t fs"
| "parse_step t WantValueOrClose fs = (if t = TArrClose then close_empty t fs else value_token t fs)"
| "parse_step t WantKeyOrClose fs = (if t = TObjClose then close_empty t fs else key_token t fs)"
| "parse_step t WantKey fs = key_token t fs"
| "parse_step t (WantColon k) fs = after_key k t fs"
| "parse_step t (Got v) fs = after_value v t fs"

fun parse_tokens :: "token list \<Rightarrow> mode \<Rightarrow> frame list \<Rightarrow> json option" where
  "parse_tokens [] m fs = (case (m, fs) of (Got v, []) \<Rightarrow> Some v | _ \<Rightarrow> None)"
| "parse_tokens (t # ts) m fs =
     (case parse_step t m fs of None \<Rightarrow> None | Some (m', fs') \<Rightarrow> parse_tokens ts m' fs')"

definition parse_json :: "string \<Rightarrow> json option" where
  "parse_json s = (case tokenize s of None \<Rightarrow> None | Some ts \<Rightarrow> parse_tokens ts WantValue [])"

subsection \<open>Decoding into Go values\<close>

text \<open>
  Every decoder takes the value the target has and returns the new one, or \<open>None\<close> where
  \<open>json.Unmarshal\<close> reports that a JSON value does not fit its target.  A field is found by its name
  up to case; \<open>foldName\<close> also maps the Kelvin sign to \<open>K\<close> and the long s to \<open>S\<close>.
\<close>

definition upper :: "char \<Rightarrow> char" where
  "upper c = (if in_range 0x61 0x7A c then char_of (ord c - 32) else c)"

function foldName :: "string \<Rightarrow> string" where
  "foldName [] = []"
| "foldName (c # s) =
     (if hasPrefix (c # s) (encode_rune 0x212A) then CHR ''K'' # foldName (drop 3 (c # s))
      else if hasPrefix (c # s) (encode_rune 0x017F) then CHR ''S'' # foldName (drop 2 (c # s))
      else upper c # foldName s)"
  by pat_completeness auto
termination by (relation "measure length") auto

declare foldName.simps(2) [simp del]

lemma foldName_ascii: "list_all (\<lambda>c. ord c < 0x80) s \<Longrightarrow> foldName s = map upper s"
proof (induction s)
  case (Cons c s)
  then have "ord c < 0x80" by simp
  moreover have "\<not> hasPrefix (c # s) (encode_rune 0x212A)" and "\<not> hasPrefix (c # s) (encode_rune 0x017F)"
    using Cons.prems by (auto simp: hasPrefix_def encode_rune_def)
  ultimately show ?case using Cons by (simp add: foldName.simps(2))
qed simp

definition decode_string :: "json \<Rightarrow> string \<Rightarrow> string option" where
  "decode_string v old = (case v of JString s \<Rightarrow> Some s | JNull \<Rightarrow> Some old | _ \<Rightarrow> None)"

text \<open>The fields of a struct, in the order of the document; unknown ones are ignored.\<close>

type_synonym 'a fields = "(string \<times> (json \<Rightarrow> 'a \<Rightarrow> 'a option)) list"

fun decode_fields :: "'a fields \<Rightarrow> (string \<times> json) list \<Rightarrow> 'a \<Rightarrow> 'a option" where
  "decode_fields fs [] old = Some old"
| "decode_fields fs ((k, v) # kvs) old =
     (case find (\<lambda>(name, _). foldName name = foldName k) fs of
        None \<Rightarrow> decode_fields fs kvs old
      | Some (_, dec) \<Rightarrow>
          (case dec v old of None \<Rightarrow> None | Some new \<Rightarrow> decode_fields fs kvs new))"

definition decode_struct :: "'a fields \<Rightarrow> json \<Rightarrow> 'a \<Rightarrow> 'a option" where
  "decode_struct fs v old =
     (case v of JObject kvs \<Rightarrow> decode_fields fs kvs old | JNull \<Rightarrow> Some old | _ \<Rightarrow> None)"

text \<open>A slice of strings: a \<open>null\<close> element keeps what the slice had there.\<close>

fun decode_elements :: "json list \<Rightarrow> string list \<Rightarrow> string list option" where
  "decode_elements [] old = Some []"
| "decode_elements (v # vs) old =
     (case decode_string v (case old of [] \<Rightarrow> [] | q # _ \<Rightarrow> q) of
        None \<Rightarrow> None
      | Some q \<Rightarrow> map_option ((#) q) (decode_elements vs (tl old)))"

definition decode_strings :: "json \<Rightarrow> string list \<Rightarrow> string list option" where
  "decode_strings v old =
     (case v of JArray vs \<Rightarrow> decode_elements vs old | JNull \<Rightarrow> Some [] | _ \<Rightarrow> None)"

text \<open>A map from strings to structs: every value starts from the zero struct.\<close>

fun decode_entries ::
  "(json \<Rightarrow> 'a option) \<Rightarrow> (string \<times> json) list \<Rightarrow> (string \<times> 'a) list \<Rightarrow> (string \<times> 'a) list option" where
  "decode_entries dec [] old = Some old"
| "decode_entries dec ((k, v) # kvs) old =
     (case dec v of None \<Rightarrow> None | Some e \<Rightarrow> decode_entries dec kvs (AList.update k e old))"

definition decode_map ::
  "(json \<Rightarrow> 'a option) \<Rightarrow> json \<Rightarrow> (string \<times> 'a) list \<Rightarrow> (string \<times> 'a) list option" where
  "decode_map dec v old =
     (case v of JObject kvs \<Rightarrow> decode_entries dec kvs old | JNull \<Rightarrow> Some [] | _ \<Rightarrow> None)"

subsection \<open>The round trip of a struct of strings\<close>

definition marshal_field :: "string \<Rightarrow> string \<Rightarrow> string" where
  "marshal_field k v = quote k @ CHR '':'' # quote v"

lemma tokenize_punctuation:
  "punctuation c = Some t \<Longrightarrow> tokenize (c # s) = map_option ((#) t) (tokenize s)"
  by (auto simp: next_token_def punctuation_def blank_def split: if_splits)

lemma tokenize_quote:
  assumes "valid_utf8 s"
  shows "tokenize (quote s @ r) = map_option ((#) (TString s)) (tokenize r)"
proof -
  have "next_token (CHR 0x22) (tl (quote s) @ r) = Some (TString s, r)"
    by (simp add: next_token_def punctuation_def unquote_quote [OF assms])
  then show ?thesis by (simp add: quote_def blank_def)
qed

text \<open>A literal of harmless ASCII characters is its own encoding.\<close>

definition dq :: "string \<Rightarrow> string" where
  "dq s = CHR 0x22 # s @ [CHR 0x22]"

lemma html_safe_body: "list_all html_safe s \<Longrightarrow> quote_body s = s \<and> valid_utf8 s"
proof (induction s)
  case Nil
  show ?case by (simp add: valid_utf8.simps)
next
  case (Cons c s)
  then have "ord c < 0x80" and "html_safe c" by (simp_all add: html_safe_def)
  with Cons show ?case
    by (subst valid_utf8.simps) (simp add: escape_char_def)
qed

lemma quote_dq: "list_all html_safe s \<Longrightarrow> quote s = dq s"
  by (simp add: quote_def dq_def html_safe_body)

lemma tokenize_dq:
  "list_all html_safe s \<Longrightarrow> tokenize (dq s @ r) = map_option ((#) (TString s)) (tokenize r)"
  using tokenize_quote [of s r] by (simp add: quote_dq html_safe_body)

lemma tokenize_blank: "blank c \<Longrightarrow> tokenize (c # s) = tokenize s"
  by simp

lemma parse_json_two_fields:
  assumes "valid_utf8 k1" "valid_utf8 v1" "valid_utf8 k2" "valid_utf8 v2"
  shows "parse_json (CHR ''{'' # marshal_field k1 v1 @ CHR '','' # marshal_field k2 v2 @ ''}'') =
    Some (JObject [(k1, JString v1), (k2, JString v2)])"
proof -
  have p: "punctuation (CHR ''{'') = Some TObjOpen" "punctuation (CHR ''}'') = Some TObjClose"
    "punctuation (CHR '','') = Some TComma" "punctuation (CHR '':'') = Some TColon"
    by (simp_all add: punctuation_def)
  have "tokenize (CHR ''{'' # marshal_field k1 v1 @ CHR '','' # marshal_field k2 v2 @ ''}'') =
    Some [TObjOpen, TString k1, TColon, TString v1, TComma, TString k2, TColon, TString v2, TObjClose]"
    using assms by (simp only: marshal_field_def append_assoc append_Cons tokenize_punctuation [OF p(1)]
        tokenize_punctuation [OF p(2)] tokenize_punctuation [OF p(3)] tokenize_punctuation [OF p(4)]
        tokenize_quote append_Nil tokenize.simps(1) option.map)
  then show ?thesis
    by (simp add: parse_json_def open_frame_def maxNestingDepth_def key_token_def after_key_def
        after_value_def)
qed

end
