(* ===== verification/Tls.thy ===== *)
theory Tls
  imports Prelude
begin

section \<open>TLS configurations and certificate pools\<close>

text \<open>
  The fields of \<open>tls.Config\<close> that the proxy sets, and \<open>x509.CertPool\<close> as the list of the
  certificates it has.  Which certificates a PEM file contains is decided by the parsers of
  crypto/x509 and a parameter.  Files are read through the parameter \<open>ReadFile\<close>.
\<close>

type_synonym file_system = "string \<Rightarrow> string + bytes"
type_synonym certificate = bytes
type_synonym cert_pool = "certificate list"
type_synonym pem_parser = "bytes \<Rightarrow> certificate list"

definition NewCertPool :: cert_pool where
  "NewCertPool = []"

text \<open>A certificate that is in the pool is not added again; the result says whether there was any.\<close>

definition AppendCertsFromPEM :: "pem_parser \<Rightarrow> bytes \<Rightarrow> cert_pool \<Rightarrow> bool \<times> cert_pool" where
  "AppendCertsFromPEM ParsePEM pem pool =
     (ParsePEM pem \<noteq> [], fold (\<lambda>c p. if c \<in> set p then p else p @ [c]) (ParsePEM pem) pool)"

definition VersionTLS12 :: nat where
  "VersionTLS12 = 0x0303"

record tls_config =
  InsecureSkipVerify :: bool
  ServerName :: string
  MinVersion :: nat
  RootCAs :: "cert_pool option"
    \<comment> \<open>\<open>None\<close>: the pool of the system\<close>

definition zero_tls_config :: tls_config where
  "zero_tls_config = \<lparr>InsecureSkipVerify = False, ServerName = '''', MinVersion = 0, RootCAs = None\<rparr>"

lemma set_appended: "set (fold (\<lambda>c p. if c \<in> set p then p else p @ [c]) cs pool) = set pool \<union> set cs"
  by (induction cs arbitrary: pool) auto

lemma AppendCertsFromPEM_pool:
  "AppendCertsFromPEM ParsePEM pem pool = (ok, pool') \<Longrightarrow>
     ok = (ParsePEM pem \<noteq> []) \<and> set pool' = set pool \<union> set (ParsePEM pem)"
  by (auto simp: AppendCertsFromPEM_def set_appended)

end
