(* ===== verification/Auth_File.thy ===== *)
theory Auth_File
  imports Auth Go_Json Tls
begin

section \<open>internal/auth: loading the auth file\<close>

text \<open>
  \<open>loadAuthFile\<close> and the two constructors that build an authenticator from it.  \<open>os.ReadFile\<close> is
  the argument \<open>ReadFile\<close>, a file system; the JSON decoding is that of \<open>Go_Json\<close>.  The iteration
  order of Go's maps is the order of the association list.  The Google validator that
  \<open>idtoken.NewValidator\<close> returns is third-party code and an argument.

  One detail of the slice decoder is left out: after three occurrences of one key \<open>task_queues\<close>, a
  \<open>null\<close> element could see a string left over in the backing array.
\<close>

record auth_file_config =
  afc_keys :: "(string \<times> static_key_entry) list"
  afc_emails :: "(string \<times> static_key_entry) list"

definition zero_entry :: static_key_entry where
  "zero_entry = \<lparr>ske_namespace = '''', ske_task_queues = [], ske_subject = ''''\<rparr>"

definition entry_fields :: "static_key_entry fields" where
  "entry_fields =
     [(''namespace'', \<lambda>v e. map_option (\<lambda>s. e\<lparr>ske_namespace := s\<rparr>) (decode_string v (ske_namespace e))),
      (''task_queues'', \<lambda>v e. map_option (\<lambda>qs. e\<lparr>ske_task_queues := qs\<rparr>) (decode_strings v (ske_task_queues e))),
      (''subject'', \<lambda>v e. map_option (\<lambda>s. e\<lparr>ske_subject := s\<rparr>) (decode_string v (ske_subject e)))]"

definition decode_key_entry :: "json \<Rightarrow> static_key_entry option" where
  "decode_key_entry v = decode_struct entry_fields v zero_entry"

definition auth_file_fields :: "auth_file_config fields" where
  "auth_file_fields =
     [(''keys'', \<lambda>v c. map_option (\<lambda>m. c\<lparr>afc_keys := m\<rparr>) (decode_map decode_key_entry v (afc_keys c))),
      (''emails'', \<lambda>v c. map_option (\<lambda>m. c\<lparr>afc_emails := m\<rparr>) (decode_map decode_key_entry v (afc_emails c)))]"

definition decode_auth_file :: "bytes \<Rightarrow> auth_file_config option" where
  "decode_auth_file data =
     (case parse_json data of
        None \<Rightarrow> None
      | Some v \<Rightarrow> decode_struct auth_file_fields v \<lparr>afc_keys = [], afc_emails = []\<rparr>)"

definition loadAuthFile :: "file_system \<Rightarrow> string \<Rightarrow> auth_error + auth_file_config" where
  "loadAuthFile ReadFile path =
     (case ReadFile path of
        Inl err \<Rightarrow> Inl (ReadingAuthFile err)
      | Inr data \<Rightarrow>
          (case decode_auth_file data of None \<Rightarrow> Inl ParsingAuthFile | Some cfg \<Rightarrow> Inr cfg))"

definition NewStaticAuthenticatorFromFile :: "file_system \<Rightarrow> string \<Rightarrow> auth_error + authenticator" where
  "NewStaticAuthenticatorFromFile ReadFile path =
     (case loadAuthFile ReadFile path of
        Inl err \<Rightarrow> Inl err
      | Inr cfg \<Rightarrow>
          (case buildIdentities (afc_keys cfg) True of
             Inl err \<Rightarrow> Inl err
           | Inr identities \<Rightarrow> Inr (StaticAuthenticate identities)))"

text \<open>\<open>NewValidator\<close> is the result of \<open>idtoken.NewValidator\<close>: an error, or \<open>Validate\<close>.\<close>

definition NewJWTAuthenticatorFromFile ::
  "string + (string \<Rightarrow> string \<Rightarrow> string + (string \<Rightarrow> claim option)) \<Rightarrow> file_system \<Rightarrow> string \<Rightarrow> string
   \<Rightarrow> auth_error + authenticator" where
  "NewJWTAuthenticatorFromFile NewValidator ReadFile path audience =
     (if audience = '''' then Inl EmptyAudience
      else (case loadAuthFile ReadFile path of
              Inl err \<Rightarrow> Inl err
            | Inr cfg \<Rightarrow>
                (case buildIdentities (afc_emails cfg) False of
                   Inl err \<Rightarrow> Inl err
                 | Inr identities \<Rightarrow>
                     (case NewValidator of
                        Inl err \<Rightarrow> Inl (CreatingValidator err)
                      | Inr validate \<Rightarrow>
                          Inr (JWTAuthenticate identities (googleTokenValidator validate audience))))))"

subsection \<open>What a constructor that succeeds has built\<close>

text \<open>The authenticators that may stand in front of a table of identities.\<close>

definition guards :: "(string \<Rightarrow> identity option) \<Rightarrow> authenticator \<Rightarrow> bool" where
  "guards identities A \<longleftrightarrow>
     A = StaticAuthenticate identities \<or> (\<exists>validate. A = JWTAuthenticate identities validate)"

lemma NewStaticAuthenticatorFromFile_Inr:
  assumes "NewStaticAuthenticatorFromFile ReadFile path = Inr A"
  obtains data cfg identities where "ReadFile path = Inr data" and "decode_auth_file data = Some cfg"
    and "buildIdentities (afc_keys cfg) True = Inr identities" and "A = StaticAuthenticate identities"
  using assms
  by (auto simp: NewStaticAuthenticatorFromFile_def loadAuthFile_def split: sum.splits option.splits)

lemma NewJWTAuthenticatorFromFile_Inr:
  assumes "NewJWTAuthenticatorFromFile NewValidator ReadFile path audience = Inr A"
  obtains data cfg identities validate where "audience \<noteq> ''''" and "ReadFile path = Inr data"
    and "decode_auth_file data = Some cfg" and "buildIdentities (afc_emails cfg) False = Inr identities"
    and "NewValidator = Inr validate"
    and "A = JWTAuthenticate identities (googleTokenValidator validate audience)"
  using assms
  by (auto simp: NewJWTAuthenticatorFromFile_def loadAuthFile_def split: sum.splits option.splits if_splits)

text \<open>
  The auth file shipped with the image, \<open>cmd/temporal-proxy/kodata/static-auth.json\<close>, line by line.
\<close>

definition shipped_file :: bytes where
  "shipped_file = concat (map (\<lambda>l. l @ [CHR 0x0A]) [
      ''{'',
      ''  '' @ dq ''keys'' @ '': {'',
      ''    '' @ dq ''test'' @ '': {'',
      ''      '' @ dq ''namespace'' @ '': '' @ dq ''stefan-ephemeral-workers.a2dd6'' @ '','',
      ''      '' @ dq ''task_queues'' @ '': ['' @ dq ''proxy-test-queue'' @ ''],'',
      ''      '' @ dq ''subject'' @ '': '' @ dq ''worker-fleet-a'',
      ''    }'',
      ''  },'',
      ''  '' @ dq ''emails'' @ '': {'',
      ''    '' @ dq ''782178815298-compute@developer.gserviceaccount.com'' @ '': {'',
      ''      '' @ dq ''namespace'' @ '': '' @ dq ''stefan-ephemeral-workers.a2dd6'' @ '','',
      ''      '' @ dq ''task_queues'' @ '': ['' @ dq ''proxy-test-queue'' @ ''],'',
      ''      '' @ dq ''subject'' @ '': '' @ dq ''worker-fleet-a'',
      ''    }'',
      ''  }'',
      ''}''])"

text \<open>The field names up to case.\<close>

lemma foldName_fields:
  "foldName ''keys'' = ''KEYS''" "foldName ''emails'' = ''EMAILS''"
  "foldName ''namespace'' = ''NAMESPACE''" "foldName ''task_queues'' = ''TASK_QUEUES''"
  "foldName ''subject'' = ''SUBJECT''"
  by (simp_all add: foldName_ascii upper_def byte_class char_of_def bit_0)

lemma shipped_file_tokens:
  "tokenize shipped_file =
     (let entry = [TObjOpen, TString ''namespace'', TColon, TString ''stefan-ephemeral-workers.a2dd6'',
        TComma, TString ''task_queues'', TColon, TArrOpen, TString ''proxy-test-queue'', TArrClose,
        TComma, TString ''subject'', TColon, TString ''worker-fleet-a'', TObjClose]
      in Some ([TObjOpen, TString ''keys'', TColon, TObjOpen, TString ''test'', TColon] @ entry @
        [TObjClose, TComma, TString ''emails'', TColon, TObjOpen,
         TString ''782178815298-compute@developer.gserviceaccount.com'', TColon] @ entry @
        [TObjClose, TObjClose]))"
proof -
  have blanks: "blank (CHR '' '')" "blank (CHR 0x0A)"
    by (simp_all add: blank_def)
  have p: "punctuation (CHR ''{'') = Some TObjOpen" "punctuation (CHR ''}'') = Some TObjClose"
    "punctuation (CHR '','') = Some TComma" "punctuation (CHR '':'') = Some TColon"
    "punctuation (CHR ''['') = Some TArrOpen" "punctuation (CHR '']'') = Some TArrClose"
    by (simp_all add: punctuation_def)
  show ?thesis
    by (simp add: shipped_file_def Let_def del: tokenize.simps(2)
        add: tokenize_dq html_safe_def tokenize_blank blanks tokenize_punctuation [OF p(1)]
        tokenize_punctuation [OF p(2)] tokenize_punctuation [OF p(3)] tokenize_punctuation [OF p(4)]
        tokenize_punctuation [OF p(5)] tokenize_punctuation [OF p(6)])
qed

lemma shipped_file_json:
  "parse_json shipped_file =
     (let entry = JObject [(''namespace'', JString ''stefan-ephemeral-workers.a2dd6''),
        (''task_queues'', JArray [JString ''proxy-test-queue'']), (''subject'', JString ''worker-fleet-a'')]
      in Some (JObject [(''keys'', JObject [(''test'', entry)]),
        (''emails'', JObject [(''782178815298-compute@developer.gserviceaccount.com'', entry)])]))"
  by (simp add: parse_json_def shipped_file_tokens Let_def open_frame_def maxNestingDepth_def
      key_token_def after_key_def after_value_def)

lemma shipped_file_decoded: "decode_auth_file shipped_file =
    Some \<lparr>afc_keys = shipped_keys, afc_emails = [(''782178815298-compute@developer.gserviceaccount.com'', shipped_entry)]\<rparr>"
  by (simp add: decode_auth_file_def shipped_file_json Let_def decode_struct_def auth_file_fields_def
      decode_map_def decode_key_entry_def entry_fields_def decode_string_def decode_strings_def
      zero_entry_def shipped_keys_def shipped_entry_def foldName_fields)

subsection \<open>Properties\<close>

text \<open>C28:
  A bearer token authenticates as a valid identity through the JWT authenticator only if Google has
  validated it for the configured, non-empty audience, its email claim is verified and not empty, and
  that email is in the \<open>emails\<close> section; the identity is then that entry's, with the email as its
  subject where the entry has none.
\<close>

theorem jwt_sound:
  assumes "NewJWTAuthenticatorFromFile NewValidator ReadFile path audience = Inr A"
    and "A token = Inr i" and "id_valid i"
  shows "\<exists>data cfg Validate claims email e.
     audience \<noteq> '''' \<and> ReadFile path = Inr data \<and> decode_auth_file data = Some cfg \<and>
     NewValidator = Inr Validate \<and> Validate token audience = Inr claims \<and>
     claims ''email_verified'' = Some (ClaimBool True) \<and>
     claims ''email'' = Some (ClaimString email) \<and> email \<noteq> '''' \<and>
     (email, e) \<in> set (afc_emails cfg) \<and> id_namespace i = ske_namespace e \<and>
     id_task_queues i = ske_task_queues e \<and>
     id_subject i = (if ske_subject e = '''' then email else ske_subject e)"
proof -
  from NewJWTAuthenticatorFromFile_Inr [OF assms(1)] obtain data cfg identities Validate where
    conf: "audience \<noteq> ''''" "ReadFile path = Inr data" "decode_auth_file data = Some cfg"
      "NewValidator = Inr Validate"
    and built: "buildIdentities (afc_emails cfg) False = Inr identities"
    and A: "A = JWTAuthenticate identities (googleTokenValidator Validate audience)"
    by metis
  from assms(2,3) obtain email j where val: "googleTokenValidator Validate audience token = Inr email"
    and j: "identities email = Some j"
    and i: "i = (if id_subject j = '''' then j\<lparr>id_subject := email\<rparr> else j)"
    by (auto simp: A JWTAuthenticate_def zero_identity_def split: sum.splits option.splits)
  from buildIdentities_ran [OF built j] obtain e where e: "(email, e) \<in> set (afc_emails cfg)" "j = identity_of e"
    by (metis map_key_def)
  from val obtain claims where claims: "Validate token audience = Inr claims"
    and ver: "claim_bool claims ''email_verified''" and em: "claim_string claims ''email'' = email" "email \<noteq> ''''"
    by (auto simp: googleTokenValidator_def split: sum.splits if_splits)
  have verified: "claims ''email_verified'' = Some (ClaimBool True)"
    using ver by (auto simp: claim_bool_def split: option.splits claim.splits)
  have email: "claims ''email'' = Some (ClaimString email)"
    using em by (auto simp: claim_string_def split: option.splits claim.splits)
  have "id_namespace i = ske_namespace e \<and> id_task_queues i = ske_task_queues e \<and>
      id_subject i = (if ske_subject e = '''' then email else ske_subject e)"
    using i e(2) by (simp add: identity_of_def)
  with conf claims verified email em(2) e(1) show ?thesis by blast
qed

definition sample_validate :: "string \<Rightarrow> string \<Rightarrow> string + (string \<Rightarrow> claim option)" where
  "sample_validate token audience =
     (if token = ''jwt'' \<and> audience = ''https://proxy''
      then Inr [''email_verified'' \<mapsto> ClaimBool True,
                ''email'' \<mapsto> ClaimString ''782178815298-compute@developer.gserviceaccount.com'']
      else Inl ''idtoken: invalid'')"

theorem jwt_sound_witness:
  "\<exists>A i. NewJWTAuthenticatorFromFile (Inr sample_validate) (\<lambda>_. Inr shipped_file) ''f'' ''https://proxy'' = Inr A \<and>
     A ''jwt'' = Inr i \<and> id_valid i \<and>
     (\<exists>claims. sample_validate ''jwt'' ''https://proxy'' = Inr claims \<and>
        claims ''email_verified'' = Some (ClaimBool True))"
proof -
  obtain m where m: "buildIdentities [(''782178815298-compute@developer.gserviceaccount.com'', shipped_entry)] False = Inr m"
    and look: "m ''782178815298-compute@developer.gserviceaccount.com'' = Some (identity_of shipped_entry)"
    by (simp add: buildIdentities_Inr map_key_def entry_ok_def shipped_entry_def)
  let ?A = "JWTAuthenticate m (googleTokenValidator sample_validate ''https://proxy'')"
  have new: "NewJWTAuthenticatorFromFile (Inr sample_validate) (\<lambda>_. Inr shipped_file) ''f'' ''https://proxy'' = Inr ?A"
    by (simp add: NewJWTAuthenticatorFromFile_def loadAuthFile_def shipped_file_decoded m)
  have auth: "?A ''jwt'' = Inr (identity_of shipped_entry)"
    by (simp add: JWTAuthenticate_def googleTokenValidator_def sample_validate_def claim_bool_def
        claim_string_def look identity_of_def shipped_entry_def)
  have valid: "id_valid (identity_of shipped_entry)" by (simp add: identity_of_def)
  from jwt_sound [OF new auth valid] new auth valid show ?thesis by blast
qed

end
