(* ===== verification/Utf8_Decoding.thy ===== *)
theory Utf8_Decoding
  imports Auth_File
begin

section \<open>Decoded strings are valid UTF-8\<close>

text \<open>
  \<open>encoding/json\<close> replaces what is not UTF-8, so every string it decodes is valid, and with it every
  namespace and task queue of an auth file.  This is what the Valkey store needs: it represents
  exactly the entries whose strings are valid UTF-8.
\<close>

lemma valid_utf8_step:
  "s \<noteq> [] \<Longrightarrow> 0 < rune_len s \<Longrightarrow> valid_utf8 s = valid_utf8 (drop (rune_len s) s)"
  by (subst valid_utf8.simps) simp

lemma valid_utf8_Nil [simp]: "valid_utf8 []"
  by (simp add: valid_utf8.simps)

lemma valid_utf8_one:
  assumes "rune_len s = length s"
  shows "valid_utf8 s"
proof (cases "s = []")
  case False
  with assms show ?thesis by (subst valid_utf8.simps) simp
qed simp

lemma valid_utf8_append: "valid_utf8 a \<Longrightarrow> valid_utf8 b \<Longrightarrow> valid_utf8 (a @ b)"
proof (induction a rule: valid_utf8.induct)
  case (1 s)
  show ?case
  proof (cases "s = []")
    case False
    with 1(2) have n: "0 < rune_len s" and v: "valid_utf8 (drop (rune_len s) s)"
      by (subst (asm) valid_utf8.simps, simp split: if_splits)+
    have le: "rune_len s \<le> length s" by (rule rune_len_le)
    have r: "rune_len (s @ b) = rune_len s"
      using rune_len_append [OF n, of "drop (rune_len s) s @ b"]
      by (simp only: append_assoc [symmetric] append_take_drop_id)
    have "valid_utf8 (drop (rune_len s) s @ b)" using 1(1) False n v 1(3) by simp
    with n r le False show ?thesis by (subst valid_utf8_step) simp_all
  qed (use 1 in simp)
qed

lemma ord_char_of: "n < 256 \<Longrightarrow> ord (char_of n) = (n :: nat)"
  by simp

lemma second_digit:
  fixes r :: nat
  assumes "r < 4096 * k + 64 * m" and "4096 * k \<le> r"
  shows "r div 64 mod 64 < m"
proof -
  have "r div 64 < 64 * k + m" using assms(1) by (simp add: div_less_iff_less_mult algebra_simps)
  moreover have "64 * k \<le> r div 64" using assms(2) by (simp add: less_eq_div_iff_mult_less_eq algebra_simps)
  ultimately obtain j where "r div 64 = j + 64 * k" and "j < m"
    by (metis add.commute le_Suc_ex nat_add_left_cancel_less)
  then have "r div 64 mod 64 = j mod 64" by simp
  then show ?thesis using \<open>j < m\<close> by (metis mod_less_eq_dividend order_le_less_trans)
qed

lemmas rune_defs = rune_len_def rune_width_def in_range_def second_range_def continuation_def

lemma rune_len_two:
  assumes "0x80 \<le> r" and "r < 0x800"
  shows "rune_len (encode_rune r) = 2"
proof -
  define c d where "c = 0xC0 + r div 64" and "d = 0x80 + r mod 64"
  have "0xC2 \<le> c" "c \<le> 0xDF" "0x80 \<le> d" "d \<le> 0xBF" using assms by (auto simp: c_def d_def)
  moreover have "encode_rune r = [char_of c, char_of d]"
    using assms by (simp add: encode_rune_def c_def d_def)
  ultimately show ?thesis by (simp add: rune_defs ord_char_of)
qed

text \<open>The second byte of a surrogate would be out of range.\<close>

lemma second_byte_three:
  assumes "r div 4096 = 13" and "\<not> surrogate r" and "r < 0x10000"
  shows "0x80 + r div 64 mod 64 \<le> 0x9F"
proof -
  have "0xD000 \<le> r" "r < 0xE000" using assms(1) by linarith+
  with assms(2) have "r < 0xD800" by (simp add: surrogate_def)
  with second_digit [of r 13 32] \<open>0xD000 \<le> r\<close> show ?thesis by simp
qed

lemma rune_len_three:
  assumes "0x800 \<le> r" and "r < 0x10000" and "\<not> surrogate r"
  shows "rune_len (encode_rune r) = 3"
proof -
  define c d e where "c = 0xE0 + r div 4096" and "d = 0x80 + r div 64 mod 64" and "e = 0x80 + r mod 64"
  have b: "0xE0 \<le> c" "c \<le> 0xEF" "0x80 \<le> d" "d \<le> 0xBF" "0x80 \<le> e" "e \<le> 0xBF"
    using assms by (auto simp: c_def d_def e_def)
  have "c = 0xE0 \<Longrightarrow> 0xA0 \<le> d" using assms by (auto simp: c_def d_def)
  moreover have "c = 0xED \<Longrightarrow> d \<le> 0x9F"
    using second_byte_three [OF _ assms(3,2)] by (simp add: c_def d_def)
  moreover have "encode_rune r = [char_of c, char_of d, char_of e]"
    using assms by (simp add: encode_rune_def c_def d_def e_def)
  ultimately show ?thesis using b by (simp add: rune_defs ord_char_of)
qed

lemma second_byte_four:
  assumes "r div 262144 = 4" and "r < 0x110000"
  shows "0x80 + r div 4096 mod 64 \<le> (0x8F :: nat)"
proof -
  have less: "r div 4096 < 272" using assms(2) by (simp add: div_less_iff_less_mult)
  moreover have "256 \<le> r div 4096" using assms(1) by linarith
  ultimately have "r div 4096 mod 64 = r div 4096 - 256" by (simp add: le_mod_geq)
  with less show ?thesis by simp
qed

lemma rune_len_four:
  assumes "0x10000 \<le> r" and "r < 0x110000"
  shows "rune_len (encode_rune r) = 4"
proof -
  define c d e f where "c = 0xF0 + r div 262144" and "d = 0x80 + r div 4096 mod 64"
    and "e = 0x80 + r div 64 mod 64" and "f = 0x80 + r mod 64"
  have b: "0xF0 \<le> c" "c \<le> 0xF4" "0x80 \<le> d" "d \<le> 0xBF" "0x80 \<le> e" "e \<le> 0xBF" "0x80 \<le> f" "f \<le> 0xBF"
    using assms by (auto simp: c_def d_def e_def f_def)
  have "c = 0xF0 \<Longrightarrow> 0x90 \<le> d" using assms by (auto simp: c_def d_def)
  moreover have "c = 0xF4 \<Longrightarrow> d \<le> 0x8F"
    using second_byte_four [OF _ assms(2)] by (simp add: c_def d_def)
  moreover have "encode_rune r = [char_of c, char_of d, char_of e, char_of f]"
    using assms by (simp add: encode_rune_def c_def d_def e_def f_def)
  ultimately show ?thesis using b by (simp add: rune_defs ord_char_of)
qed

lemma valid_encode_rune:
  assumes "r < 0x110000" and "\<not> surrogate r"
  shows "valid_utf8 (encode_rune r)"
proof (rule valid_utf8_one)
  consider "r < 0x80" | "0x80 \<le> r" "r < 0x800" | "0x800 \<le> r" "r < 0x10000" | "0x10000 \<le> r"
    by linarith
  then show "rune_len (encode_rune r) = length (encode_rune r)"
    by cases (use assms in \<open>simp_all add: rune_len_two rune_len_three rune_len_four\<close>,
      simp_all add: encode_rune_def)
qed

lemma valid_replacement [simp]: "valid_utf8 replacement"
  unfolding replacement_def by (rule valid_encode_rune) (simp_all add: surrogate_def)

lemma valid_ascii: "ord c < 0x80 \<Longrightarrow> valid_utf8 [c]"
  by (rule valid_utf8_one) simp

lemma valid_Cons: "ord c < 0x80 \<Longrightarrow> valid_utf8 s \<Longrightarrow> valid_utf8 (c # s)"
  using valid_utf8_append [OF valid_ascii] by simp

lemma hex_value_less: "hex_value c = Some n \<Longrightarrow> n < 16"
  by (auto simp: hex_value_def in_range_def split: if_splits)

lemma getu4_less: "getu4 s = Some (n, r) \<Longrightarrow> n < 0x10000"
  by (auto simp: getu4_def dest!: hex_value_less split: list.splits option.splits)

lemma pair_less: "a < 56320 \<Longrightarrow> b < 57344 \<Longrightarrow> (a - 55296) * 1024 + b < (1104896 :: nat)"
  by linarith

lemma unescape_u_valid: "unescape_u s = Some (d, r) \<Longrightarrow> valid_utf8 d"
  by (auto simp: pair_less simp: unescape_u_def surrogate_def dest!: getu4_less intro!: valid_encode_rune
      split: option.splits if_splits list.splits)

lemma unescape_valid: "unescape s = Some (d, r) \<Longrightarrow> valid_utf8 d"
  by (auto simp: unescape_def intro!: valid_ascii dest: unescape_u_valid split: list.splits if_splits)

lemma unquote_valid: "unquote s = Some (d, r) \<Longrightarrow> valid_utf8 d"
proof (induction s arbitrary: d r rule: unquote.induct)
  case 1
  then show ?case by (simp add: unquote.simps)
next
  case (2 c s)
  have one: "valid_utf8 (take (rune_len (c # s)) (c # s))" if "0 < rune_len (c # s)"
    using rune_len_append [OF that, of "[]"] rune_len_le [of "c # s"]
    by (intro valid_utf8_one) simp
  from 2 one show ?case
    by (subst (asm) unquote.simps)
      (auto intro!: valid_utf8_append intro: valid_Cons dest: unescape_valid
        split: if_splits option.splits)
qed

subsection \<open>Through the parser\<close>

fun token_valid :: "token \<Rightarrow> bool" where
  "token_valid (TString s) = valid_utf8 s"
| "token_valid _ = True"

fun json_valid :: "json \<Rightarrow> bool" where
  "json_valid (JString s) = valid_utf8 s"
| "json_valid (JArray vs) = (\<forall>v \<in> set vs. json_valid v)"
| "json_valid (JObject kvs) = (\<forall>kv \<in> set kvs. valid_utf8 (fst kv) \<and> json_valid (snd kv))"
| "json_valid _ = True"

abbreviation fields_valid :: "(string \<times> json) list \<Rightarrow> bool" where
  "fields_valid kvs \<equiv> \<forall>kv \<in> set kvs. valid_utf8 (fst kv) \<and> json_valid (snd kv)"

fun frame_valid :: "frame \<Rightarrow> bool" where
  "frame_valid (InArray vs) = (\<forall>v \<in> set vs. json_valid v)"
| "frame_valid (InObject kvs) = fields_valid kvs"
| "frame_valid (InField kvs k) = (fields_valid kvs \<and> valid_utf8 k)"

fun mode_valid :: "mode \<Rightarrow> bool" where
  "mode_valid (WantColon k) = valid_utf8 k"
| "mode_valid (Got v) = json_valid v"
| "mode_valid _ = True"

lemma next_token_valid: "next_token c s = Some (t, r) \<Longrightarrow> token_valid t"
  by (auto simp: next_token_def punctuation_def keyword_def dest: unquote_valid
      split: option.splits if_splits)

lemma tokenize_valid: "tokenize s = Some ts \<Longrightarrow> t \<in> set ts \<Longrightarrow> token_valid t"
  by (induction s arbitrary: ts rule: tokenize.induct)
    (auto dest: next_token_valid split: if_splits option.splits)

lemma value_token_valid:
  "value_token t fs = Some (m, fs') \<Longrightarrow> token_valid t \<Longrightarrow> list_all frame_valid fs \<Longrightarrow>
   mode_valid m \<and> list_all frame_valid fs'"
  by (induction t fs rule: value_token.induct) (auto simp: open_frame_def split: if_splits)

lemma parse_step_valid:
  assumes "parse_step t m fs = Some (m', fs')" and "token_valid t" and "mode_valid m"
    and "list_all frame_valid fs"
  shows "mode_valid m' \<and> list_all frame_valid fs'"
  using assms
  by (cases m)
    (auto simp: close_empty_def after_value_def key_token_def after_key_def dest: value_token_valid
      split: if_splits list.splits frame.splits token.splits)

lemma parse_tokens_valid:
  "parse_tokens ts m fs = Some v \<Longrightarrow> \<forall>t \<in> set ts. token_valid t \<Longrightarrow> mode_valid m \<Longrightarrow>
   list_all frame_valid fs \<Longrightarrow> json_valid v"
proof (induction ts m fs rule: parse_tokens.induct)
  case (1 m fs)
  then show ?case by (auto split: mode.splits list.splits)
next
  case (2 t ts m fs)
  then show ?case by (auto dest: parse_step_valid split: option.splits)
qed

lemma parse_json_valid: "parse_json s = Some v \<Longrightarrow> json_valid v"
  by (auto simp: parse_json_def dest: tokenize_valid intro: parse_tokens_valid split: option.splits)

subsection \<open>Into the auth file\<close>

definition entry_utf8 :: "static_key_entry \<Rightarrow> bool" where
  "entry_utf8 e \<longleftrightarrow> valid_utf8 (ske_namespace e) \<and> (\<forall>q \<in> set (ske_task_queues e). valid_utf8 q)"

lemma decode_string_valid:
  "decode_string v old = Some s \<Longrightarrow> json_valid v \<Longrightarrow> valid_utf8 old \<Longrightarrow> valid_utf8 s"
  by (auto simp: decode_string_def split: json.splits)

lemma decode_elements_valid:
  "decode_elements vs old = Some qs \<Longrightarrow> \<forall>v \<in> set vs. json_valid v \<Longrightarrow> \<forall>q \<in> set old. valid_utf8 q \<Longrightarrow>
   \<forall>q \<in> set qs. valid_utf8 q"
proof (induction vs old arbitrary: qs rule: decode_elements.induct)
  case (2 v vs old)
  have "valid_utf8 (case old of [] \<Rightarrow> [] | q # _ \<Rightarrow> q)" and "\<forall>q \<in> set (tl old). valid_utf8 q"
    using "2.prems"(3) by (cases old; simp)+
  with 2 show ?case by (auto dest: decode_string_valid split: option.splits)
qed simp

lemma decode_strings_valid:
  "decode_strings v old = Some qs \<Longrightarrow> json_valid v \<Longrightarrow> \<forall>q \<in> set old. valid_utf8 q \<Longrightarrow>
   \<forall>q \<in> set qs. valid_utf8 q"
  using decode_elements_valid by (auto simp: decode_strings_def split: json.splits)

text \<open>A field decoder that keeps \<open>P\<close> gives a struct decoder that keeps \<open>P\<close>.\<close>

definition keeps :: "('a \<Rightarrow> bool) \<Rightarrow> 'a fields \<Rightarrow> bool" where
  "keeps P fs \<longleftrightarrow>
     (\<forall>(name, dec) \<in> set fs. \<forall>v x y. json_valid v \<longrightarrow> P x \<longrightarrow> dec v x = Some y \<longrightarrow> P y)"

lemma decode_fields_valid:
  assumes field: "keeps P fs"
  shows "decode_fields fs kvs old = Some new \<Longrightarrow> fields_valid kvs \<Longrightarrow> P old \<Longrightarrow> P new"
proof (induction kvs arbitrary: old)
  case (Cons kv kvs)
  obtain k v where kv: "kv = (k, v)" by (cases kv)
  then have v: "json_valid v" and kvs: "fields_valid kvs" using Cons.prems(2) by simp_all
  show ?case
  proof (cases "find (\<lambda>(name, _). foldName name = foldName k) fs")
    case None
    with Cons.prems(1) kv have "decode_fields fs kvs old = Some new" by simp
    then show ?thesis by (rule Cons.IH [OF _ kvs Cons.prems(3)])
  next
    case (Some nd)
    obtain name dec where nd: "nd = (name, dec)" by (cases nd)
    with Some have nd_in: "(name, dec) \<in> set fs" by (auto simp: find_Some_iff) (metis nth_mem)
    from Some nd kv Cons.prems(1) obtain mid where "dec v old = Some mid"
      and "decode_fields fs kvs mid = Some new" by (auto split: option.splits)
    then show ?thesis using field nd_in v Cons.prems(3) Cons.IH [OF _ kvs] unfolding keeps_def by blast
  qed
qed simp

lemma decode_struct_valid:
  "decode_struct fs v old = Some new \<Longrightarrow> json_valid v \<Longrightarrow> P old \<Longrightarrow> keeps P fs \<Longrightarrow> P new"
  by (cases v) (auto simp: decode_struct_def dest: decode_fields_valid)

lemma entry_fields_keep: "keeps entry_utf8 entry_fields"
  by (auto simp: keeps_def entry_fields_def entry_utf8_def dest: decode_string_valid decode_strings_valid)

lemma decode_key_entry_valid: "decode_key_entry v = Some e \<Longrightarrow> json_valid v \<Longrightarrow> entry_utf8 e"
  unfolding decode_key_entry_def
  by (erule decode_struct_valid) (simp_all add: entry_fields_keep, simp add: entry_utf8_def zero_entry_def)

definition entries_utf8 :: "(string \<times> static_key_entry) list \<Rightarrow> bool" where
  "entries_utf8 es \<longleftrightarrow> (\<forall>ke \<in> set es. entry_utf8 (snd ke))"

lemma entries_utf8_Nil: "entries_utf8 []"
  by (simp add: entries_utf8_def)

lemma decode_entries_valid:
  "decode_entries decode_key_entry kvs old = Some new \<Longrightarrow> fields_valid kvs \<Longrightarrow>
   entries_utf8 old \<Longrightarrow> entries_utf8 new"
proof (induction kvs arbitrary: old)
  case (Cons kv kvs)
  obtain k v where kv: "kv = (k, v)" by (cases kv)
  with Cons.prems obtain e where "decode_key_entry v = Some e"
    and rest: "decode_entries decode_key_entry kvs (AList.update k e old) = Some new"
    by (auto split: option.splits)
  then have "entry_utf8 e" using Cons.prems(2) kv by (auto intro: decode_key_entry_valid)
  moreover have "set (AList.update k e old) \<subseteq> insert (k, e) (set old)"
    by (induction old) auto
  ultimately have "entries_utf8 (AList.update k e old)"
    using Cons.prems(3) unfolding entries_utf8_def by fastforce
  from Cons.IH [OF rest _ this] Cons.prems(2) show ?case by simp
qed simp

lemma decode_map_valid:
  "decode_map decode_key_entry v old = Some new \<Longrightarrow> json_valid v \<Longrightarrow> entries_utf8 old \<Longrightarrow>
   entries_utf8 new"
  by (cases v) (auto simp: decode_map_def entries_utf8_Nil intro: decode_entries_valid)

definition config_utf8 :: "auth_file_config \<Rightarrow> bool" where
  "config_utf8 cfg \<longleftrightarrow> entries_utf8 (afc_keys cfg) \<and> entries_utf8 (afc_emails cfg)"

lemma auth_file_fields_keep: "keeps config_utf8 auth_file_fields"
  by (auto simp: keeps_def auth_file_fields_def config_utf8_def intro: decode_map_valid)

lemma decode_auth_file_valid:
  assumes "decode_auth_file data = Some cfg"
  shows "config_utf8 cfg"
proof -
  from assms obtain v where "parse_json data = Some v"
    and dec: "decode_struct auth_file_fields v \<lparr>afc_keys = [], afc_emails = []\<rparr> = Some cfg"
    by (auto simp: decode_auth_file_def split: option.splits)
  then have "json_valid v" by (blast intro: parse_json_valid)
  from decode_struct_valid [where P = config_utf8, OF dec this _ auth_file_fields_keep]
  show ?thesis by (simp add: config_utf8_def entries_utf8_Nil)
qed

end
