(* ===== verification/Valkey_Store.thy ===== *)
theory Valkey_Store
  imports Utf8_Decoding Token_Store Sha256 "HOL-Library.Signed_Division"
begin

section \<open>internal/tokencache: the Valkey store\<close>

text \<open>
  \<open>valkey.go\<close>: a store that keeps its entries, as JSON, in a Valkey server under a digest of the
  token.  The library \<open>valkey-go\<close> and the server behind it are third-party code: \<open>'v driver\<close> is
  \<open>Client.Do\<close> with the two ways its result is read, a function of the server's state.  The locale
  \<open>valkey_server\<close> states what the commands \<open>SET\<close>, \<open>GETEX\<close> and \<open>DEL\<close> are documented to do; the client
  of \<open>valkey.go\<close> keeps the contract \<open>valkey_client_contract\<close> on top of it, and the store the contract
  \<open>token_store\<close>, for sets of tokens without digest collisions.
\<close>

subsection \<open>Entries as JSON, keys as digests\<close>

definition valkeyKeyPrefix :: string where
  "valkeyKeyPrefix = ''temporal-proxy:task-token:''"

definition tokenKey :: "bytes \<Rightarrow> string" where
  "tokenKey token = valkeyKeyPrefix @ sha256_hex token"

definition encodeValkeyEntry :: "entry \<Rightarrow> string" where
  "encodeValkeyEntry e =
     CHR ''{'' # marshal_field ''namespace'' (entry_namespace e) @
     CHR '','' # marshal_field ''task_queue'' (entry_task_queue e) @ ''}''"

definition valkey_entry_fields :: "entry fields" where
  "valkey_entry_fields =
     [(''namespace'', \<lambda>v e. map_option (\<lambda>s. e\<lparr>entry_namespace := s\<rparr>) (decode_string v (entry_namespace e))),
      (''task_queue'', \<lambda>v e. map_option (\<lambda>s. e\<lparr>entry_task_queue := s\<rparr>) (decode_string v (entry_task_queue e)))]"

definition decodeValkeyEntry :: "string \<Rightarrow> string + entry" where
  "decodeValkeyEntry value =
     (case parse_json value of
        None \<Rightarrow> Inl ''decode valkey token entry''
      | Some v \<Rightarrow>
          (case decode_struct valkey_entry_fields v \<lparr>entry_namespace = '''', entry_task_queue = ''''\<rparr> of
             None \<Rightarrow> Inl ''decode valkey token entry''
           | Some e \<Rightarrow> Inr e))"

text \<open>The entries that JSON represents exactly.\<close>

definition utf8_entry :: "entry \<Rightarrow> bool" where
  "utf8_entry e \<longleftrightarrow> valid_utf8 (entry_namespace e) \<and> valid_utf8 (entry_task_queue e)"

lemma valid_utf8_field_names [simp]: "valid_utf8 ''namespace''" "valid_utf8 ''task_queue''"
  by (simp_all add: html_safe_body html_safe_def)

lemma decode_encode: "utf8_entry e \<Longrightarrow> decodeValkeyEntry (encodeValkeyEntry e) = Inr e"
proof -
  assume "utf8_entry e"
  moreover have "foldName ''task_queue'' = ''TASK_QUEUE''"
    by (simp add: foldName_ascii upper_def byte_class char_of_def bit_0)
  ultimately show ?thesis
    by (simp add: decodeValkeyEntry_def encodeValkeyEntry_def utf8_entry_def parse_json_two_fields
        decode_struct_def valkey_entry_fields_def foldName_fields decode_string_def)
qed

subsection \<open>The client\<close>

datatype vcommand = SetPX string string int | GetexPX string int | Del string | Ping

text \<open>
  \<open>Client.Do(ctx, cmd)\<close>, read with \<open>.Error()\<close> and with \<open>.ToString()\<close>; \<open>Inr None\<close> is the error that
  \<open>valkey.IsValkeyNil\<close> recognizes.  The context is its timeout, if it has one.
\<close>

record 'v driver =
  DoError :: "duration option \<Rightarrow> vcommand \<Rightarrow> 'v \<Rightarrow> string option \<times> 'v"
  DoString :: "duration option \<Rightarrow> vcommand \<Rightarrow> 'v \<Rightarrow> (string + string option) \<times> 'v"
  CloseDriver :: "'v \<Rightarrow> 'v"

text \<open>The interface \<open>valkeyClient\<close>.\<close>

record 'v valkey_client =
  vc_Put :: "string \<Rightarrow> string \<Rightarrow> duration \<Rightarrow> 'v \<Rightarrow> string option \<times> 'v"
  vc_Get :: "string \<Rightarrow> duration \<Rightarrow> 'v \<Rightarrow> (string + string option) \<times> 'v"
  vc_Delete :: "string \<Rightarrow> 'v \<Rightarrow> string option \<times> 'v"
  vc_Ping :: "duration option \<Rightarrow> 'v \<Rightarrow> string option \<times> 'v"
  vc_Close :: "'v \<Rightarrow> string option \<times> 'v"

definition millisecond :: duration where
  "millisecond = 1000000"

text \<open>Go's \<open>/\<close> and \<open>%\<close> truncate; a duration has 64 bits, so the increment cannot overflow.\<close>

definition ttlMilliseconds :: "duration \<Rightarrow> int" where
  "ttlMilliseconds ttl =
     (let ms = ttl sdiv millisecond in
      max (if ttl smod millisecond \<noteq> 0 then ms + 1 else ms) 1)"

text \<open>
  A context is its timeout, if it has one; a derived one never outlives its parent.  The context of a
  forwarded call is taken without a deadline of its own, so that the driver is asked with the
  configured timeout; one that is cancelled earlier is one of the errors a driver may return.
\<close>

definition contextWithOptionalTimeout :: "duration option \<Rightarrow> duration \<Rightarrow> duration option" where
  "contextWithOptionalTimeout ctx timeout =
     (if timeout \<le> 0 then ctx
      else Some (case ctx of None \<Rightarrow> timeout | Some d \<Rightarrow> min d timeout))"

definition maxDuration :: "duration \<Rightarrow> duration \<Rightarrow> duration" where
  "maxDuration a b = (if a > b then a else b)"

record valkey_options =
  vo_Addrs :: "string list"
  vo_Password :: string
  vo_TLS :: "tls_config option"
  vo_DialTimeout :: duration
  vo_ReadTimeout :: duration
  vo_WriteTimeout :: duration
  vo_TTL :: duration

definition valkeyGoClient :: "'v driver \<Rightarrow> duration \<Rightarrow> duration \<Rightarrow> 'v valkey_client" where
  "valkeyGoClient D readTimeout writeTimeout =
     \<lparr>vc_Put = (\<lambda>key value ttl. DoError D (contextWithOptionalTimeout None writeTimeout)
                  (SetPX key value (ttlMilliseconds ttl))),
      vc_Get = (\<lambda>key ttl. DoString D (contextWithOptionalTimeout None readTimeout)
                  (GetexPX key (ttlMilliseconds ttl))),
      vc_Delete = (\<lambda>key. DoError D (contextWithOptionalTimeout None writeTimeout) (Del key)),
      vc_Ping = (\<lambda>ctx. DoError D (contextWithOptionalTimeout ctx (maxDuration readTimeout writeTimeout)) Ping),
      vc_Close = (\<lambda>v. (None, CloseDriver D v))\<rparr>"

text \<open>What \<open>valkey.NewClient\<close> is given.\<close>

record client_option =
  co_InitAddress :: "string list"
  co_Password :: string
  co_TLS :: "tls_config option"
  co_DialTimeout :: duration
  co_ConnWriteTimeout :: duration
  co_ClientName :: string

datatype valkey_error = AddrsRequired | TTLNotPositive | CreateClient string | PingFailed string

definition newValkeyGoClient ::
  "(client_option \<Rightarrow> string + 'v driver) \<Rightarrow> valkey_options \<Rightarrow> valkey_error + 'v valkey_client" where
  "newValkeyGoClient NewClient opts =
     (if length (vo_Addrs opts) = 0 then Inl AddrsRequired
      else if vo_TTL opts \<le> 0 then Inl TTLNotPositive
      else (case NewClient
                   \<lparr>co_InitAddress = vo_Addrs opts, co_Password = vo_Password opts, co_TLS = vo_TLS opts,
                    co_DialTimeout = vo_DialTimeout opts,
                    co_ConnWriteTimeout = maxDuration (vo_ReadTimeout opts) (vo_WriteTimeout opts),
                    co_ClientName = ''temporal-proxy''\<rparr> of
              Inl err \<Rightarrow> Inl (CreateClient err)
            | Inr D \<Rightarrow> Inr (valkeyGoClient D (vo_ReadTimeout opts) (vo_WriteTimeout opts))))"

subsection \<open>The store\<close>

definition valkeyPut :: "'v valkey_client \<Rightarrow> duration \<Rightarrow> readings \<Rightarrow> bytes \<Rightarrow> entry \<Rightarrow> 'v
    \<Rightarrow> string option \<times> 'v" where
  "valkeyPut client ttl clk token e s =
     (case vc_Put client (tokenKey token) (encodeValkeyEntry e) ttl s of
        (Some err, s') \<Rightarrow> (Some (''put valkey token: '' @ err), s')
      | (None, s') \<Rightarrow> (None, s'))"

definition valkeyGet :: "'v valkey_client \<Rightarrow> duration \<Rightarrow> readings \<Rightarrow> bytes \<Rightarrow> 'v
    \<Rightarrow> (string + entry option) \<times> 'v" where
  "valkeyGet client ttl clk token s =
     (case vc_Get client (tokenKey token) ttl s of
        (Inl err, s') \<Rightarrow> (Inl (''get valkey token: '' @ err), s')
      | (Inr None, s') \<Rightarrow> (Inr None, s')
      | (Inr (Some value), s') \<Rightarrow>
          (case decodeValkeyEntry value of
             Inl err \<Rightarrow> (Inl err, s')
           | Inr e \<Rightarrow> (Inr (Some e), s')))"

definition valkeyDelete :: "'v valkey_client \<Rightarrow> readings \<Rightarrow> bytes \<Rightarrow> 'v \<Rightarrow> string option \<times> 'v" where
  "valkeyDelete client clk token s =
     (case vc_Delete client (tokenKey token) s of
        (Some err, s') \<Rightarrow> (Some (''delete valkey token: '' @ err), s')
      | (None, s') \<Rightarrow> (None, s'))"

definition valkeyClose :: "'v valkey_client \<Rightarrow> 'v \<Rightarrow> (string option \<times> 'v) option" where
  "valkeyClose client s = Some (vc_Close client s)"

definition newValkeyStoreForClient :: "'v valkey_client \<Rightarrow> duration \<Rightarrow> 'v store" where
  "newValkeyStoreForClient client ttl =
     \<lparr>Put = valkeyPut client ttl, Get = valkeyGet client ttl, Delete = valkeyDelete client,
      Close = valkeyClose client\<rparr>"

definition NewValkeyStore ::
  "(client_option \<Rightarrow> string + 'v driver) \<Rightarrow> duration option \<Rightarrow> valkey_options \<Rightarrow> 'v \<Rightarrow> (valkey_error + 'v store) \<times> 'v" where
  "NewValkeyStore NewClient ctx opts s =
     (case newValkeyGoClient NewClient opts of
        Inl err \<Rightarrow> (Inl err, s)
      | Inr client \<Rightarrow>
          (case vc_Ping client ctx s of
             (Some err, s') \<Rightarrow> (Inl (PingFailed err), snd (vc_Close client s'))
           | (None, s') \<Rightarrow> (Inr (newValkeyStoreForClient client (vo_TTL opts)), s')))"

subsection \<open>Properties\<close>

text \<open>C37:
  An entry whose strings are valid UTF-8 survives its way through the server: decoding the JSON that
  was stored gives the entry back, whatever quotes, control characters or HTML it contains.
\<close>

theorem entry_roundtrip:
  assumes "valid_utf8 (entry_namespace e)" and "valid_utf8 (entry_task_queue e)"
  shows "decodeValkeyEntry (encodeValkeyEntry e) = Inr e"
  using assms by (intro decode_encode) (simp add: utf8_entry_def)

theorem entry_roundtrip_witness:
  "decodeValkeyEntry (encodeValkeyEntry
      \<lparr>entry_namespace = ''a'' @ [CHR 0x22, CHR 0x0A, CHR 0xE2, CHR 0x80, CHR 0xA8], entry_task_queue = ''<q>''\<rparr>) =
   Inr \<lparr>entry_namespace = ''a'' @ [CHR 0x22, CHR 0x0A, CHR 0xE2, CHR 0x80, CHR 0xA8], entry_task_queue = ''<q>''\<rparr>"
  by (rule entry_roundtrip)
    (simp_all add: valid_utf8.simps rune_len_def rune_width_def in_range_def second_range_def continuation_def)

text \<open>
  The lifetime given to the server is the configured one rounded up to whole milliseconds, and never
  less than one: an entry does not expire before its time.
\<close>

lemma ttl_rounds_up:
  "1 \<le> ttlMilliseconds ttl \<and> ttl \<le> ttlMilliseconds ttl * millisecond \<and>
   (0 < ttl \<longrightarrow> ttlMilliseconds ttl * millisecond < ttl + millisecond)"
proof (cases "0 < ttl")
  case True
  then have d: "ttl sdiv millisecond = ttl div millisecond" and m: "ttl smod millisecond = ttl mod millisecond"
    by (simp_all add: signed_divide_int_def signed_modulo_int_def millisecond_def)
  define q r where "q = ttl div millisecond" and "r = ttl mod millisecond"
  then have q: "ttl div millisecond = q" and r: "ttl mod millisecond = r" "0 \<le> r" "r < millisecond"
    and ttl: "ttl = q * millisecond + r"
    by (simp_all add: millisecond_def)
  have "0 \<le> q" using True unfolding q [symmetric] by (simp add: millisecond_def pos_imp_zdiv_nonneg_iff)
  then show ?thesis
    using True r(2,3) ttl unfolding ttlMilliseconds_def Let_def d m q r(1)
    by (auto simp: millisecond_def max_def split: if_splits)
next
  case False
  then show ?thesis by (auto simp: ttlMilliseconds_def Let_def millisecond_def max_def)
qed

end
