(* ===== verification/Valkey_Contract.thy ===== *)
theory Valkey_Contract
  imports Valkey_Store
begin

section \<open>The Valkey store keeps the contract of the interface Store\<close>

text \<open>
  Three interfaces on top of each other: the server's commands (\<open>valkey_server\<close>, third-party code),
  the interface \<open>valkeyClient\<close> (\<open>valkey_client_contract\<close>), and the interface \<open>Store\<close> (\<open>token_store\<close>).
  Each is obtained from the one below by a \<open>sublocale\<close>.  A command that reports an error may still
  have been executed by the server, and an entry may expire or be evicted at any time.
\<close>

locale valkey_server =
  fixes D :: "'v driver"
    and v_ok :: "'v \<Rightarrow> bool"
    and v_held :: "'v \<Rightarrow> string \<Rightarrow> string option"
    and v_drift :: "'v \<Rightarrow> 'v \<Rightarrow> bool"
  assumes set_ok: "v_ok v \<Longrightarrow> 0 < px \<Longrightarrow> DoError D tmo (SetPX k x px) v = (r, v') \<Longrightarrow> v_ok v'"
    and set_held: "v_ok v \<Longrightarrow> 0 < px \<Longrightarrow> DoError D tmo (SetPX k x px) v = (r, v') \<Longrightarrow>
          v_held v' k' = Some y \<Longrightarrow> v_held v k' = Some y \<or> k' = k \<and> y = x"
    and set_overwrites: "v_ok v \<Longrightarrow> 0 < px \<Longrightarrow> DoError D tmo (SetPX k x px) v = (None, v') \<Longrightarrow>
          v_held v' k = Some y \<Longrightarrow> y = x"
    and getex_ok: "v_ok v \<Longrightarrow> 0 < px \<Longrightarrow> DoString D tmo (GetexPX k px) v = (g, v') \<Longrightarrow> v_ok v'"
    and getex_hit: "v_ok v \<Longrightarrow> 0 < px \<Longrightarrow> DoString D tmo (GetexPX k px) v = (Inr (Some x), v') \<Longrightarrow>
          v_held v k = Some x"
    and getex_held: "v_ok v \<Longrightarrow> 0 < px \<Longrightarrow> DoString D tmo (GetexPX k px) v = (g, v') \<Longrightarrow>
          v_held v' k' = Some y \<Longrightarrow> v_held v k' = Some y"
    and del_ok: "v_ok v \<Longrightarrow> DoError D tmo (Del k) v = (r, v') \<Longrightarrow> v_ok v'"
    and del_held: "v_ok v \<Longrightarrow> DoError D tmo (Del k) v = (r, v') \<Longrightarrow>
          v_held v' k' = Some y \<Longrightarrow> v_held v k' = Some y"
    and del_forgets: "v_ok v \<Longrightarrow> DoError D tmo (Del k) v = (None, v') \<Longrightarrow> v_held v' k = None"
    and ping_ok: "v_ok v \<Longrightarrow> DoError D tmo Ping v = (r, v') \<Longrightarrow> v_ok v'"
    and ping_held: "v_ok v \<Longrightarrow> DoError D tmo Ping v = (r, v') \<Longrightarrow>
          v_held v' k = Some y \<Longrightarrow> v_held v k = Some y"
    and v_drift_ok: "v_ok v \<Longrightarrow> v_drift v v' \<Longrightarrow> v_ok v'"
    and v_drift_held: "v_ok v \<Longrightarrow> v_drift v v' \<Longrightarrow> v_held v' k = Some y \<Longrightarrow> v_held v k = Some y"

locale valkey_client_contract =
  fixes client :: "'v valkey_client"
    and c_ok :: "'v \<Rightarrow> bool"
    and c_held :: "'v \<Rightarrow> string \<Rightarrow> string option"
    and c_drift :: "'v \<Rightarrow> 'v \<Rightarrow> bool"
  assumes put_ok: "c_ok v \<Longrightarrow> vc_Put client k x ttl v = (r, v') \<Longrightarrow> c_ok v'"
    and put_held: "c_ok v \<Longrightarrow> vc_Put client k x ttl v = (r, v') \<Longrightarrow>
          c_held v' k' = Some y \<Longrightarrow> c_held v k' = Some y \<or> k' = k \<and> y = x"
    and put_overwrites: "c_ok v \<Longrightarrow> vc_Put client k x ttl v = (None, v') \<Longrightarrow>
          c_held v' k = Some y \<Longrightarrow> y = x"
    and get_ok: "c_ok v \<Longrightarrow> vc_Get client k ttl v = (g, v') \<Longrightarrow> c_ok v'"
    and get_hit: "c_ok v \<Longrightarrow> vc_Get client k ttl v = (Inr (Some x), v') \<Longrightarrow> c_held v k = Some x"
    and get_held: "c_ok v \<Longrightarrow> vc_Get client k ttl v = (g, v') \<Longrightarrow>
          c_held v' k' = Some y \<Longrightarrow> c_held v k' = Some y"
    and delete_ok: "c_ok v \<Longrightarrow> vc_Delete client k v = (r, v') \<Longrightarrow> c_ok v'"
    and delete_held: "c_ok v \<Longrightarrow> vc_Delete client k v = (r, v') \<Longrightarrow>
          c_held v' k' = Some y \<Longrightarrow> c_held v k' = Some y"
    and delete_forgets: "c_ok v \<Longrightarrow> vc_Delete client k v = (None, v') \<Longrightarrow> c_held v' k = None"
    and c_drift_ok: "c_ok v \<Longrightarrow> c_drift v v' \<Longrightarrow> c_ok v'"
    and c_drift_held: "c_ok v \<Longrightarrow> c_drift v v' \<Longrightarrow> c_held v' k = Some y \<Longrightarrow> c_held v k = Some y"

subsection \<open>The client on the server\<close>

lemma ttlMilliseconds_pos: "0 < ttlMilliseconds ttl"
  by (simp add: ttlMilliseconds_def Let_def)

sublocale valkey_server \<subseteq> go: valkey_client_contract "valkeyGoClient D rt wt" v_ok v_held v_drift for rt wt
  by unfold_locales
    (auto simp: valkeyGoClient_def del_forgets
      dest: set_ok [OF _ ttlMilliseconds_pos] set_held [OF _ ttlMilliseconds_pos]
        set_overwrites [OF _ ttlMilliseconds_pos] getex_ok [OF _ ttlMilliseconds_pos]
        getex_hit [OF _ ttlMilliseconds_pos] getex_held [OF _ ttlMilliseconds_pos]
        del_ok del_held v_drift_ok v_drift_held)

subsection \<open>The store on the client\<close>

text \<open>What the store holds for a token: what the server has under its digest, decoded.\<close>

definition decoded :: "string option \<Rightarrow> entry option" where
  "decoded x = (case x of None \<Rightarrow> None
     | Some value \<Rightarrow> (case decodeValkeyEntry value of Inl err \<Rightarrow> None | Inr e \<Rightarrow> Some e))"

definition valkey_holds :: "('v \<Rightarrow> string \<Rightarrow> string option) \<Rightarrow> 'v \<Rightarrow> bytes \<Rightarrow> entry option" where
  "valkey_holds held v t = decoded (held v (tokenKey t))"

lemma decoded_Some: "decoded x = Some e \<longleftrightarrow> (\<exists>value. x = Some value \<and> decodeValkeyEntry value = Inr e)"
  by (auto simp: decoded_def split: option.splits sum.splits)

lemma decoded_encode: "utf8_entry e \<Longrightarrow> decoded (Some (encodeValkeyEntry e)) = Some e"
  by (simp add: decoded_Some decode_encode)

lemma tokenKey_inj_digest: "tokenKey t = tokenKey u \<longleftrightarrow> sha256_hex t = sha256_hex u"
  by (simp add: tokenKey_def)

lemma valkeyPut_client:
  "Put (newValkeyStoreForClient client ttl) clk t e v = (r, v') \<longleftrightarrow>
   (\<exists>r0. vc_Put client (tokenKey t) (encodeValkeyEntry e) ttl v = (r0, v') \<and>
      r = map_option (\<lambda>err. ''put valkey token: '' @ err) r0)"
  by (auto simp: newValkeyStoreForClient_def valkeyPut_def split: prod.splits option.splits)

lemma valkeyDelete_client:
  "Delete (newValkeyStoreForClient client ttl) clk t v = (r, v') \<longleftrightarrow>
   (\<exists>r0. vc_Delete client (tokenKey t) v = (r0, v') \<and>
      r = map_option (\<lambda>err. ''delete valkey token: '' @ err) r0)"
  by (auto simp: newValkeyStoreForClient_def valkeyDelete_def split: prod.splits option.splits)

lemma valkeyGet_client:
  "Get (newValkeyStoreForClient client ttl) clk t v = (g, v') \<Longrightarrow>
   \<exists>g0. vc_Get client (tokenKey t) ttl v = (g0, v') \<and>
     (\<forall>e. g = Inr (Some e) \<longrightarrow> (\<exists>x. g0 = Inr (Some x) \<and> decodeValkeyEntry x = Inr e))"
  by (auto simp: newValkeyStoreForClient_def valkeyGet_def
      split: prod.splits sum.splits option.splits)

locale valkey_tokens = valkey_client_contract client c_ok c_held c_drift
  for client :: "'v valkey_client" and c_ok :: "'v \<Rightarrow> bool"
    and c_held :: "'v \<Rightarrow> string \<Rightarrow> string option" and c_drift :: "'v \<Rightarrow> 'v \<Rightarrow> bool" +
  fixes U :: "bytes set"
  assumes no_collision: "inj_on sha256_hex U"
begin

lemma tokenKey_eq: "t \<in> U \<Longrightarrow> u \<in> U \<Longrightarrow> tokenKey t = tokenKey u \<longleftrightarrow> t = u"
  using no_collision by (auto simp: tokenKey_inj_digest inj_on_def)

lemma store_put_holds:
  assumes "c_ok v" and "utf8_entry e" and "t \<in> U" and "u \<in> U"
    and "Put (newValkeyStoreForClient client ttl) clk t e v = (r, v')"
    and "valkey_holds c_held v' u = Some f"
  shows "valkey_holds c_held v u = Some f \<or> u = t \<and> f = e"
proof -
  from assms(5) obtain r0 where
    put: "vc_Put client (tokenKey t) (encodeValkeyEntry e) ttl v = (r0, v')"
    by (auto simp: valkeyPut_client)
  from assms(6) obtain x where x: "c_held v' (tokenKey u) = Some x" "decodeValkeyEntry x = Inr f"
    by (auto simp: valkey_holds_def decoded_Some)
  from put_held [OF assms(1) put x(1)] show ?thesis
  proof
    assume "c_held v (tokenKey u) = Some x"
    with x show ?thesis by (simp add: valkey_holds_def decoded_Some)
  next
    assume "tokenKey u = tokenKey t \<and> x = encodeValkeyEntry e"
    with x(2) show ?thesis using tokenKey_eq [OF assms(4,3)] decode_encode [OF assms(2)] by auto
  qed
qed

lemma store_put_overwrites:
  assumes "c_ok v" and "utf8_entry e" and "t \<in> U"
    and "Put (newValkeyStoreForClient client ttl) clk t e v = (None, v')"
    and "valkey_holds c_held v' t = Some f"
  shows "f = e"
proof -
  from assms(4,5) obtain x where "vc_Put client (tokenKey t) (encodeValkeyEntry e) ttl v = (None, v')"
    and "c_held v' (tokenKey t) = Some x" and "decodeValkeyEntry x = Inr f"
    by (auto simp: valkeyPut_client valkey_holds_def decoded_Some)
  with put_overwrites [OF assms(1)] decode_encode [OF assms(2)] show ?thesis by force
qed

lemma store_get_hit:
  assumes "c_ok v" and "t \<in> U"
    and "Get (newValkeyStoreForClient client ttl) clk t v = (Inr (Some e), v')"
  shows "valkey_holds c_held v t = Some e"
proof -
  from valkeyGet_client [OF assms(3)] obtain x where
    "vc_Get client (tokenKey t) ttl v = (Inr (Some x), v')" and "decodeValkeyEntry x = Inr e" by auto
  with get_hit [OF assms(1)] show ?thesis by (auto simp: valkey_holds_def decoded_Some)
qed

text \<open>A step that only loses keys only loses entries.\<close>

lemma holds_lose:
  "(\<And>k y. c_held v' k = Some y \<Longrightarrow> c_held v k = Some y) \<Longrightarrow> valkey_holds c_held v' u = Some f \<Longrightarrow>
   valkey_holds c_held v u = Some f"
  by (auto simp: valkey_holds_def decoded_Some)

lemma store_get_holds:
  assumes "c_ok v" and "t \<in> U" and "u \<in> U"
    and "Get (newValkeyStoreForClient client ttl) clk t v = (g, v')"
    and "valkey_holds c_held v' u = Some f"
  shows "valkey_holds c_held v u = Some f"
proof -
  from valkeyGet_client [OF assms(4)] obtain g0 where "vc_Get client (tokenKey t) ttl v = (g0, v')"
    by (elim exE conjE)
  from get_held [OF assms(1) this] show ?thesis by (rule holds_lose [OF _ assms(5)])
qed

lemma store_delete_holds:
  assumes "c_ok v" and "t \<in> U" and "u \<in> U"
    and "Delete (newValkeyStoreForClient client ttl) clk t v = (r, v')"
    and "valkey_holds c_held v' u = Some f"
  shows "valkey_holds c_held v u = Some f"
proof -
  from assms(4) obtain r0 where "vc_Delete client (tokenKey t) v = (r0, v')"
    by (auto simp: valkeyDelete_client)
  from delete_held [OF assms(1) this] show ?thesis by (rule holds_lose [OF _ assms(5)])
qed

lemma store_delete_forgets:
  assumes "c_ok v" and "t \<in> U" and "Delete (newValkeyStoreForClient client ttl) clk t v = (None, v')"
  shows "valkey_holds c_held v' t = None"
  using assms(3) delete_forgets [OF assms(1)]
  by (auto simp: valkeyDelete_client valkey_holds_def decoded_def)

lemma store_drift_holds:
  "c_ok v \<Longrightarrow> u \<in> U \<Longrightarrow> c_drift v v' \<Longrightarrow> valkey_holds c_held v' u = Some f \<Longrightarrow>
   valkey_holds c_held v u = Some f"
  by (blast intro: holds_lose c_drift_held)

lemma store_ok:
  "c_ok v \<Longrightarrow> Put (newValkeyStoreForClient client ttl) clk t e v = (r, v') \<Longrightarrow> c_ok v'"
  "c_ok v \<Longrightarrow> Get (newValkeyStoreForClient client ttl) clk t v = (g, v') \<Longrightarrow> c_ok v'"
  "c_ok v \<Longrightarrow> Delete (newValkeyStoreForClient client ttl) clk t v = (r, v') \<Longrightarrow> c_ok v'"
  by (auto simp: valkeyPut_client valkeyDelete_client dest: put_ok get_ok delete_ok
      dest!: valkeyGet_client)

end

lemma valkey_tokens_store:
  assumes "valkey_tokens client c_ok c_held c_drift U"
  shows "token_store (newValkeyStoreForClient client ttl) U utf8_entry c_ok (valkey_holds c_held) c_drift"
proof -
  have contract: "valkey_client_contract client c_ok c_held c_drift"
    using assms by (simp add: valkey_tokens_def)
  note laws = valkey_tokens.store_ok valkey_tokens.store_put_holds valkey_tokens.store_put_overwrites
    valkey_tokens.store_get_hit valkey_tokens.store_get_holds valkey_tokens.store_delete_holds
    valkey_tokens.store_delete_forgets valkey_tokens.store_drift_holds
  show ?thesis
    by (rule token_store.intro)
      (fact laws [OF assms] valkey_client_contract.c_drift_ok [OF contract])+
qed

sublocale valkey_tokens \<subseteq> st: token_store "newValkeyStoreForClient client ttl" U utf8_entry c_ok
    "valkey_holds c_held" c_drift for ttl
  by (rule valkey_tokens_store) unfold_locales

subsection \<open>A server that keeps the laws\<close>

text \<open>
  Keys with a value and an expiry, a clock in milliseconds, and a flag for the connection: with it
  down every command fails.  This is not the code of Valkey, only an instance of the documented
  behaviour, which shows that the laws can hold and on which the results can be evaluated.
\<close>

record kv_server =
  kv_data :: "string \<Rightarrow> (string \<times> int) option"
  kv_now :: int
  kv_up :: bool

definition kv_held :: "kv_server \<Rightarrow> string \<Rightarrow> string option" where
  "kv_held v k = (case kv_data v k of None \<Rightarrow> None | Some (x, exp) \<Rightarrow> if kv_now v < exp then Some x else None)"

fun kv_error :: "vcommand \<Rightarrow> kv_server \<Rightarrow> string option \<times> kv_server" where
  "kv_error (SetPX k x px) v = (None, v\<lparr>kv_data := (kv_data v)(k \<mapsto> (x, kv_now v + px))\<rparr>)"
| "kv_error (Del k) v = (None, v\<lparr>kv_data := (kv_data v)(k := None)\<rparr>)"
| "kv_error _ v = (None, v)"

fun kv_string :: "vcommand \<Rightarrow> kv_server \<Rightarrow> (string + string option) \<times> kv_server" where
  "kv_string (GetexPX k px) v =
     (case kv_held v k of
        None \<Rightarrow> (Inr None, v)
      | Some x \<Rightarrow> (Inr (Some x), v\<lparr>kv_data := (kv_data v)(k \<mapsto> (x, kv_now v + px))\<rparr>))"
| "kv_string _ v = (Inl ''not a string'', v)"

definition kv_driver :: "kv_server driver" where
  "kv_driver =
     \<lparr>DoError = (\<lambda>tmo cmd v. if kv_up v then kv_error cmd v else (Some ''connection refused'', v)),
      DoString = (\<lambda>tmo cmd v. if kv_up v then kv_string cmd v else (Inl ''connection refused'', v)),
      CloseDriver = (\<lambda>v. v)\<rparr>"

text \<open>Time passes, and the connection goes up and down.\<close>

definition kv_drift :: "kv_server \<Rightarrow> kv_server \<Rightarrow> bool" where
  "kv_drift v v' \<longleftrightarrow> kv_data v' = kv_data v \<and> kv_now v \<le> kv_now v'"

interpretation kv: valkey_server kv_driver "\<lambda>_. True" kv_held kv_drift
  by unfold_locales
    (auto simp: kv_driver_def kv_held_def kv_drift_def split: if_splits option.splits)

interpretation kv_tokens: valkey_tokens "valkeyGoClient kv_driver rt wt" "\<lambda>_. True" kv_held kv_drift "{t}" for rt wt t
  by unfold_locales simp

subsection \<open>Properties\<close>

text \<open>C10:
  The Valkey store never answers with an entry other than the one last put for the token and not
  deleted since: after any history of operations on tokens without digest collisions, on a server
  whose commands do what they are documented to do, a hit is an entry of the map of the specification,
  and the only one if no operation has failed.  A failed operation may have taken effect: after a
  failed put a hit is its entry or one that was there before, and a failed deletion deletes or not.
\<close>

theorem valkey_store_refines_map:
  assumes "valkey_tokens client c_ok c_held c_drift U"
    and "store_runs (newValkeyStoreForClient client ttl) c_drift v0 h v" and "c_ok v0"
    and "\<forall>t. valkey_holds c_held v0 t = None" and "\<Union>(op_tokens ` set h) \<subseteq> U"
    and "\<Union>(op_entries ` set h) \<subseteq> Collect utf8_entry" and "t \<in> U"
    and "Get (newValkeyStoreForClient client ttl) clk t v = (Inr (Some e), v')"
  shows "e \<in> spec_map h t \<and> (list_all op_succeeded h \<longrightarrow> spec_map h t = {e})"
  using token_store.runs_get_spec [OF valkey_tokens_store [OF assms(1)] assms(2-8)] spec_map_single by blast

definition sample_server :: kv_server where
  "sample_server = \<lparr>kv_data = Map.empty, kv_now = 0, kv_up = True\<rparr>"

definition sample_valkey :: "kv_server store" where
  "sample_valkey = newValkeyStoreForClient (valkeyGoClient kv_driver 2000000000 2000000000) 3600000000000"

lemma sample_entry_utf8: "utf8_entry sample_entry"
  by (simp add: utf8_entry_def sample_entry_def html_safe_body html_safe_def)

lemma sample_valkey_put:
  "Put sample_valkey clk ''tok'' sample_entry sample_server =
     (None, sample_server\<lparr>kv_data := [tokenKey ''tok'' \<mapsto> (encodeValkeyEntry sample_entry, 3600000)]\<rparr>)"
  by (simp add: sample_valkey_def newValkeyStoreForClient_def valkeyPut_def valkeyGoClient_def
      kv_driver_def sample_server_def ttlMilliseconds_def millisecond_def signed_divide_int_def
      signed_modulo_int_def)

lemma sample_valkey_get:
  "\<exists>v'. Get sample_valkey clk ''tok''
     (sample_server\<lparr>kv_data := [tokenKey ''tok'' \<mapsto> (encodeValkeyEntry sample_entry, 3600000)]\<rparr>) =
     (Inr (Some sample_entry), v')"
  by (simp add: sample_valkey_def newValkeyStoreForClient_def valkeyGet_def valkeyGoClient_def
      kv_driver_def sample_server_def kv_held_def decode_encode [OF sample_entry_utf8])

theorem valkey_store_refines_map_witness:
  "sample_entry \<in> spec_map [OpPut ''tok'' sample_entry None] ''tok''"
proof -
  obtain v' where get: "Get sample_valkey (0, 0) ''tok''
     (sample_server\<lparr>kv_data := [tokenKey ''tok'' \<mapsto> (encodeValkeyEntry sample_entry, 3600000)]\<rparr>) =
     (Inr (Some sample_entry), v')"
    using sample_valkey_get by blast
  have run: "store_runs sample_valkey kv_drift sample_server ([] @ [OpPut ''tok'' sample_entry None])
     (sample_server\<lparr>kv_data := [tokenKey ''tok'' \<mapsto> (encodeValkeyEntry sample_entry, 3600000)]\<rparr>)"
    by (rule runs_put [OF runs_start sample_valkey_put])
  show ?thesis
    using valkey_store_refines_map [OF kv_tokens.valkey_tokens_axioms [where t = "''tok''"] run [unfolded sample_valkey_def]
        _ _ _ _ _ get [unfolded sample_valkey_def]]
    by (simp add: sample_entry_utf8 valkey_holds_def kv_held_def sample_server_def decoded_def)
qed

end
