(* ===== verification/Proxy_Instances.thy ===== *)
theory Proxy_Instances
  imports Token_Lineage Cache_Retention Valkey_Contract
begin

section \<open>The proxies that can be configured\<close>

text \<open>
  The interfaces put together: an authenticator of \<open>internal/auth\<close> over a table that
  \<open>buildIdentities\<close> has returned, in front of the local cache or of the Valkey store.  The laws of
  \<open>guarded_proxy\<close> are discharged here, once for each store, for both authenticators.
\<close>

lemma guards_contract:
  assumes "identity_table entries hash identities" and "guards identities A"
  shows "authenticator_contract A (in_table identities)"
  using assms(2) static_contract [OF assms(1)] jwt_contract [OF assms(1)] by (auto simp: guards_def)

subsection \<open>With the local cache\<close>

lemma local_guarded:
  assumes "buildIdentities entries hash = Inr identities" and "guards identities A"
  shows "guarded_proxy A (in_table identities) local_store UNIV (\<lambda>_. True) cache_ok cache_holds janitor_step"
  by (intro guarded_proxy.intro guards_contract [OF identity_table.intro [OF assms(1)] assms(2)]
      local.token_store_axioms guarded_proxy_axioms.intro) simp

sublocale identity_table \<subseteq> static_local: guarded_proxy "StaticAuthenticate identities" "in_table identities"
    local_store UNIV "\<lambda>_. True" cache_ok cache_holds janitor_step
  by (rule local_guarded [OF built]) (simp add: guards_def)

text \<open>A deletion in the local cache always succeeds.\<close>

lemma local_delete_succeeds: "fst (Delete local_store clk t c) = None"
  by (simp add: local_store_def cacheDelete_def Let_def)

subsection \<open>With the Valkey store\<close>

text \<open>A table whose strings came out of an auth file.\<close>

definition identity_utf8 :: "identity \<Rightarrow> bool" where
  "identity_utf8 i \<longleftrightarrow> valid_utf8 (id_namespace i) \<and> (\<forall>q \<in> set (id_task_queues i). valid_utf8 q)"

lemma buildIdentities_utf8:
  assumes "buildIdentities entries hash = Inr identities" and "entries_utf8 entries"
    and "in_table identities i"
  shows "identity_utf8 i"
proof -
  from assms(3) obtain k j where "identities k = Some j" and i: "i = j\<lparr>id_subject := id_subject i\<rparr>"
    by (auto simp: in_table_def)
  then obtain k' e where "(k', e) \<in> set entries" and "j = identity_of e"
    by (auto elim: buildIdentities_ran [OF assms(1)])
  with assms(2) have "identity_utf8 j"
    by (auto simp: entries_utf8_def entry_utf8_def identity_utf8_def identity_of_def)
  then show ?thesis by (subst i) (simp add: identity_utf8_def)
qed

lemma valkey_guarded:
  assumes "buildIdentities entries hash = Inr identities" and "entries_utf8 entries"
    and "guards identities A" and "valkey_tokens client c_ok c_held c_drift U"
  shows "guarded_proxy A (in_table identities) (newValkeyStoreForClient client ttl) U utf8_entry
           c_ok (valkey_holds c_held) c_drift"
proof (intro guarded_proxy.intro guarded_proxy_axioms.intro)
  show "authenticator_contract A (in_table identities)"
    by (rule guards_contract [OF identity_table.intro [OF assms(1)] assms(3)])
  show "token_store (newValkeyStoreForClient client ttl) U utf8_entry c_ok (valkey_holds c_held) c_drift"
    by (rule valkey_tokens_store [OF assms(4)])
  show "utf8_entry \<lparr>entry_namespace = id_namespace i, entry_task_queue = q\<rparr>"
    if "in_table identities i" and "q \<in> set (id_task_queues i)" for i q
    using buildIdentities_utf8 [OF assms(1,2) that(1)] that(2)
    by (simp add: utf8_entry_def identity_utf8_def)
qed

end
