(* ===== verification/Go_Numbers.thy ===== *)
theory Go_Numbers
  imports Go_Strings
begin

section \<open>Parsing booleans, integers and durations\<close>

text \<open>
  \<open>strconv.ParseBool\<close>, \<open>strconv.Atoi\<close> on a 64-bit platform and \<open>time.ParseDuration\<close>, statement by
  statement where the bounds matter: the accumulators of \<open>ParseDuration\<close> are unsigned 64-bit integers
  with the wrap-around written out, and the fraction of a term is computed in IEEE 754 double
  precision, rounded to nearest even after each operation.  \<open>None\<close> is an error.  The lemmas bound the
  results and show that what is printed in decimal is read back.
\<close>

subsection \<open>strconv\<close>

definition ParseBool :: "string \<Rightarrow> bool option" where
  "ParseBool s =
     (if s \<in> {''1'', ''t'', ''T'', ''TRUE'', ''true'', ''True''} then Some True
      else if s \<in> {''0'', ''f'', ''F'', ''FALSE'', ''false'', ''False''} then Some False
      else None)"

definition digit :: "char \<Rightarrow> nat" where
  "digit c = ord c - 0x30"

fun value_from :: "nat \<Rightarrow> string \<Rightarrow> nat option" where
  "value_from n [] = Some n"
| "value_from n (c # cs) = (if is_digit c then value_from (n * 10 + digit c) cs else None)"

text \<open>The sign and what follows it.\<close>

definition split_sign :: "string \<Rightarrow> bool \<times> string" where
  "split_sign s =
     (case s of
        [] \<Rightarrow> (False, s)
      | c # r \<Rightarrow> if c = CHR ''-'' then (True, r) else if c = CHR ''+'' then (False, r) else (False, s))"

definition Atoi :: "string \<Rightarrow> int option" where
  "Atoi s =
     (case split_sign s of (neg, r) \<Rightarrow>
        if r = '''' then None
        else (case value_from 0 r of
                None \<Rightarrow> None
              | Some n \<Rightarrow>
                  (if neg then (if n \<le> 2 ^ 63 then Some (- int n) else None)
                   else (if n < 2 ^ 63 then Some (int n) else None))))"

subsection \<open>Double precision, for non-negative numbers\<close>

text \<open>\<open>Fin m e\<close> is \<open>m * 2 ^ e\<close>.\<close>

datatype float64 = Fin nat int | Infinite

fun bitlen :: "nat \<Rightarrow> nat" where
  "bitlen n = (if n = 0 then 0 else Suc (bitlen (n div 2)))"

declare bitlen.simps [simp del]

definition round_half_even :: "nat \<Rightarrow> nat \<Rightarrow> nat" where
  "round_half_even a b =
     (let q = a div b; r = a mod b in if 2 * r > b \<or> 2 * r = b \<and> odd q then q + 1 else q)"

text \<open>The fraction \<open>a / b * 2 ^ k\<close>: its binary logarithm, rounded down, and its nearest double.\<close>

definition log2_fraction :: "nat \<Rightarrow> nat \<Rightarrow> int \<Rightarrow> int" where
  "log2_fraction a b k =
     (let n = int (bitlen a) - int (bitlen b)
      in k + (if a * 2 ^ nat (- n) \<ge> b * 2 ^ nat n then n else n - 1))"

definition f64_round :: "nat \<Rightarrow> nat \<Rightarrow> int \<Rightarrow> float64" where
  "f64_round a b k =
     (if a = 0 then Fin 0 0
      else (let e = max (log2_fraction a b k - 52) (- 1074);
                m = round_half_even (a * 2 ^ nat (k - e)) (b * 2 ^ nat (e - k))
            in if e > 971 \<or> e = 971 \<and> m = 2 ^ 53 then Infinite else Fin m e))"

definition f64_of_nat :: "nat \<Rightarrow> float64" where
  "f64_of_nat n = f64_round n 1 0"

fun f64_mult :: "float64 \<Rightarrow> float64 \<Rightarrow> float64" where
  "f64_mult (Fin a i) (Fin b j) = f64_round (a * b) 1 (i + j)"
| "f64_mult _ _ = Infinite"

fun f64_divide :: "float64 \<Rightarrow> float64 \<Rightarrow> float64" where
  "f64_divide (Fin a i) (Fin b j) = f64_round a b (i - j)"
| "f64_divide (Fin a i) Infinite = Fin 0 0"
| "f64_divide Infinite _ = Infinite"

text \<open>
  The conversion to \<open>uint64\<close>.  \<open>ParseDuration\<close> converts a part of one unit only, which is far below
  \<open>2 ^ 64\<close>, so the cases Go leaves to the implementation do not occur.
\<close>

fun f64_trunc :: "float64 \<Rightarrow> nat" where
  "f64_trunc (Fin m e) = m * 2 ^ nat e div 2 ^ nat (- e)"
| "f64_trunc Infinite = 0"

subsection \<open>time.ParseDuration\<close>

definition unit_map :: "(string \<times> nat) list" where
  "unit_map =
     [(''ns'', 1), (''us'', 1000), ([CHR 0xC2, CHR 0xB5, CHR ''s''], 1000), ([CHR 0xCE, CHR 0xBC, CHR ''s''], 1000),
      (''ms'', 1000000), (''s'', 1000000000), (''m'', 60000000000), (''h'', 3600000000000)]"

fun leadingInt :: "nat \<Rightarrow> string \<Rightarrow> (nat \<times> string) option" where
  "leadingInt x [] = Some (x, [])"
| "leadingInt x (c # cs) =
     (if \<not> is_digit c then Some (x, c # cs)
      else if x > 2 ^ 63 div 10 then None
      else (let x' = x * 10 + digit c in if x' > 2 ^ 63 then None else leadingInt x' cs))"

fun leadingFraction :: "nat \<Rightarrow> float64 \<Rightarrow> bool \<Rightarrow> string \<Rightarrow> nat \<times> float64 \<times> string" where
  "leadingFraction x scale overflow [] = (x, scale, [])"
| "leadingFraction x scale overflow (c # cs) =
     (if \<not> is_digit c then (x, scale, c # cs)
      else if overflow \<or> x > (2 ^ 63 - 1) div 10 \<or> x * 10 + digit c > 2 ^ 63
      then leadingFraction x scale True cs
      else leadingFraction (x * 10 + digit c) (f64_mult scale (f64_of_nat 10)) False cs)"

definition unit_char :: "char \<Rightarrow> bool" where
  "unit_char c \<longleftrightarrow> \<not> (c = CHR ''.'' \<or> is_digit c)"

text \<open>The number of a term: its integer part, its fraction with the scale, and the rest.\<close>

definition term_number :: "string \<Rightarrow> (nat \<times> nat \<times> float64 \<times> string) option" where
  "term_number s =
     (case leadingInt 0 s of
        None \<Rightarrow> None
      | Some (v, s1) \<Rightarrow>
          (let pre = (length s \<noteq> length s1) in
           case s1 of
             c # s2 \<Rightarrow>
               (if c = CHR ''.''
                then (case leadingFraction 0 (f64_of_nat 1) False s2 of (f, scale, s3) \<Rightarrow>
                        if \<not> pre \<and> length s2 = length s3 then None else Some (v, f, scale, s3))
                else if \<not> pre then None else Some (v, 0, f64_of_nat 1, s1))
           | [] \<Rightarrow> (if \<not> pre then None else Some (v, 0, f64_of_nat 1, s1))))"

text \<open>The value of a term, an unsigned 64-bit integer.\<close>

definition term_value :: "nat \<Rightarrow> nat \<Rightarrow> float64 \<Rightarrow> nat \<Rightarrow> nat option" where
  "term_value v f scale u =
     (if v > 2 ^ 63 div u then None
      else (let w = v * u in
            if f > 0
            then (let w' = (w + f64_trunc (f64_mult (f64_of_nat f) (f64_divide (f64_of_nat u) scale))) mod 2 ^ 64
                  in if w' > 2 ^ 63 then None else Some w')
            else Some w))"

definition parse_term :: "string \<Rightarrow> (nat \<times> string) option" where
  "parse_term s =
     (case s of
        [] \<Rightarrow> None
      | c # _ \<Rightarrow>
          (if \<not> (c = CHR ''.'' \<or> is_digit c) then None
           else (case term_number s of
                   None \<Rightarrow> None
                 | Some (v, f, scale, r) \<Rightarrow>
                     (case map_of unit_map (takeWhile unit_char r) of
                        None \<Rightarrow> None
                      | Some u \<Rightarrow>
                          map_option (\<lambda>w. (w, dropWhile unit_char r)) (term_value v f scale u)))))"

lemma leadingInt_length: "leadingInt x s = Some (v, r) \<Longrightarrow> length r \<le> length s"
  by (induction x s arbitrary: v r rule: leadingInt.induct) (fastforce split: if_splits simp: Let_def)+

lemma leadingFraction_length: "leadingFraction x sc ov s = (f, sc', r) \<Longrightarrow> length r \<le> length s"
  by (induction x sc ov s rule: leadingFraction.induct) (auto split: if_splits)

lemma term_number_length: "term_number s = Some (v, f, sc, r) \<Longrightarrow> length r \<le> length s"
  by (auto simp: term_number_def Let_def split: option.splits list.splits if_splits prod.splits
      dest!: leadingInt_length leadingFraction_length)

lemma unit_map_not_Nil: "map_of unit_map [] = None"
  by (simp add: unit_map_def)

lemma parse_term_length:
  assumes "parse_term s = Some (w, r)"
  shows "length r < length s"
proof -
  from assms obtain v f sc r0 u where n: "term_number s = Some (v, f, sc, r0)"
    and u: "map_of unit_map (takeWhile unit_char r0) = Some u" and r: "r = dropWhile unit_char r0"
    by (auto simp: parse_term_def split: list.splits if_splits option.splits)
  have "takeWhile unit_char r0 \<noteq> []" using u unit_map_not_Nil by fastforce
  then have "length r < length r0"
    unfolding r by (metis length_append length_greater_0_conv less_add_same_cancel2 takeWhile_dropWhile_id)
  with term_number_length [OF n] show ?thesis by simp
qed

function parse_terms :: "nat \<Rightarrow> string \<Rightarrow> nat option" where
  "parse_terms d s =
     (if s = '''' then Some d
      else (case parse_term s of
              None \<Rightarrow> None
            | Some (w, r) \<Rightarrow>
                (let d' = (d + w) mod 2 ^ 64 in if d' > 2 ^ 63 then None else parse_terms d' r)))"
  by pat_completeness auto
termination
  by (relation "measure (\<lambda>(d, s). length s)") (auto dest: parse_term_length)

declare parse_terms.simps [simp del]

definition ParseDuration :: "string \<Rightarrow> duration option" where
  "ParseDuration s =
     (case split_sign s of (neg, r) \<Rightarrow>
        if r = ''0'' then Some 0
        else if r = '''' then None
        else (case parse_terms 0 r of
                None \<Rightarrow> None
              | Some d \<Rightarrow>
                  (if neg then Some (- int d) else if d > 2 ^ 63 - 1 then None else Some (int d))))"

subsection \<open>Bounds\<close>

lemma Atoi_bounds: "Atoi s = Some n \<Longrightarrow> - (2 ^ 63) \<le> n \<and> n < 2 ^ 63"
  by (auto simp: Atoi_def split: prod.splits if_splits option.splits)

lemma parse_terms_bound: "parse_terms d s = Some d' \<Longrightarrow> d \<le> 2 ^ 63 \<Longrightarrow> d' \<le> 2 ^ 63"
proof (induction d s rule: parse_terms.induct)
  case (1 d s)
  show ?case
  proof (cases "s = ''''")
    case True
    with "1.prems" show ?thesis by (simp add: parse_terms.simps)
  next
    case False
    with "1.prems"(1) obtain w r where "parse_term s = Some (w, r)" and "(d + w) mod 2 ^ 64 \<le> 2 ^ 63"
      and "parse_terms ((d + w) mod 2 ^ 64) r = Some d'"
      by (subst (asm) parse_terms.simps) (auto simp: Let_def split: option.splits if_splits)
    with "1.IH" [OF False] show ?thesis by fastforce
  qed
qed

lemma ParseDuration_bounds:
  assumes "ParseDuration s = Some d"
  shows "- (2 ^ 63) \<le> d \<and> d < 2 ^ 63"
  using assms
  by (auto simp: ParseDuration_def split: prod.splits if_splits option.splits dest!: parse_terms_bound)

subsection \<open>Printing in decimal\<close>

definition digit_char :: "nat \<Rightarrow> char" where
  "digit_char n = char_of (0x30 + n)"

fun show_nat :: "nat \<Rightarrow> string" where
  "show_nat n = (if n < 10 then [digit_char n] else show_nat (n div 10) @ [digit_char (n mod 10)])"

declare show_nat.simps [simp del]

definition show_int :: "int \<Rightarrow> string" where
  "show_int n = (if n < 0 then CHR ''-'' # show_nat (nat (- n)) else show_nat (nat n))"

lemma ord_digit_char: "n < 10 \<Longrightarrow> ord (digit_char n) = 0x30 + n"
  by (simp add: digit_char_def of_char_of)

lemma is_digit_char [simp]: "n < 10 \<Longrightarrow> is_digit (digit_char n)"
  by (simp add: byte_class ord_digit_char)

lemma digit_digit_char [simp]: "n < 10 \<Longrightarrow> digit (digit_char n) = n"
  by (simp add: digit_def ord_digit_char)

lemma show_nat_digits: "\<forall>c \<in> set (show_nat n). is_digit c"
proof (induction n rule: show_nat.induct)
  case (1 n)
  then show ?case by (subst show_nat.simps) auto
qed

lemma show_nat_not_Nil [simp]: "show_nat n \<noteq> []"
  by (subst show_nat.simps) simp

lemma show_nat_Cons: obtains c cs where "show_nat n = c # cs" and "is_digit c"
  using show_nat_digits [of n] by (cases "show_nat n") auto

lemma value_from_append:
  "value_from n (xs @ ys) = (case value_from n xs of None \<Rightarrow> None | Some m \<Rightarrow> value_from m ys)"
  by (induction n xs rule: value_from.induct) auto

lemma value_from_show: "value_from 0 (show_nat n) = Some n"
proof (induction n rule: show_nat.induct)
  case (1 n)
  show ?case
  proof (cases "n < 10")
    case True
    then show ?thesis by (subst show_nat.simps) simp
  next
    case False
    with 1 have "value_from 0 (show_nat (n div 10)) = Some (n div 10)" by simp
    then show ?thesis using False by (subst show_nat.simps) (simp add: value_from_append)
  qed
qed

lemma digit_not_sign: "is_digit c \<Longrightarrow> c \<noteq> CHR ''-'' \<and> c \<noteq> CHR ''+'' \<and> c \<noteq> CHR ''.''"
  by (auto simp: byte_class)

lemma split_sign_digit: "is_digit c \<Longrightarrow> split_sign (c # s) = (False, c # s)"
  using digit_not_sign by (auto simp: split_sign_def)

lemma Atoi_show:
  assumes "- (2 ^ 63) \<le> n" and "n < 2 ^ 63"
  shows "Atoi (show_int n) = Some n"
proof (cases "n < 0")
  case True
  then have "split_sign (show_int n) = (True, show_nat (nat (- n)))"
    by (simp add: show_int_def split_sign_def)
  with True assms show ?thesis by (simp add: Atoi_def value_from_show nat_le_iff)
next
  case False
  obtain c cs where "show_nat (nat n) = c # cs" and "is_digit c" by (rule show_nat_Cons)
  with False have "split_sign (show_int n) = (False, show_nat (nat n))"
    by (simp add: show_int_def split_sign_digit)
  with False assms show ?thesis by (simp add: Atoi_def value_from_show nat_less_iff)
qed

subsection \<open>Durations printed as terms of whole units\<close>

lemma value_from_mono: "value_from n s = Some m \<Longrightarrow> n \<le> m"
  by (induction n s rule: value_from.induct) (fastforce split: if_splits)+

lemma leadingInt_digits:
  "\<forall>c \<in> set ds. is_digit c \<Longrightarrow> value_from x ds = Some v \<Longrightarrow> v \<le> 2 ^ 63 \<Longrightarrow>
   leadingInt x (ds @ r) = leadingInt v r"
proof (induction ds arbitrary: x)
  case (Cons c ds)
  then have "value_from (x * 10 + digit c) ds = Some v" by simp
  then have "x * 10 + digit c \<le> v" by (rule value_from_mono)
  with Cons show ?case by (simp add: Let_def)
qed simp

lemma leadingInt_show:
  "n \<le> 2 ^ 63 \<Longrightarrow> r = [] \<or> \<not> is_digit (hd r) \<Longrightarrow> leadingInt 0 (show_nat n @ r) = Some (n, r)"
  by (subst leadingInt_digits [OF show_nat_digits value_from_show]) (cases r; simp)+

text \<open>A term is a number, the name of a unit and the unit's nanoseconds.\<close>

type_synonym duration_term = "nat \<times> string \<times> nat"

definition text_of_term :: "duration_term \<Rightarrow> string" where
  "text_of_term t = show_nat (fst t) @ fst (snd t)"

definition value_of_term :: "duration_term \<Rightarrow> nat" where
  "value_of_term t = fst t * snd (snd t)"

lemma value_of_term_simp [simp]: "value_of_term (n, u, k) = n * k"
  by (simp add: value_of_term_def)

lemma text_of_term_not_Nil [simp]: "text_of_term t \<noteq> []"
  by (simp add: text_of_term_def)

lemma unit_map_chars: "list_all (\<lambda>p. fst p \<noteq> [] \<and> list_all unit_char (fst p)) unit_map"
  by (simp add: unit_map_def unit_char_def byte_class)

lemma unit_map_values: "list_all (\<lambda>p. 0 < snd p) unit_map" "distinct (map fst unit_map)"
  by (simp_all add: unit_map_def)

lemma unit_map_name:
  assumes "(u, k) \<in> set unit_map"
  shows "u \<noteq> [] \<and> (\<forall>c \<in> set u. unit_char c) \<and> map_of unit_map u = Some k \<and> 0 < k"
  using unit_map_chars unit_map_values assms by (auto simp: list_all_iff)

lemma unit_then_digit:
  assumes "\<forall>c \<in> set u. unit_char c" and "r = [] \<or> is_digit (hd r)"
  shows "takeWhile unit_char (u @ r) = u" and "dropWhile unit_char (u @ r) = r"
  using assms by (cases r; simp add: takeWhile_append dropWhile_append unit_char_def)+

lemma parse_term_text:
  assumes "(u, k) \<in> set unit_map" and "n * k \<le> 2 ^ 63" and "r = [] \<or> is_digit (hd r)"
  shows "parse_term (text_of_term (n, u, k) @ r) = Some (n * k, r)"
proof -
  note u = unit_map_name [OF assms(1)]
  have n: "n \<le> 2 ^ 63 div k" using assms(2) u by (simp add: less_eq_div_iff_mult_less_eq)
  also have "\<dots> \<le> 2 ^ 63" by simp
  finally have "n \<le> 2 ^ 63" .
  moreover have hd: "\<not> is_digit (hd (u @ r))" and dot: "hd (u @ r) \<noteq> CHR ''.''"
    using u by (cases u; simp add: unit_char_def)+
  ultimately have "leadingInt 0 (show_nat n @ u @ r) = Some (n, u @ r)"
    by (intro leadingInt_show) simp_all
  then have "term_number (show_nat n @ u @ r) = Some (n, 0, f64_of_nat 1, u @ r)"
    using u dot by (cases u) (simp_all add: term_number_def)
  moreover obtain c cs where "show_nat n = c # cs" and "is_digit c" by (rule show_nat_Cons)
  ultimately show ?thesis
    using n u unit_then_digit [OF _ assms(3), of u]
    by (simp add: parse_term_def text_of_term_def term_value_def)
qed

lemma text_digit: "concat (map text_of_term ts) = [] \<or> is_digit (hd (concat (map text_of_term ts)))"
proof (cases ts)
  case (Cons t ts')
  obtain c cs where "show_nat (fst t) = c # cs" and "is_digit c" by (rule show_nat_Cons)
  with Cons show ?thesis by (simp add: text_of_term_def)
qed simp

lemma parse_terms_text:
  assumes "\<forall>(n, u, k) \<in> set ts. (u, k) \<in> set unit_map" and "d + sum_list (map value_of_term ts) \<le> 2 ^ 63"
  shows "parse_terms d (concat (map text_of_term ts)) = Some (d + sum_list (map value_of_term ts))"
  using assms
proof (induction ts arbitrary: d)
  case Nil
  then show ?case by (simp add: parse_terms.simps)
next
  case (Cons t ts)
  obtain n u k where t: "t = (n, u, k)" by (cases t)
  let ?r = "concat (map text_of_term ts)"
  have "parse_term (text_of_term t @ ?r) = Some (n * k, ?r)"
    unfolding t using Cons.prems text_digit by (intro parse_term_text) (auto simp: t)
  moreover have "parse_terms (d + n * k) ?r = Some (d + n * k + sum_list (map value_of_term ts))"
    using Cons.prems by (intro Cons.IH) (auto simp: t)
  moreover have "d + n * k \<le> 2 ^ 63" using Cons.prems by (auto simp: t)
  ultimately show ?case
    by (subst parse_terms.simps) (simp add: t add.assoc)
qed

lemma ParseDuration_text:
  assumes "ts \<noteq> []" and "\<forall>(n, u, k) \<in> set ts. (u, k) \<in> set unit_map"
    and "sum_list (map value_of_term ts) < 2 ^ 63"
  shows "ParseDuration (concat (map text_of_term ts)) = Some (int (sum_list (map value_of_term ts)))"
proof -
  let ?s = "concat (map text_of_term ts)"
  obtain n u k ts' where ts: "ts = (n, u, k) # ts'" using assms(1) by (metis list.exhaust prod_cases3)
  obtain c cs where sn: "show_nat n = c # cs" and "is_digit c" by (rule show_nat_Cons)
  then have sign: "split_sign ?s = (False, ?s)" by (simp add: ts text_of_term_def split_sign_digit)
  have "u \<noteq> []" using assms(2) unit_map_name by (auto simp: ts)
  then have "?s \<noteq> ''0''" and "?s \<noteq> ''''" using sn by (auto simp: ts text_of_term_def)
  with sign parse_terms_text [OF assms(2), of 0] assms(3) show ?thesis by (simp add: ParseDuration_def)
qed

end
