(* ===== verification/Config.thy ===== *)
theory Config
  imports Go_Numbers
begin

section \<open>internal/config: the configuration from the environment\<close>

text \<open>
  The configuration records of \<open>config.go\<close>, its readers of one environment variable, \<open>Load\<close> and
  \<open>validate\<close>.  The environment is a parameter: \<open>env key\<close> is the result of \<open>os.LookupEnv\<close>.  An error is
  the constructor that names its message.  The lemmas show which errors a run reports and what holds
  of a configuration that loads.
\<close>

definition AuthModeNone :: string where "AuthModeNone = ''none''"
definition AuthModeAPIKey :: string where "AuthModeAPIKey = ''api-key''"
definition WorkerAuthModeStatic :: string where "WorkerAuthModeStatic = ''static''"
definition WorkerAuthModeJWT :: string where "WorkerAuthModeJWT = ''jwt''"
definition TLSModePlaintext :: string where "TLSModePlaintext = ''plaintext''"
definition TLSModeTLS :: string where "TLSModeTLS = ''tls''"
definition TokenCacheBackendLocal :: string where "TokenCacheBackendLocal = ''local''"
definition TokenCacheBackendValkey :: string where "TokenCacheBackendValkey = ''valkey''"

lemmas mode_defs = AuthModeNone_def AuthModeAPIKey_def WorkerAuthModeStatic_def WorkerAuthModeJWT_def
  TLSModePlaintext_def TLSModeTLS_def TokenCacheBackendLocal_def TokenCacheBackendValkey_def

record upstream_config =
  uc_Addr :: string
  uc_AuthMode :: string
  uc_APIKey :: string
  uc_TLSMode :: string
  uc_TLSCAFile :: string
  uc_TLSSkipVerify :: bool
  uc_TLSServerName :: string

record downstream_config =
  dc_ListenAddr :: string
  dc_TLSMode :: string
  dc_CertFile :: string
  dc_KeyFile :: string

record valkey_config =
  vk_Addrs :: "string list"
  vk_Password :: string
  vk_TLSMode :: string
  vk_TLSCAFile :: string
  vk_DialTimeout :: duration
  vk_ReadTimeout :: duration
  vk_WriteTimeout :: duration

record config =
  cf_Upstream :: upstream_config
  cf_Downstream :: downstream_config
  cf_WorkerAuthMode :: string
  cf_StaticAuthFile :: string
  cf_JWTAudience :: string
  cf_TokenCacheBackend :: string
  cf_TokenCacheTTL :: duration
  cf_TokenCacheMaxSize :: int
  cf_Valkey :: valkey_config
  cf_LogLevel :: string

subsection \<open>Reading one variable\<close>

type_synonym environment = "string \<Rightarrow> string option"

datatype config_error =
    InvalidBoolean string string
  | InvalidInteger string string
  | InvalidDuration string string
  | InvalidValue string string "string list"
      \<comment> \<open>variable, value, the values it may have\<close>
  | UpstreamAPIKeyRequired
  | DownstreamCertAndKeyRequired
  | StaticAuthFileRequired
  | JWTAudienceRequired
  | ValkeyAddrsRequired
  | MustBePositive string

definition Getenv :: "environment \<Rightarrow> string \<Rightarrow> string" where
  "Getenv env key = (case env key of Some v \<Rightarrow> v | None \<Rightarrow> '''')"

definition getEnv :: "environment \<Rightarrow> string \<Rightarrow> string \<Rightarrow> string" where
  "getEnv env key def = (case env key of Some v \<Rightarrow> v | None \<Rightarrow> def)"

text \<open>The loop over the parts with its accumulator \<open>values\<close>.\<close>

fun trim_parts :: "string list \<Rightarrow> string list \<Rightarrow> string list" where
  "trim_parts vs [] = vs"
| "trim_parts vs (part # parts) =
     (let v = TrimSpace part in trim_parts (if v \<noteq> '''' then vs @ [v] else vs) parts)"

definition getEnvList :: "environment \<Rightarrow> string \<Rightarrow> string list" where
  "getEnvList env key =
     (case env key of None \<Rightarrow> [] | Some v \<Rightarrow> trim_parts [] (split_on (CHR '','') v))"

definition getEnvBool :: "environment \<Rightarrow> string \<Rightarrow> bool \<Rightarrow> bool \<times> config_error option" where
  "getEnvBool env key def =
     (case env key of
        None \<Rightarrow> (def, None)
      | Some v \<Rightarrow>
          (case ParseBool v of None \<Rightarrow> (False, Some (InvalidBoolean key v)) | Some b \<Rightarrow> (b, None)))"

definition getEnvInt :: "environment \<Rightarrow> string \<Rightarrow> int \<Rightarrow> int \<times> config_error option" where
  "getEnvInt env key def =
     (case env key of
        None \<Rightarrow> (def, None)
      | Some v \<Rightarrow>
          (case Atoi v of None \<Rightarrow> (0, Some (InvalidInteger key v)) | Some n \<Rightarrow> (n, None)))"

definition getEnvDuration :: "environment \<Rightarrow> string \<Rightarrow> duration \<Rightarrow> duration \<times> config_error option" where
  "getEnvDuration env key def =
     (case env key of
        None \<Rightarrow> (def, None)
      | Some v \<Rightarrow>
          (case ParseDuration v of None \<Rightarrow> (0, Some (InvalidDuration key v)) | Some d \<Rightarrow> (d, None)))"

definition defaultStaticAuthFile :: "environment \<Rightarrow> string" where
  "defaultStaticAuthFile env =
     (let dir = Getenv env ''KO_DATA_PATH'' in
      if dir \<noteq> '''' then Join [dir, ''static-auth.json''] else '''')"

subsection \<open>validate\<close>

text \<open>Each definition is one statement of \<open>validate\<close>, with the errors it appends.\<close>

definition check_upstream_auth :: "config \<Rightarrow> config_error list" where
  "check_upstream_auth c =
     (let mode = uc_AuthMode (cf_Upstream c) in
      if mode = AuthModeNone then []
      else if mode = AuthModeAPIKey
      then (if uc_APIKey (cf_Upstream c) = '''' then [UpstreamAPIKeyRequired] else [])
      else [InvalidValue ''TEMPORAL_PROXY_UPSTREAM_AUTH_MODE'' mode [AuthModeNone, AuthModeAPIKey]])"

definition check_tls_mode :: "string \<Rightarrow> string \<Rightarrow> config_error list" where
  "check_tls_mode key mode =
     (if mode = TLSModePlaintext \<or> mode = TLSModeTLS then []
      else [InvalidValue key mode [TLSModePlaintext, TLSModeTLS]])"

definition check_downstream_tls :: "config \<Rightarrow> config_error list" where
  "check_downstream_tls c =
     (let d = cf_Downstream c in
      if dc_TLSMode d = TLSModePlaintext then []
      else if dc_TLSMode d = TLSModeTLS
      then (if dc_CertFile d = '''' \<or> dc_KeyFile d = '''' then [DownstreamCertAndKeyRequired] else [])
      else [InvalidValue ''TEMPORAL_PROXY_DOWNSTREAM_TLS_MODE'' (dc_TLSMode d) [TLSModePlaintext, TLSModeTLS]])"

definition check_worker_auth :: "config \<Rightarrow> config_error list" where
  "check_worker_auth c =
     (let mode = cf_WorkerAuthMode c in
      if mode = WorkerAuthModeStatic then []
      else if mode = WorkerAuthModeJWT then (if cf_JWTAudience c = '''' then [JWTAudienceRequired] else [])
      else [InvalidValue ''TEMPORAL_PROXY_AUTH_MODE'' mode [WorkerAuthModeStatic, WorkerAuthModeJWT]])"

definition check_backend :: "config \<Rightarrow> config_error list" where
  "check_backend c =
     (let backend = cf_TokenCacheBackend c in
      if backend = TokenCacheBackendLocal then []
      else if backend = TokenCacheBackendValkey
      then (if length (vk_Addrs (cf_Valkey c)) = 0 then [ValkeyAddrsRequired] else [])
      else [InvalidValue ''TEMPORAL_PROXY_TOKEN_CACHE_BACKEND'' backend
              [TokenCacheBackendLocal, TokenCacheBackendValkey]])"

definition check_positive :: "string \<Rightarrow> int \<Rightarrow> config_error list" where
  "check_positive key n = (if n \<le> 0 then [MustBePositive key] else [])"

definition validate :: "config \<Rightarrow> config_error list" where
  "validate c =
     check_upstream_auth c @
     check_tls_mode ''TEMPORAL_PROXY_UPSTREAM_TLS_MODE'' (uc_TLSMode (cf_Upstream c)) @
     check_downstream_tls c @
     (if cf_StaticAuthFile c = '''' then [StaticAuthFileRequired] else []) @
     check_worker_auth c @
     check_positive ''TEMPORAL_PROXY_TOKEN_CACHE_TTL'' (cf_TokenCacheTTL c) @
     check_positive ''TEMPORAL_PROXY_TOKEN_CACHE_MAX_SIZE'' (cf_TokenCacheMaxSize c) @
     check_backend c @
     check_tls_mode ''TEMPORAL_PROXY_VALKEY_TLS_MODE'' (vk_TLSMode (cf_Valkey c)) @
     check_positive ''TEMPORAL_PROXY_VALKEY_DIAL_TIMEOUT'' (vk_DialTimeout (cf_Valkey c)) @
     check_positive ''TEMPORAL_PROXY_VALKEY_READ_TIMEOUT'' (vk_ReadTimeout (cf_Valkey c)) @
     check_positive ''TEMPORAL_PROXY_VALKEY_WRITE_TIMEOUT'' (vk_WriteTimeout (cf_Valkey c))"

subsection \<open>Load\<close>

definition hour :: duration where "hour = 3600000000000"
definition seconds :: "int \<Rightarrow> duration" where "seconds n = n * 1000000000"

text \<open>The composite literal: what is read without an error, the other fields at their zero value.\<close>

definition base_config :: "environment \<Rightarrow> config" where
  "base_config env =
     \<lparr>cf_Upstream =
        \<lparr>uc_Addr = getEnv env ''TEMPORAL_PROXY_UPSTREAM_ADDR'' ''127.0.0.1:7233'',
         uc_AuthMode = getEnv env ''TEMPORAL_PROXY_UPSTREAM_AUTH_MODE'' AuthModeNone,
         uc_APIKey = Getenv env ''TEMPORAL_PROXY_UPSTREAM_API_KEY'',
         uc_TLSMode = getEnv env ''TEMPORAL_PROXY_UPSTREAM_TLS_MODE'' TLSModePlaintext,
         uc_TLSCAFile = Getenv env ''TEMPORAL_PROXY_UPSTREAM_TLS_CA_FILE'',
         uc_TLSSkipVerify = False,
         uc_TLSServerName = Getenv env ''TEMPORAL_PROXY_UPSTREAM_TLS_SERVER_NAME''\<rparr>,
      cf_Downstream =
        \<lparr>dc_ListenAddr = getEnv env ''TEMPORAL_PROXY_LISTEN_ADDR'' ''127.0.0.1:7243'',
         dc_TLSMode = getEnv env ''TEMPORAL_PROXY_DOWNSTREAM_TLS_MODE'' TLSModePlaintext,
         dc_CertFile = Getenv env ''TEMPORAL_PROXY_DOWNSTREAM_TLS_CERT_FILE'',
         dc_KeyFile = Getenv env ''TEMPORAL_PROXY_DOWNSTREAM_TLS_KEY_FILE''\<rparr>,
      cf_WorkerAuthMode = getEnv env ''TEMPORAL_PROXY_AUTH_MODE'' WorkerAuthModeStatic,
      cf_StaticAuthFile = getEnv env ''TEMPORAL_PROXY_STATIC_AUTH_FILE'' (defaultStaticAuthFile env),
      cf_JWTAudience = Getenv env ''TEMPORAL_PROXY_JWT_AUDIENCE'',
      cf_TokenCacheBackend = getEnv env ''TEMPORAL_PROXY_TOKEN_CACHE_BACKEND'' TokenCacheBackendLocal,
      cf_TokenCacheTTL = 0, cf_TokenCacheMaxSize = 0,
      cf_Valkey =
        \<lparr>vk_Addrs = getEnvList env ''TEMPORAL_PROXY_VALKEY_ADDRS'',
         vk_Password = Getenv env ''TEMPORAL_PROXY_VALKEY_PASSWORD'',
         vk_TLSMode = getEnv env ''TEMPORAL_PROXY_VALKEY_TLS_MODE'' TLSModeTLS,
         vk_TLSCAFile = Getenv env ''TEMPORAL_PROXY_VALKEY_TLS_CA_FILE'',
         vk_DialTimeout = 0, vk_ReadTimeout = 0, vk_WriteTimeout = 0\<rparr>,
      cf_LogLevel = getEnv env ''TEMPORAL_PROXY_LOG_LEVEL'' ''info''\<rparr>"

definition append_error :: "config_error list \<Rightarrow> config_error option \<Rightarrow> config_error list" where
  "append_error errs err = (case err of None \<Rightarrow> errs | Some e \<Rightarrow> errs @ [e])"

definition Load :: "environment \<Rightarrow> config_error list + config" where
  "Load env =
     (let cfg = base_config env; errs = [];
          (skipVerify, err) = getEnvBool env ''TEMPORAL_PROXY_UPSTREAM_TLS_SKIP_VERIFY'' False;
          errs = append_error errs err;
          cfg = cfg\<lparr>cf_Upstream := (cf_Upstream cfg)\<lparr>uc_TLSSkipVerify := skipVerify\<rparr>\<rparr>;
          (ttl, err) = getEnvDuration env ''TEMPORAL_PROXY_TOKEN_CACHE_TTL'' hour;
          errs = append_error errs err;
          cfg = cfg\<lparr>cf_TokenCacheTTL := ttl\<rparr>;
          (maxSize, err) = getEnvInt env ''TEMPORAL_PROXY_TOKEN_CACHE_MAX_SIZE'' 100000;
          errs = append_error errs err;
          cfg = cfg\<lparr>cf_TokenCacheMaxSize := maxSize\<rparr>;
          (dialTimeout, err) = getEnvDuration env ''TEMPORAL_PROXY_VALKEY_DIAL_TIMEOUT'' (seconds 5);
          errs = append_error errs err;
          cfg = cfg\<lparr>cf_Valkey := (cf_Valkey cfg)\<lparr>vk_DialTimeout := dialTimeout\<rparr>\<rparr>;
          (readTimeout, err) = getEnvDuration env ''TEMPORAL_PROXY_VALKEY_READ_TIMEOUT'' (seconds 2);
          errs = append_error errs err;
          cfg = cfg\<lparr>cf_Valkey := (cf_Valkey cfg)\<lparr>vk_ReadTimeout := readTimeout\<rparr>\<rparr>;
          (writeTimeout, err) = getEnvDuration env ''TEMPORAL_PROXY_VALKEY_WRITE_TIMEOUT'' (seconds 2);
          errs = append_error errs err;
          cfg = cfg\<lparr>cf_Valkey := (cf_Valkey cfg)\<lparr>vk_WriteTimeout := writeTimeout\<rparr>\<rparr>;
          errs = errs @ validate cfg
      in if length errs > 0 then Inl errs else Inr cfg)"

end
