(* ===== verification/Config_Errors.thy ===== *)
theory Config_Errors
  imports Config
begin

section \<open>What Load reports and what it guarantees\<close>

text \<open>
  \<open>problem\<close> says, variable by variable and without the order of the code, what is wrong with an
  environment, and \<open>valid_config\<close> what a usable configuration is.  \<open>Load\<close> reports exactly the
  problems, all of them in one run and each once, and otherwise returns a valid configuration.
\<close>

definition config_of :: "environment \<Rightarrow> config" where
  "config_of env =
     (let cfg = base_config env in
      cfg\<lparr>cf_Upstream := (cf_Upstream cfg)
            \<lparr>uc_TLSSkipVerify := fst (getEnvBool env ''TEMPORAL_PROXY_UPSTREAM_TLS_SKIP_VERIFY'' False)\<rparr>,
          cf_TokenCacheTTL := fst (getEnvDuration env ''TEMPORAL_PROXY_TOKEN_CACHE_TTL'' hour),
          cf_TokenCacheMaxSize := fst (getEnvInt env ''TEMPORAL_PROXY_TOKEN_CACHE_MAX_SIZE'' 100000),
          cf_Valkey := (cf_Valkey cfg)
            \<lparr>vk_DialTimeout := fst (getEnvDuration env ''TEMPORAL_PROXY_VALKEY_DIAL_TIMEOUT'' (seconds 5)),
             vk_ReadTimeout := fst (getEnvDuration env ''TEMPORAL_PROXY_VALKEY_READ_TIMEOUT'' (seconds 2)),
             vk_WriteTimeout := fst (getEnvDuration env ''TEMPORAL_PROXY_VALKEY_WRITE_TIMEOUT'' (seconds 2))\<rparr>\<rparr>)"

definition errors_of :: "config_error option \<Rightarrow> config_error list" where
  "errors_of err = (case err of None \<Rightarrow> [] | Some e \<Rightarrow> [e])"

definition read_errors :: "environment \<Rightarrow> config_error list" where
  "read_errors env =
     errors_of (snd (getEnvBool env ''TEMPORAL_PROXY_UPSTREAM_TLS_SKIP_VERIFY'' False)) @
     errors_of (snd (getEnvDuration env ''TEMPORAL_PROXY_TOKEN_CACHE_TTL'' hour)) @
     errors_of (snd (getEnvInt env ''TEMPORAL_PROXY_TOKEN_CACHE_MAX_SIZE'' 100000)) @
     errors_of (snd (getEnvDuration env ''TEMPORAL_PROXY_VALKEY_DIAL_TIMEOUT'' (seconds 5))) @
     errors_of (snd (getEnvDuration env ''TEMPORAL_PROXY_VALKEY_READ_TIMEOUT'' (seconds 2))) @
     errors_of (snd (getEnvDuration env ''TEMPORAL_PROXY_VALKEY_WRITE_TIMEOUT'' (seconds 2)))"

lemma append_errors_of: "append_error errs err = errs @ errors_of err"
  by (simp add: append_error_def errors_of_def split: option.split)

lemma set_errors_of [simp]: "e \<in> set (errors_of err) \<longleftrightarrow> err = Some e"
  by (auto simp: errors_of_def split: option.split)

lemma Load_eq:
  "Load env = (let errs = read_errors env @ validate (config_of env)
               in if errs = [] then Inr (config_of env) else Inl errs)"
  by (simp add: Load_def config_of_def read_errors_def Let_def case_prod_unfold append_errors_of)

subsection \<open>Valid configurations\<close>

definition valid_config :: "config \<Rightarrow> bool" where
  "valid_config c \<longleftrightarrow>
     (uc_AuthMode (cf_Upstream c) = AuthModeNone \<or>
      uc_AuthMode (cf_Upstream c) = AuthModeAPIKey \<and> uc_APIKey (cf_Upstream c) \<noteq> '''') \<and>
     uc_TLSMode (cf_Upstream c) \<in> {TLSModePlaintext, TLSModeTLS} \<and>
     (dc_TLSMode (cf_Downstream c) = TLSModePlaintext \<or>
      dc_TLSMode (cf_Downstream c) = TLSModeTLS \<and> dc_CertFile (cf_Downstream c) \<noteq> '''' \<and>
      dc_KeyFile (cf_Downstream c) \<noteq> '''') \<and>
     cf_StaticAuthFile c \<noteq> '''' \<and>
     (cf_WorkerAuthMode c = WorkerAuthModeStatic \<or>
      cf_WorkerAuthMode c = WorkerAuthModeJWT \<and> cf_JWTAudience c \<noteq> '''') \<and>
     0 < cf_TokenCacheTTL c \<and> 0 < cf_TokenCacheMaxSize c \<and>
     (cf_TokenCacheBackend c = TokenCacheBackendLocal \<or>
      cf_TokenCacheBackend c = TokenCacheBackendValkey \<and> vk_Addrs (cf_Valkey c) \<noteq> []) \<and>
     vk_TLSMode (cf_Valkey c) \<in> {TLSModePlaintext, TLSModeTLS} \<and>
     0 < vk_DialTimeout (cf_Valkey c) \<and> 0 < vk_ReadTimeout (cf_Valkey c) \<and> 0 < vk_WriteTimeout (cf_Valkey c)"

lemmas check_defs = check_upstream_auth_def check_tls_mode_def check_downstream_tls_def
  check_worker_auth_def check_backend_def check_positive_def

lemma check_Nil:
  "check_upstream_auth c = [] \<longleftrightarrow> uc_AuthMode (cf_Upstream c) = AuthModeNone \<or>
     uc_AuthMode (cf_Upstream c) = AuthModeAPIKey \<and> uc_APIKey (cf_Upstream c) \<noteq> ''''"
  "check_tls_mode key mode = [] \<longleftrightarrow> mode \<in> {TLSModePlaintext, TLSModeTLS}"
  "check_downstream_tls c = [] \<longleftrightarrow> dc_TLSMode (cf_Downstream c) = TLSModePlaintext \<or>
     dc_TLSMode (cf_Downstream c) = TLSModeTLS \<and> dc_CertFile (cf_Downstream c) \<noteq> '''' \<and>
     dc_KeyFile (cf_Downstream c) \<noteq> ''''"
  "check_worker_auth c = [] \<longleftrightarrow> cf_WorkerAuthMode c = WorkerAuthModeStatic \<or>
     cf_WorkerAuthMode c = WorkerAuthModeJWT \<and> cf_JWTAudience c \<noteq> ''''"
  "check_backend c = [] \<longleftrightarrow> cf_TokenCacheBackend c = TokenCacheBackendLocal \<or>
     cf_TokenCacheBackend c = TokenCacheBackendValkey \<and> vk_Addrs (cf_Valkey c) \<noteq> []"
  "check_positive key n = [] \<longleftrightarrow> 0 < n"
  by (auto simp: check_defs Let_def)

lemma validate_Nil: "validate c = [] \<longleftrightarrow> valid_config c"
  by (simp add: validate_def valid_config_def check_Nil)

lemma Load_Inr: "Load env = Inr cfg \<longleftrightarrow> read_errors env = [] \<and> valid_config (config_of env) \<and> cfg = config_of env"
  by (auto simp: Load_eq Let_def validate_Nil split: if_splits)

subsection \<open>Problems\<close>

definition enumerated :: "(string \<times> string \<times> string list) list" where
  "enumerated =
     [(''TEMPORAL_PROXY_UPSTREAM_AUTH_MODE'', AuthModeNone, [AuthModeNone, AuthModeAPIKey]),
      (''TEMPORAL_PROXY_UPSTREAM_TLS_MODE'', TLSModePlaintext, [TLSModePlaintext, TLSModeTLS]),
      (''TEMPORAL_PROXY_DOWNSTREAM_TLS_MODE'', TLSModePlaintext, [TLSModePlaintext, TLSModeTLS]),
      (''TEMPORAL_PROXY_AUTH_MODE'', WorkerAuthModeStatic, [WorkerAuthModeStatic, WorkerAuthModeJWT]),
      (''TEMPORAL_PROXY_TOKEN_CACHE_BACKEND'', TokenCacheBackendLocal,
         [TokenCacheBackendLocal, TokenCacheBackendValkey]),
      (''TEMPORAL_PROXY_VALKEY_TLS_MODE'', TLSModeTLS, [TLSModePlaintext, TLSModeTLS])]"

definition duration_variables :: "string list" where
  "duration_variables =
     [''TEMPORAL_PROXY_TOKEN_CACHE_TTL'', ''TEMPORAL_PROXY_VALKEY_DIAL_TIMEOUT'',
      ''TEMPORAL_PROXY_VALKEY_READ_TIMEOUT'', ''TEMPORAL_PROXY_VALKEY_WRITE_TIMEOUT'']"

text \<open>A number is not positive if it is set to something that is not a positive number.\<close>

definition not_positive :: "(string \<Rightarrow> int option) \<Rightarrow> environment \<Rightarrow> string \<Rightarrow> bool" where
  "not_positive parse env key \<longleftrightarrow>
     (\<exists>v. env key = Some v \<and> (case parse v of None \<Rightarrow> True | Some n \<Rightarrow> n \<le> 0))"

fun problem :: "environment \<Rightarrow> config_error \<Rightarrow> bool" where
  "problem env (InvalidBoolean key v) \<longleftrightarrow>
     key = ''TEMPORAL_PROXY_UPSTREAM_TLS_SKIP_VERIFY'' \<and> env key = Some v \<and> ParseBool v = None"
| "problem env (InvalidInteger key v) \<longleftrightarrow>
     key = ''TEMPORAL_PROXY_TOKEN_CACHE_MAX_SIZE'' \<and> env key = Some v \<and> Atoi v = None"
| "problem env (InvalidDuration key v) \<longleftrightarrow>
     key \<in> set duration_variables \<and> env key = Some v \<and> ParseDuration v = None"
| "problem env (InvalidValue key v values) \<longleftrightarrow>
     (\<exists>d. (key, d, values) \<in> set enumerated \<and> v = getEnv env key d \<and> v \<notin> set values)"
| "problem env UpstreamAPIKeyRequired \<longleftrightarrow>
     env ''TEMPORAL_PROXY_UPSTREAM_AUTH_MODE'' = Some AuthModeAPIKey \<and>
     Getenv env ''TEMPORAL_PROXY_UPSTREAM_API_KEY'' = ''''"
| "problem env DownstreamCertAndKeyRequired \<longleftrightarrow>
     env ''TEMPORAL_PROXY_DOWNSTREAM_TLS_MODE'' = Some TLSModeTLS \<and>
     (Getenv env ''TEMPORAL_PROXY_DOWNSTREAM_TLS_CERT_FILE'' = '''' \<or>
      Getenv env ''TEMPORAL_PROXY_DOWNSTREAM_TLS_KEY_FILE'' = '''')"
| "problem env StaticAuthFileRequired \<longleftrightarrow>
     env ''TEMPORAL_PROXY_STATIC_AUTH_FILE'' = Some '''' \<or>
     env ''TEMPORAL_PROXY_STATIC_AUTH_FILE'' = None \<and> defaultStaticAuthFile env = ''''"
| "problem env JWTAudienceRequired \<longleftrightarrow>
     env ''TEMPORAL_PROXY_AUTH_MODE'' = Some WorkerAuthModeJWT \<and>
     Getenv env ''TEMPORAL_PROXY_JWT_AUDIENCE'' = ''''"
| "problem env ValkeyAddrsRequired \<longleftrightarrow>
     env ''TEMPORAL_PROXY_TOKEN_CACHE_BACKEND'' = Some TokenCacheBackendValkey \<and>
     getEnvList env ''TEMPORAL_PROXY_VALKEY_ADDRS'' = []"
| "problem env (MustBePositive key) \<longleftrightarrow>
     key \<in> set duration_variables \<and> not_positive ParseDuration env key \<or>
     key = ''TEMPORAL_PROXY_TOKEN_CACHE_MAX_SIZE'' \<and> not_positive Atoi env key"

lemma getEnvBool_error:
  "snd (getEnvBool env k def) = Some e \<longleftrightarrow> (\<exists>v. e = InvalidBoolean k v \<and> env k = Some v \<and> ParseBool v = None)"
  by (auto simp: getEnvBool_def split: option.splits)

lemma getEnvInt_error:
  "snd (getEnvInt env k def) = Some e \<longleftrightarrow> (\<exists>v. e = InvalidInteger k v \<and> env k = Some v \<and> Atoi v = None)"
  by (auto simp: getEnvInt_def split: option.splits)

lemma getEnvDuration_error:
  "snd (getEnvDuration env k def) = Some e \<longleftrightarrow>
     (\<exists>v. e = InvalidDuration k v \<and> env k = Some v \<and> ParseDuration v = None)"
  by (auto simp: getEnvDuration_def split: option.splits)

lemma set_read_errors:
  "e \<in> set (read_errors env) \<longleftrightarrow> problem env e \<and>
     (case e of InvalidBoolean _ _ \<Rightarrow> True | InvalidInteger _ _ \<Rightarrow> True | InvalidDuration _ _ \<Rightarrow> True | _ \<Rightarrow> False)"
  unfolding read_errors_def set_append Un_iff set_errors_of getEnvBool_error getEnvInt_error getEnvDuration_error
  by (cases e) (auto simp: duration_variables_def)

lemma config_of_simps:
  "uc_AuthMode (cf_Upstream (config_of env)) = getEnv env ''TEMPORAL_PROXY_UPSTREAM_AUTH_MODE'' AuthModeNone"
  "uc_APIKey (cf_Upstream (config_of env)) = Getenv env ''TEMPORAL_PROXY_UPSTREAM_API_KEY''"
  "uc_TLSMode (cf_Upstream (config_of env)) = getEnv env ''TEMPORAL_PROXY_UPSTREAM_TLS_MODE'' TLSModePlaintext"
  "dc_TLSMode (cf_Downstream (config_of env)) = getEnv env ''TEMPORAL_PROXY_DOWNSTREAM_TLS_MODE'' TLSModePlaintext"
  "dc_CertFile (cf_Downstream (config_of env)) = Getenv env ''TEMPORAL_PROXY_DOWNSTREAM_TLS_CERT_FILE''"
  "dc_KeyFile (cf_Downstream (config_of env)) = Getenv env ''TEMPORAL_PROXY_DOWNSTREAM_TLS_KEY_FILE''"
  "cf_StaticAuthFile (config_of env) = getEnv env ''TEMPORAL_PROXY_STATIC_AUTH_FILE'' (defaultStaticAuthFile env)"
  "cf_WorkerAuthMode (config_of env) = getEnv env ''TEMPORAL_PROXY_AUTH_MODE'' WorkerAuthModeStatic"
  "cf_JWTAudience (config_of env) = Getenv env ''TEMPORAL_PROXY_JWT_AUDIENCE''"
  "cf_TokenCacheBackend (config_of env) = getEnv env ''TEMPORAL_PROXY_TOKEN_CACHE_BACKEND'' TokenCacheBackendLocal"
  "cf_TokenCacheTTL (config_of env) = fst (getEnvDuration env ''TEMPORAL_PROXY_TOKEN_CACHE_TTL'' hour)"
  "cf_TokenCacheMaxSize (config_of env) = fst (getEnvInt env ''TEMPORAL_PROXY_TOKEN_CACHE_MAX_SIZE'' 100000)"
  "vk_Addrs (cf_Valkey (config_of env)) = getEnvList env ''TEMPORAL_PROXY_VALKEY_ADDRS''"
  "vk_TLSMode (cf_Valkey (config_of env)) = getEnv env ''TEMPORAL_PROXY_VALKEY_TLS_MODE'' TLSModeTLS"
  "vk_DialTimeout (cf_Valkey (config_of env)) = fst (getEnvDuration env ''TEMPORAL_PROXY_VALKEY_DIAL_TIMEOUT'' (seconds 5))"
  "vk_ReadTimeout (cf_Valkey (config_of env)) = fst (getEnvDuration env ''TEMPORAL_PROXY_VALKEY_READ_TIMEOUT'' (seconds 2))"
  "vk_WriteTimeout (cf_Valkey (config_of env)) = fst (getEnvDuration env ''TEMPORAL_PROXY_VALKEY_WRITE_TIMEOUT'' (seconds 2))"
  by (simp_all add: config_of_def base_config_def Let_def)

lemma modes_distinct [simp]:
  "AuthModeNone \<noteq> AuthModeAPIKey" "AuthModeAPIKey \<noteq> AuthModeNone"
  "TLSModePlaintext \<noteq> TLSModeTLS" "TLSModeTLS \<noteq> TLSModePlaintext"
  "WorkerAuthModeStatic \<noteq> WorkerAuthModeJWT" "WorkerAuthModeJWT \<noteq> WorkerAuthModeStatic"
  "TokenCacheBackendLocal \<noteq> TokenCacheBackendValkey" "TokenCacheBackendValkey \<noteq> TokenCacheBackendLocal"
  by (simp_all add: mode_defs)

lemma getEnv_changed: "d \<noteq> v \<Longrightarrow> getEnv env k d = v \<longleftrightarrow> env k = Some v"
  by (auto simp: getEnv_def split: option.split)

lemma getEnv_empty: "getEnv env k d = '''' \<longleftrightarrow> env k = Some '''' \<or> env k = None \<and> d = ''''"
  by (auto simp: getEnv_def split: option.split)

lemma getEnvDuration_not_positive:
  "0 < d \<Longrightarrow> fst (getEnvDuration env k d) \<le> 0 \<longleftrightarrow> not_positive ParseDuration env k"
  by (auto simp: getEnvDuration_def not_positive_def split: option.split)

lemma getEnvInt_not_positive: "0 < d \<Longrightarrow> fst (getEnvInt env k d) \<le> 0 \<longleftrightarrow> not_positive Atoi env k"
  by (auto simp: getEnvInt_def not_positive_def split: option.split)

lemma set_checks:
  "e \<in> set (check_upstream_auth c) \<longleftrightarrow>
     e = UpstreamAPIKeyRequired \<and> uc_AuthMode (cf_Upstream c) = AuthModeAPIKey \<and> uc_APIKey (cf_Upstream c) = '''' \<or>
     e = InvalidValue ''TEMPORAL_PROXY_UPSTREAM_AUTH_MODE'' (uc_AuthMode (cf_Upstream c)) [AuthModeNone, AuthModeAPIKey] \<and>
     uc_AuthMode (cf_Upstream c) \<notin> {AuthModeNone, AuthModeAPIKey}"
  "e \<in> set (check_tls_mode key mode) \<longleftrightarrow>
     e = InvalidValue key mode [TLSModePlaintext, TLSModeTLS] \<and> mode \<notin> {TLSModePlaintext, TLSModeTLS}"
  "e \<in> set (check_downstream_tls c) \<longleftrightarrow>
     e = DownstreamCertAndKeyRequired \<and> dc_TLSMode (cf_Downstream c) = TLSModeTLS \<and>
       (dc_CertFile (cf_Downstream c) = '''' \<or> dc_KeyFile (cf_Downstream c) = '''') \<or>
     e = InvalidValue ''TEMPORAL_PROXY_DOWNSTREAM_TLS_MODE'' (dc_TLSMode (cf_Downstream c)) [TLSModePlaintext, TLSModeTLS] \<and>
     dc_TLSMode (cf_Downstream c) \<notin> {TLSModePlaintext, TLSModeTLS}"
  "e \<in> set (check_worker_auth c) \<longleftrightarrow>
     e = JWTAudienceRequired \<and> cf_WorkerAuthMode c = WorkerAuthModeJWT \<and> cf_JWTAudience c = '''' \<or>
     e = InvalidValue ''TEMPORAL_PROXY_AUTH_MODE'' (cf_WorkerAuthMode c) [WorkerAuthModeStatic, WorkerAuthModeJWT] \<and>
     cf_WorkerAuthMode c \<notin> {WorkerAuthModeStatic, WorkerAuthModeJWT}"
  "e \<in> set (check_backend c) \<longleftrightarrow>
     e = ValkeyAddrsRequired \<and> cf_TokenCacheBackend c = TokenCacheBackendValkey \<and> vk_Addrs (cf_Valkey c) = [] \<or>
     e = InvalidValue ''TEMPORAL_PROXY_TOKEN_CACHE_BACKEND'' (cf_TokenCacheBackend c)
       [TokenCacheBackendLocal, TokenCacheBackendValkey] \<and>
     cf_TokenCacheBackend c \<notin> {TokenCacheBackendLocal, TokenCacheBackendValkey}"
  "e \<in> set (check_positive key n) \<longleftrightarrow> e = MustBePositive key \<and> n \<le> 0"
  by (auto simp: check_defs Let_def)

lemma defaults_positive [simp]: "0 < hour" "0 < n \<Longrightarrow> 0 < seconds n"
  by (simp_all add: hour_def seconds_def)

lemma problem_InvalidValue:
  "problem env (InvalidValue key v values) \<longleftrightarrow>
     list_ex (\<lambda>(k, d, ws). key = k \<and> v = getEnv env k d \<and> values = ws \<and> getEnv env k d \<notin> set ws) enumerated"
  by (auto simp: list_ex_iff)

lemma in_static_file_check: "e \<in> set (if x = '''' then [StaticAuthFileRequired] else []) \<longleftrightarrow> e = StaticAuthFileRequired \<and> x = ''''"
  by simp

lemmas in_validate = validate_def set_append Un_iff in_static_file_check set_checks config_of_simps

lemma validate_InvalidValue:
  "InvalidValue k v ws \<in> set (validate (config_of env)) \<longleftrightarrow> problem env (InvalidValue k v ws)"
  unfolding in_validate problem_InvalidValue by (simp add: enumerated_def cong: conj_cong)

lemma validate_MustBePositive:
  "MustBePositive k \<in> set (validate (config_of env)) \<longleftrightarrow> problem env (MustBePositive k)"
  unfolding in_validate
  by (simp add: getEnvDuration_not_positive getEnvInt_not_positive duration_variables_def) metis

lemma validate_required:
  "UpstreamAPIKeyRequired \<in> set (validate (config_of env)) \<longleftrightarrow> problem env UpstreamAPIKeyRequired"
  "DownstreamCertAndKeyRequired \<in> set (validate (config_of env)) \<longleftrightarrow> problem env DownstreamCertAndKeyRequired"
  "StaticAuthFileRequired \<in> set (validate (config_of env)) \<longleftrightarrow> problem env StaticAuthFileRequired"
  "JWTAudienceRequired \<in> set (validate (config_of env)) \<longleftrightarrow> problem env JWTAudienceRequired"
  "ValkeyAddrsRequired \<in> set (validate (config_of env)) \<longleftrightarrow> problem env ValkeyAddrsRequired"
  unfolding in_validate by (simp_all add: getEnv_changed getEnv_empty)

lemma validate_no_parse_errors:
  "InvalidBoolean k v \<notin> set (validate (config_of env))"
  "InvalidInteger k v \<notin> set (validate (config_of env))"
  "InvalidDuration k v \<notin> set (validate (config_of env))"
  unfolding in_validate by simp_all

lemma set_validate:
  "e \<in> set (validate (config_of env)) \<longleftrightarrow> problem env e \<and>
     (case e of InvalidBoolean _ _ \<Rightarrow> False | InvalidInteger _ _ \<Rightarrow> False | InvalidDuration _ _ \<Rightarrow> False | _ \<Rightarrow> True)"
  by (cases e) (simp_all only: validate_InvalidValue validate_MustBePositive validate_required
      validate_no_parse_errors config_error.case simp_thms)

lemma set_Load_errors: "set (read_errors env @ validate (config_of env)) = Collect (problem env)"
  by (rule set_eqI) (simp add: set_read_errors set_validate split: config_error.split)

subsection \<open>Each problem once\<close>

lemma distinct_errors_of [simp]: "distinct (errors_of err)"
  by (simp add: errors_of_def split: option.split)

lemma distinct_read_errors: "distinct (read_errors env)"
  unfolding read_errors_def distinct_append disjoint_iff set_append Un_iff set_errors_of
    getEnvBool_error getEnvInt_error getEnvDuration_error
  by auto

lemma distinct_checks [simp]:
  "distinct (check_upstream_auth c)" "distinct (check_tls_mode key mode)" "distinct (check_downstream_tls c)"
  "distinct (check_worker_auth c)" "distinct (check_backend c)" "distinct (check_positive key n)"
  by (simp_all add: check_defs Let_def)

lemma distinct_validate: "distinct (validate c)"
  unfolding validate_def distinct_append disjoint_iff set_append Un_iff in_static_file_check set_checks
  by auto

lemma distinct_problems: "distinct (read_errors env @ validate (config_of env))"
  by (auto simp: distinct_read_errors distinct_validate set_read_errors set_validate split: config_error.splits)

subsection \<open>Lists\<close>

lemma trim_parts_filter: "trim_parts vs parts = vs @ filter (\<lambda>v. v \<noteq> '''') (map TrimSpace parts)"
  by (induction vs parts rule: trim_parts.induct) (simp_all add: Let_def)

lemma set_TrimSpace: "set (TrimSpace s) \<subseteq> set s"
proof -
  have "set (trim_left ws t) \<subseteq> set t" for ws t
    using trim_left_suffix by (rule set_mono_suffix)
  from this [of "map rev spaces" "rev (trim_left spaces s)"] this [of spaces s]
  show ?thesis by (auto simp: TrimSpace_def)
qed

definition list_element :: "string \<Rightarrow> bool" where
  "list_element v \<longleftrightarrow> v \<noteq> '''' \<and> trimmed v \<and> CHR '','' \<notin> set v"

lemma getEnvList_elements: "v \<in> set (getEnvList env key) \<Longrightarrow> list_element v"
  using set_TrimSpace
  by (fastforce simp: getEnvList_def trim_parts_filter list_element_def TrimSpace_trimmed
      dest: split_parts split: option.splits)

lemma getEnvList_join:
  assumes "\<forall>v \<in> set vs. list_element v" and "env key = Some (join_with (CHR '','') vs)"
  shows "getEnvList env key = vs"
proof (cases "vs = []")
  case True
  moreover have "trimmed ''''" by (auto simp: trimmed_def dest: spaces_not_Nil)
  ultimately show ?thesis using assms(2)
    by (simp add: getEnvList_def trim_parts_filter TrimSpace_stable)
next
  case False
  have "map TrimSpace vs = vs" using assms(1) by (simp add: map_idI list_element_def TrimSpace_stable)
  moreover have "filter (\<lambda>v. v \<noteq> '''') vs = vs" using assms(1) by (simp add: filter_id_conv list_element_def)
  moreover have "split_on (CHR '','') (join_with (CHR '','') vs) = vs"
    using False assms(1) by (intro split_join) (auto simp: list_element_def)
  ultimately show ?thesis using assms(2) by (simp add: getEnvList_def trim_parts_filter)
qed

subsection \<open>Properties\<close>

text \<open>C16:
  Load reports every problem of the environment in one run, each once and nothing else, and succeeds
  exactly if there is none; the configuration it then returns is valid and made of the settings and
  the defaults.
\<close>

theorem config_problems_reported:
  "case Load env of
     Inl errs \<Rightarrow> errs \<noteq> [] \<and> distinct errs \<and> set errs = {e. problem env e}
   | Inr cfg \<Rightarrow> {e. problem env e} = {} \<and> valid_config cfg \<and> cfg = config_of env"
proof -
  have "read_errors env @ validate (config_of env) = [] \<Longrightarrow> {e. problem env e} = {}"
    using set_Load_errors [of env] by simp
  then show ?thesis
    using distinct_problems [of env] set_Load_errors [of env] validate_Nil [of "config_of env"]
    by (simp add: Load_eq Let_def)
qed

text \<open>
  The numbers of a loaded configuration are positive and fit their Go types: the lifetime, the
  timeouts of Valkey and the size of the cache are at least 1 and below \<open>2 ^ 63\<close>.
\<close>

lemma loaded_numbers_bounded:
  assumes "Load env = Inr cfg"
  shows "{cf_TokenCacheTTL cfg, cf_TokenCacheMaxSize cfg, vk_DialTimeout (cf_Valkey cfg),
      vk_ReadTimeout (cf_Valkey cfg), vk_WriteTimeout (cf_Valkey cfg)} \<subseteq> {1 ..< 2 ^ 63}"
proof -
  have "fst (getEnvDuration env k d) < 2 ^ 63" if "d < 2 ^ 63" for k d
    using that by (auto simp: getEnvDuration_def split: option.split dest: ParseDuration_bounds)
  moreover have "fst (getEnvInt env k d) < 2 ^ 63" if "d < 2 ^ 63" for k d
    using that by (auto simp: getEnvInt_def split: option.split dest: Atoi_bounds)
  ultimately show ?thesis
    using assms by (auto simp: Load_Inr valid_config_def config_of_simps hour_def seconds_def)
qed

text \<open>
  A list setting is read as its elements: each is non-empty, without white space around it and without
  a comma, and every such list, joined with commas, is read back as it was.
\<close>

lemma list_setting_roundtrip:
  "list_all list_element (getEnvList env key) \<and>
   (list_all list_element vs \<longrightarrow> getEnvList (env(key \<mapsto> join_with (CHR '','') vs)) key = vs)"
  using getEnvList_elements getEnvList_join [of vs "env(key \<mapsto> join_with (CHR '','') vs)" key]
  by (auto simp: list_all_iff)

text \<open>C35:
  A duration written as a sequence of whole numbers with units is read as their sum, and an integer
  written in decimal as itself, in the whole range of their types.
\<close>

theorem number_settings_roundtrip:
  assumes "ts \<noteq> []" and "\<forall>(n, u, k) \<in> set ts. (u, k) \<in> set unit_map"
    and "sum_list (map value_of_term ts) < 2 ^ 63" and "- (2 ^ 63) \<le> n" and "n < 2 ^ 63"
  shows "getEnvDuration (env(key \<mapsto> concat (map text_of_term ts))) key d = (int (sum_list (map value_of_term ts)), None) \<and>
    getEnvInt (env(key \<mapsto> show_int n)) key m = (n, None)"
  using ParseDuration_text [OF assms(1-3)] Atoi_show [OF assms(4,5)]
  by (simp add: getEnvDuration_def getEnvInt_def)

theorem number_settings_roundtrip_witness:
  "getEnvDuration [''A'' \<mapsto> ''1h30m''] ''A'' 0 = (5400000000000, None)"
proof -
  have "digit_char 0 = CHR ''0''" "digit_char 1 = CHR ''1''" "digit_char 3 = CHR ''3''" by code_simp+
  then show ?thesis
    using number_settings_roundtrip [where env = Map.empty and key = "''A''" and d = 0 and n = 0
        and ts = "[(1, ''h'', 3600000000000), (30, ''m'', 60000000000)]"]
    by (simp add: unit_map_def text_of_term_def show_nat.simps)
qed

end
