(* ===== verification/Upstream.thy ===== *)
theory Upstream
  imports Config Tls Server
begin

section \<open>internal/upstream: the connection to the Temporal server\<close>

text \<open>
  \<open>Dial\<close> chooses the transport and the interceptor of the connection.  The connection itself is
  grpc's: \<open>NewClient\<close> is a parameter that gives an error or the connection's \<open>Invoke\<close>, a function of
  the context, of the request and of the state of the upstream server.  (grpc sends the outgoing
  metadata of a context, not the incoming one and not its values; nothing here depends on it.)  The
  generated client calls the chain of interceptors around \<open>Invoke\<close>.
\<close>

type_synonym outgoing = "(string \<times> string) list"

type_synonym 'u invoker = "'u client"

definition AppendToOutgoingContext :: "request_context \<Rightarrow> outgoing \<Rightarrow> request_context" where
  "AppendToOutgoingContext ctx kvs = ctx\<lparr>cx_outgoing := cx_outgoing ctx @ kvs\<rparr>"

datatype transport = Plaintext | TLS tls_config

datatype dial_error =
    ReadingUpstreamCA string
  | NoUpstreamCertificates string
  | DialingUpstream string string

definition transportCredentials ::
  "file_system \<Rightarrow> pem_parser \<Rightarrow> upstream_config \<Rightarrow> dial_error + transport" where
  "transportCredentials ReadFile ParsePEM cfg =
     (if uc_TLSMode cfg = TLSModePlaintext then Inr Plaintext
      else (let tlsConfig = zero_tls_config\<lparr>InsecureSkipVerify := uc_TLSSkipVerify cfg,
                                            ServerName := uc_TLSServerName cfg\<rparr> in
            if uc_TLSCAFile cfg \<noteq> ''''
            then (case ReadFile (uc_TLSCAFile cfg) of
                    Inl err \<Rightarrow> Inl (ReadingUpstreamCA err)
                  | Inr pem \<Rightarrow>
                      (case AppendCertsFromPEM ParsePEM pem NewCertPool of (ok, pool) \<Rightarrow>
                         if \<not> ok then Inl (NoUpstreamCertificates (uc_TLSCAFile cfg))
                         else Inr (TLS (tlsConfig\<lparr>RootCAs := Some pool\<rparr>))))
            else Inr (TLS tlsConfig)))"

definition apiKeyInterceptor :: "string \<Rightarrow> 'u invoker \<Rightarrow> 'u invoker" where
  "apiKeyInterceptor apiKey invoker ctx req u =
     invoker (AppendToOutgoingContext ctx [(''authorization'', ''Bearer '' @ apiKey)]) req u"

text \<open>The chain of unary interceptors around \<open>Invoke\<close>, the first one outermost.\<close>

definition chain :: "('u invoker \<Rightarrow> 'u invoker) list \<Rightarrow> 'u invoker \<Rightarrow> 'u invoker" where
  "chain interceptors invoker = foldr (\<lambda>i inv. i inv) interceptors invoker"

definition Dial ::
  "file_system \<Rightarrow> pem_parser \<Rightarrow> (string \<Rightarrow> transport \<Rightarrow> string + 'u invoker) \<Rightarrow> upstream_config
   \<Rightarrow> dial_error + 'u client" where
  "Dial ReadFile ParsePEM NewClient cfg =
     (case transportCredentials ReadFile ParsePEM cfg of
        Inl err \<Rightarrow> Inl err
      | Inr transportCreds \<Rightarrow>
          (let opts = (if uc_AuthMode cfg = AuthModeAPIKey then [apiKeyInterceptor (uc_APIKey cfg)] else []) in
           case NewClient (uc_Addr cfg) transportCreds of
             Inl err \<Rightarrow> Inl (DialingUpstream (uc_Addr cfg) err)
           | Inr conn \<Rightarrow> Inr (chain opts conn)))"

subsection \<open>What the client sends, and over what\<close>

definition upstream_credential :: "upstream_config \<Rightarrow> outgoing" where
  "upstream_credential cfg =
     (if uc_AuthMode cfg = AuthModeAPIKey then [(''authorization'', ''Bearer '' @ uc_APIKey cfg)] else [])"

lemma chain_credential:
  "chain (if uc_AuthMode cfg = AuthModeAPIKey then [apiKeyInterceptor (uc_APIKey cfg)] else []) conn
     ctx req u = conn (AppendToOutgoingContext ctx (upstream_credential cfg)) req u"
  by (simp add: chain_def apiKeyInterceptor_def AppendToOutgoingContext_def upstream_credential_def)

text \<open>
  The connection is invoked with the credential after the pairs that the context has for the upstream.
\<close>

lemma Dial_Inr:
  assumes "Dial ReadFile ParsePEM NewClient cfg = Inr stub"
  obtains t conn where "transportCredentials ReadFile ParsePEM cfg = Inr t"
    and "NewClient (uc_Addr cfg) t = Inr conn"
    and "\<And>ctx req u. stub ctx req u = conn (AppendToOutgoingContext ctx (upstream_credential cfg)) req u"
proof -
  let ?opts = "if uc_AuthMode cfg = AuthModeAPIKey then [apiKeyInterceptor (uc_APIKey cfg)] else []"
  from assms obtain t conn where "transportCredentials ReadFile ParsePEM cfg = Inr t"
    and "NewClient (uc_Addr cfg) t = Inr conn" and "stub = chain ?opts conn"
    by (auto simp: Dial_def Let_def split: sum.splits)
  with chain_credential [of cfg conn] that show thesis by blast
qed

text \<open>
  The transport is the configured one: plaintext only in plaintext mode, certificates unverified only
  if asked for, and with a CA file the pool has exactly the certificates of that file, which are not
  none.
\<close>

definition transport_as_configured ::
  "file_system \<Rightarrow> pem_parser \<Rightarrow> upstream_config \<Rightarrow> transport \<Rightarrow> bool" where
  "transport_as_configured ReadFile ParsePEM cfg t \<longleftrightarrow>
     (case t of
        Plaintext \<Rightarrow> uc_TLSMode cfg = TLSModePlaintext
      | TLS c \<Rightarrow> uc_TLSMode cfg \<noteq> TLSModePlaintext \<and> InsecureSkipVerify c = uc_TLSSkipVerify cfg \<and>
          ServerName c = uc_TLSServerName cfg \<and>
          (case RootCAs c of
             None \<Rightarrow> uc_TLSCAFile cfg = ''''
           | Some pool \<Rightarrow> pool \<noteq> [] \<and> uc_TLSCAFile cfg \<noteq> '''' \<and>
               (\<exists>pem. ReadFile (uc_TLSCAFile cfg) = Inr pem \<and> set pool = set (ParsePEM pem))))"

lemma transportCredentials_configured:
  "transportCredentials ReadFile ParsePEM cfg = Inr t \<Longrightarrow> transport_as_configured ReadFile ParsePEM cfg t"
  by (auto simp: transport_as_configured_def transportCredentials_def zero_tls_config_def NewCertPool_def Let_def
      split: if_splits sum.splits prod.splits dest!: AppendCertsFromPEM_pool)

end
