(* ===== verification/Log_Level.thy ===== *)
theory Log_Level
  imports Interceptor Go_Numbers Go_Json
begin

section \<open>Log levels\<close>

text \<open>
  \<open>slog.Level\<close> and its \<open>UnmarshalText\<close>, with which \<open>configureLogging\<close> of \<open>cmd/temporal-proxy\<close> reads
  the configured level, and which of the interceptor's log lines a level lets through.
\<close>

datatype level = Level int

instantiation level :: linorder
begin

fun less_eq_level :: "level \<Rightarrow> level \<Rightarrow> bool" where
  "less_eq_level (Level a) (Level b) = (a \<le> b)"

fun less_level :: "level \<Rightarrow> level \<Rightarrow> bool" where
  "less_level (Level a) (Level b) = (a < b)"

instance
proof
  fix x y z :: level
  show "x < y \<longleftrightarrow> x \<le> y \<and> \<not> y \<le> x" by (cases x; cases y) auto
  show "x \<le> x" by (cases x) simp
  show "x \<le> y \<Longrightarrow> y \<le> z \<Longrightarrow> x \<le> z" by (cases x; cases y; cases z) simp
  show "x \<le> y \<Longrightarrow> y \<le> x \<Longrightarrow> x = y" by (cases x; cases y) simp
  show "x \<le> y \<or> y \<le> x" by (cases x; cases y) auto
qed

end

definition LevelDebug :: level where "LevelDebug = Level (- 4)"
definition LevelInfo :: level where "LevelInfo = Level 0"
definition LevelWarn :: level where "LevelWarn = Level 4"
definition LevelError :: level where "LevelError = Level 8"

lemmas level_defs = LevelDebug_def LevelInfo_def LevelWarn_def LevelError_def

text \<open>
  \<open>strings.ToUpper\<close>, exact where its result is ASCII, which is all that is compared: besides the ASCII
  letters only the dotless i and the long s have an upper case in ASCII.
\<close>

function ToUpper :: "string \<Rightarrow> string" where
  "ToUpper [] = []"
| "ToUpper (c # s) =
     (if hasPrefix (c # s) (encode_rune 0x0131) then CHR ''I'' # ToUpper (drop 2 (c # s))
      else if hasPrefix (c # s) (encode_rune 0x017F) then CHR ''S'' # ToUpper (drop 2 (c # s))
      else upper c # ToUpper s)"
  by pat_completeness auto
termination by (relation "measure length") auto

definition sign_char :: "char \<Rightarrow> bool" where
  "sign_char c \<longleftrightarrow> c = CHR ''+'' \<or> c = CHR ''-''"

definition level_name :: "string \<Rightarrow> int option" where
  "level_name name =
     map_of [(''DEBUG'', - 4), (''INFO'', 0), (''WARN'', 4), (''ERROR'', 8)] (ToUpper name)"

definition wrap_int64 :: "int \<Rightarrow> int" where
  "wrap_int64 n = (n + 2 ^ 63) mod 2 ^ 64 - 2 ^ 63"

definition UnmarshalText :: "string \<Rightarrow> level option" where
  "UnmarshalText s =
     (let name = takeWhile (\<lambda>c. \<not> sign_char c) s; rest = dropWhile (\<lambda>c. \<not> sign_char c) s in
      case (if rest = '''' then Some 0 else Atoi rest) of
        None \<Rightarrow> None
      | Some offset \<Rightarrow>
          (case level_name name of None \<Rightarrow> None | Some l \<Rightarrow> Some (Level (wrap_int64 (l + offset)))))"

text \<open>The level that is set.\<close>

definition configureLogging :: "string \<Rightarrow> level" where
  "configureLogging s = (case UnmarshalText s of None \<Rightarrow> LevelInfo | Some lvl \<Rightarrow> lvl)"

text \<open>The method of \<open>slog\<close> each line of the interceptor is written with.\<close>

fun line_level :: "log_line \<Rightarrow> level" where
  "line_level (LogAction _ _ _ _ _) = LevelInfo"
| "line_level (LogMissingScope _ _) = LevelError"
| "line_level (LogPutFailed _ _ _) = LevelError"
| "line_level _ = LevelWarn"

definition emitted :: "level \<Rightarrow> log_line list \<Rightarrow> log_line list" where
  "emitted lvl logs = filter (\<lambda>l. lvl \<le> line_level l) logs"

lemma line_level_action: "is_action l \<longleftrightarrow> line_level l = LevelInfo"
  by (cases l) (simp_all add: is_action_def level_defs)

lemma ToUpper_ascii: "list_all (\<lambda>c. ord c < 0x80) s \<Longrightarrow> ToUpper s = map upper s"
proof (induction s)
  case (Cons c s)
  then have "ord c < 0x80" by simp
  moreover have "\<not> hasPrefix (c # s) (encode_rune 0x0131)" and "\<not> hasPrefix (c # s) (encode_rune 0x017F)"
    using Cons.prems by (auto simp: hasPrefix_def encode_rune_def)
  ultimately show ?case using Cons by simp
qed simp

lemma wrap_int64_id: "- (2 ^ 63) \<le> n \<Longrightarrow> n < 2 ^ 63 \<Longrightarrow> wrap_int64 n = n"
  by (simp add: wrap_int64_def)

lemma emitted_upto_Info: "lvl \<le> LevelInfo \<Longrightarrow> emitted lvl logs = logs"
proof -
  assume "lvl \<le> LevelInfo"
  moreover have "LevelInfo \<le> line_level l" for l by (cases l) (simp_all add: level_defs)
  ultimately have "lvl \<le> line_level l" for l by (rule order_trans)
  then show ?thesis by (simp add: emitted_def)
qed

lemma emitted_above_Info:
  "LevelInfo < lvl \<Longrightarrow> lvl \<le> LevelWarn \<Longrightarrow> emitted lvl logs = filter (\<lambda>l. \<not> is_action l) logs"
proof -
  assume lvl: "LevelInfo < lvl" "lvl \<le> LevelWarn"
  have "lvl \<le> line_level l \<longleftrightarrow> \<not> is_action l" for l
    using lvl by (cases lvl; cases l) (auto simp: level_defs is_action_def)
  then show ?thesis by (simp add: emitted_def)
qed

text \<open>
  What the operator sees of the proxy's log.  At the default level, and for a level that cannot be
  parsed, every line is written; from a level above INFO up to WARN every refusal and every failure is
  still written, but the audit lines of the billed actions are not.
\<close>

lemma log_level_visibility:
  "emitted (configureLogging ''info'') logs = logs \<and>
   (case UnmarshalText s of
      None \<Rightarrow> emitted (configureLogging s) logs = logs
    | Some lvl \<Rightarrow>
        (if lvl \<le> LevelInfo then emitted (configureLogging s) logs = logs
         else lvl > LevelWarn \<or> emitted (configureLogging s) logs = filter (\<lambda>l. \<not> is_action l) logs))"
proof -
  have "ToUpper ''info'' = ''INFO''" by code_simp
  then have "level_name ''info'' = Some 0" by (simp add: level_name_def del: ToUpper.simps)
  then have "configureLogging ''info'' = LevelInfo"
    by (simp add: configureLogging_def UnmarshalText_def sign_char_def wrap_int64_def LevelInfo_def Let_def)
  moreover have "lvl > LevelWarn \<or> emitted lvl logs = filter (\<lambda>l. \<not> is_action l) logs"
    if "\<not> lvl \<le> LevelInfo" for lvl
    using that emitted_above_Info [of lvl logs] by (cases "lvl \<le> LevelWarn") (simp_all add: not_le)
  ultimately show ?thesis
    by (auto simp: configureLogging_def emitted_upto_Info split: option.splits)
qed

end
