(* ===== verification/Wiring.thy ===== *)
theory Wiring
  imports Proxy_Instances Config_Errors Upstream Log_Level
begin

section \<open>cmd/temporal-proxy: starting and stopping the proxy\<close>

text \<open>
  \<open>run\<close> of \<open>main.go\<close> and what it calls.  The operating system and the libraries are the record
  \<open>host\<close>; \<open>v\<close> is the state of the Valkey server, which the client of a new store talks to.  A run is
  its result and the list of what it did: \<open>Opened\<close> and \<open>Closed\<close> are the acquisition of a resource and
  the deferred calls that release it, in the order in which they happen.
\<close>

datatype cache_error =
    ReadingValkeyCA string
  | NoValkeyCertificates string
  | ValkeyFailed valkey_error

datatype run_error =
    LoadingConfig "config_error list"
  | BuildingAuthenticator auth_error
  | DialingUpstreamFailed dial_error
  | BuildingTokenCache cache_error
  | LoadingDownstreamTLS string
  | ListeningFailed string string
  | ServingFailed string

record ('u, 'v) host =
  Env :: environment
  ReadFile :: file_system
  ParsePEM :: pem_parser
  SystemCertPool :: "string + cert_pool"
  NewValidator :: "string + (string \<Rightarrow> string \<Rightarrow> string + (string \<Rightarrow> claim option))"
  NewGrpcClient :: "string \<Rightarrow> transport \<Rightarrow> string + 'u invoker"
  NewValkeyClient :: "client_option \<Rightarrow> string + 'v driver"
  Seed :: "bytes \<Rightarrow> 64 word"
  NewServerTLSFromFile :: "string \<Rightarrow> string \<Rightarrow> string + bytes"
  Listen :: "string \<Rightarrow> string option"

subsection \<open>The parts\<close>

definition valkeyTLSConfig ::
  "('u, 'v) host \<Rightarrow> valkey_config \<Rightarrow> cache_error + tls_config option" where
  "valkeyTLSConfig h cfg =
     (if vk_TLSMode cfg = TLSModePlaintext then Inr None
      else (let tlsConfig = zero_tls_config\<lparr>MinVersion := VersionTLS12\<rparr> in
            if vk_TLSCAFile cfg = '''' then Inr (Some tlsConfig)
            else (case ReadFile h (vk_TLSCAFile cfg) of
                    Inl err \<Rightarrow> Inl (ReadingValkeyCA err)
                  | Inr pem \<Rightarrow>
                      (let pool = (case SystemCertPool h of Inl err \<Rightarrow> NewCertPool | Inr p \<Rightarrow> p) in
                       case AppendCertsFromPEM (ParsePEM h) pem pool of (ok, pool) \<Rightarrow>
                         if \<not> ok then Inl (NoValkeyCertificates (vk_TLSCAFile cfg))
                         else Inr (Some (tlsConfig\<lparr>RootCAs := Some pool\<rparr>))))))"

text \<open>The interface value \<open>tokencache.Store\<close>: one of the two implementations, with its state.\<close>

datatype 'v token_cache = LocalCache cache | ValkeyCache "'v store" 'v

definition valkey_options_of :: "config \<Rightarrow> tls_config option \<Rightarrow> valkey_options" where
  "valkey_options_of cfg tlsConfig =
     \<lparr>vo_Addrs = vk_Addrs (cf_Valkey cfg), vo_Password = vk_Password (cf_Valkey cfg), vo_TLS = tlsConfig,
      vo_DialTimeout = vk_DialTimeout (cf_Valkey cfg), vo_ReadTimeout = vk_ReadTimeout (cf_Valkey cfg),
      vo_WriteTimeout = vk_WriteTimeout (cf_Valkey cfg), vo_TTL = cf_TokenCacheTTL cfg\<rparr>"

text \<open>
  The timeout of the context in which the new store is pinged.
\<close>

definition maxDuration :: "duration \<Rightarrow> duration \<Rightarrow> duration" where
  "maxDuration a b = (if a > b then a else b)"

definition pingTimeout :: "config \<Rightarrow> duration" where
  "pingTimeout cfg = maxDuration (vk_DialTimeout (cf_Valkey cfg)) (vk_ReadTimeout (cf_Valkey cfg))"

definition buildTokenCache :: "('u, 'v) host \<Rightarrow> config \<Rightarrow> 'v \<Rightarrow> (cache_error + 'v token_cache) \<times> 'v" where
  "buildTokenCache h cfg v =
     (if cf_TokenCacheBackend cfg = TokenCacheBackendValkey
      then (case valkeyTLSConfig h (cf_Valkey cfg) of
              Inl err \<Rightarrow> (Inl err, v)
            | Inr tlsConfig \<Rightarrow>
                (case NewValkeyStore (NewValkeyClient h) (Some (pingTimeout cfg)) (valkey_options_of cfg tlsConfig) v of
                   (Inl err, v') \<Rightarrow> (Inl (ValkeyFailed err), v')
                 | (Inr S, v') \<Rightarrow> (Inr (ValkeyCache S v'), v')))
      else (Inr (LocalCache (NewCache (cf_TokenCacheTTL cfg) (cf_TokenCacheMaxSize cfg) (Seed h))), v))"

definition buildAuthenticator :: "('u, 'v) host \<Rightarrow> config \<Rightarrow> auth_error + authenticator" where
  "buildAuthenticator h cfg =
     (if cf_WorkerAuthMode cfg = WorkerAuthModeJWT
      then NewJWTAuthenticatorFromFile (NewValidator h) (ReadFile h) (cf_StaticAuthFile cfg) (cf_JWTAudience cfg)
      else NewStaticAuthenticatorFromFile (ReadFile h) (cf_StaticAuthFile cfg))"

subsection \<open>run\<close>

text \<open>
  What a run acquires and has to give back: the upstream connection, the token cache, the listening
  socket, and the signal handler that \<open>signal.NotifyContext\<close> installs.
\<close>

datatype resource = UpstreamConnection | TokenCache | Listener | SignalHandler

record ('u, 'v) proxy =
  px_Authenticator :: authenticator
  px_Upstream :: "'u client"
  px_Cache :: "'v token_cache"
  px_TLS :: "bytes option"
  px_ListenAddr :: string

text \<open>
  What a run does.  \<open>Serving p\<close> is the start of \<open>Serve\<close>: the calls of \<open>Concurrent_Calls\<close> happen from
  then on.  \<open>GracefulStop\<close> returns when the handlers in progress have returned, so no call happens
  after it; after \<open>ServeFailed\<close> there is no such wait, and handlers may still be running while \<open>run\<close>
  returns.  Both close the listener, as grpc documents.
\<close>

datatype ('u, 'v) act =
    SetLogLevel level
  | Opened resource
  | Serving "('u, 'v) proxy"
  | GracefulStop
  | ServeFailed
  | Closed resource

text \<open>What ends the serving: a signal, or an error of \<open>grpcServer.Serve\<close>.\<close>

datatype ending = Signalled | ServeError string

text \<open>
  A return from \<open>run\<close>: the deferred calls are executed, the last one deferred first.  The error of
  \<open>cache.Close\<close> is only logged.
\<close>

definition return_from_run ::
  "run_error option \<Rightarrow> ('u, 'v) act list \<Rightarrow> resource list \<Rightarrow> run_error option \<times> ('u, 'v) act list" where
  "return_from_run result acts deferred = (result, acts @ map Closed deferred)"

text \<open>From \<open>net.Listen\<close> on, with what has been done and deferred before.\<close>

definition listen_and_serve ::
  "('u, 'v) host \<Rightarrow> ('u, 'v) proxy \<Rightarrow> ending \<Rightarrow> ('u, 'v) act list \<Rightarrow> resource list
   \<Rightarrow> run_error option \<times> ('u, 'v) act list" where
  "listen_and_serve h p ending acts deferred =
     (case Listen h (px_ListenAddr p) of
        Some err \<Rightarrow> return_from_run (Some (ListeningFailed (px_ListenAddr p) err)) acts deferred
      | None \<Rightarrow>
          (let acts = acts @ [Opened Listener, Opened SignalHandler, Serving p];
               deferred = SignalHandler # deferred in
           case ending of
             Signalled \<Rightarrow> return_from_run None (acts @ [GracefulStop, Closed Listener]) deferred
           | ServeError err \<Rightarrow>
               return_from_run (Some (ServingFailed err)) (acts @ [ServeFailed, Closed Listener]) deferred))"

definition downstreamTLS :: "('u, 'v) host \<Rightarrow> config \<Rightarrow> run_error + bytes option" where
  "downstreamTLS h cfg =
     (if dc_TLSMode (cf_Downstream cfg) = TLSModeTLS
      then (case NewServerTLSFromFile h (dc_CertFile (cf_Downstream cfg)) (dc_KeyFile (cf_Downstream cfg)) of
              Inl err \<Rightarrow> Inl (LoadingDownstreamTLS err)
            | Inr creds \<Rightarrow> Inr (Some creds))
      else Inr None)"

definition run ::
  "('u, 'v) host \<Rightarrow> 'v \<Rightarrow> ending \<Rightarrow> run_error option \<times> ('u, 'v) act list" where
  "run h v ending =
     (case Load (Env h) of
        Inl errs \<Rightarrow> return_from_run (Some (LoadingConfig errs)) [] []
      | Inr cfg \<Rightarrow>
          (let acts = [SetLogLevel (configureLogging (cf_LogLevel cfg))] in
           case buildAuthenticator h cfg of
             Inl err \<Rightarrow> return_from_run (Some (BuildingAuthenticator err)) acts []
           | Inr authenticator \<Rightarrow>
               (case Dial (ReadFile h) (ParsePEM h) (NewGrpcClient h) (cf_Upstream cfg) of
                  Inl err \<Rightarrow> return_from_run (Some (DialingUpstreamFailed err)) acts []
                | Inr stub \<Rightarrow>
                    (let acts = acts @ [Opened UpstreamConnection]; deferred = [UpstreamConnection] in
                     case buildTokenCache h cfg v of
                       (Inl err, v') \<Rightarrow> return_from_run (Some (BuildingTokenCache err)) acts deferred
                     | (Inr cache, v') \<Rightarrow>
                         (let acts = acts @ [Opened TokenCache]; deferred = TokenCache # deferred in
                          case downstreamTLS h cfg of
                            Inl err \<Rightarrow> return_from_run (Some err) acts deferred
                          | Inr tls \<Rightarrow>
                              listen_and_serve h
                                \<lparr>px_Authenticator = authenticator, px_Upstream = stub,
                                 px_Cache = cache, px_TLS = tls,
                                 px_ListenAddr = dc_ListenAddr (cf_Downstream cfg)\<rparr> ending acts deferred)))))"

text \<open>
  \<open>main\<close>: the error is logged and the process ends with status 1, and otherwise with 0.
\<close>

definition main_program ::
  "('u, 'v) host \<Rightarrow> 'v \<Rightarrow> ending \<Rightarrow> nat \<times> run_error option \<times> ('u, 'v) act list" where
  "main_program h v ending =
     (case run h v ending of
        (Some err, acts) \<Rightarrow> (1, Some err, acts)
      | (None, acts) \<Rightarrow> (0, None, acts))"

subsection \<open>What a run that serves has built\<close>

lemma run_serving:
  assumes "Serving p \<in> set (snd (run h v ending))"
  obtains cfg stub v' where "Load (Env h) = Inr cfg" and "buildAuthenticator h cfg = Inr (px_Authenticator p)"
    and "Dial (ReadFile h) (ParsePEM h) (NewGrpcClient h) (cf_Upstream cfg) = Inr stub"
    and "px_Upstream p = stub" and "buildTokenCache h cfg v = (Inr (px_Cache p), v')"
    and "downstreamTLS h cfg = Inr (px_TLS p)" and "px_ListenAddr p = dc_ListenAddr (cf_Downstream cfg)"
proof -
  have *: "q = p"
    if "Serving p \<in> set (snd (listen_and_serve h q ending acts deferred))" and "Serving p \<notin> set acts" for q acts deferred
    using that by (auto simp: listen_and_serve_def return_from_run_def Let_def split: option.splits ending.splits)
  from assms show thesis
    unfolding run_def Let_def
    by (auto simp: return_from_run_def split: sum.splits prod.splits dest!: * intro!: that)
qed

text \<open>The section of the auth file that a mode uses, and whether its keys are hashed.\<close>

definition auth_section :: "config \<Rightarrow> auth_file_config \<Rightarrow> (string \<times> static_key_entry) list" where
  "auth_section cfg af = (if cf_WorkerAuthMode cfg = WorkerAuthModeJWT then afc_emails af else afc_keys af)"

definition configured_table :: "('u, 'v) host \<Rightarrow> config \<Rightarrow> (string \<Rightarrow> identity option) \<Rightarrow> bool" where
  "configured_table h cfg identities \<longleftrightarrow>
     (\<exists>data af. ReadFile h (cf_StaticAuthFile cfg) = Inr data \<and> decode_auth_file data = Some af \<and>
        buildIdentities (auth_section cfg af) (cf_WorkerAuthMode cfg \<noteq> WorkerAuthModeJWT) = Inr identities)"

lemma buildAuthenticator_Inr:
  assumes "buildAuthenticator h cfg = Inr A"
  obtains data af identities where "ReadFile h (cf_StaticAuthFile cfg) = Inr data"
    and "decode_auth_file data = Some af"
    and "buildIdentities (auth_section cfg af) (cf_WorkerAuthMode cfg \<noteq> WorkerAuthModeJWT) = Inr identities"
    and "guards identities A"
proof (cases "cf_WorkerAuthMode cfg = WorkerAuthModeJWT")
  case True
  with assms have "NewJWTAuthenticatorFromFile (NewValidator h) (ReadFile h) (cf_StaticAuthFile cfg)
      (cf_JWTAudience cfg) = Inr A" by (simp add: buildAuthenticator_def)
  with True that show thesis
    by (elim NewJWTAuthenticatorFromFile_Inr) (auto simp: auth_section_def guards_def)
next
  case False
  with assms have "NewStaticAuthenticatorFromFile (ReadFile h) (cf_StaticAuthFile cfg) = Inr A"
    by (simp add: buildAuthenticator_def)
  with False that show thesis
    by (elim NewStaticAuthenticatorFromFile_Inr) (auto simp: auth_section_def guards_def)
qed

lemma buildTokenCache_local:
  "buildTokenCache h cfg v = (Inr (LocalCache c), v') \<Longrightarrow>
     c = NewCache (cf_TokenCacheTTL cfg) (cf_TokenCacheMaxSize cfg) (Seed h)"
  by (auto simp: buildTokenCache_def split: if_splits sum.splits prod.splits)

lemma NewValkeyStore_Inr:
  assumes "NewValkeyStore NewClient ctx opts v = (Inr S, v')"
  obtains opt D where "NewClient opt = Inr D"
    and "S = newValkeyStoreForClient (valkeyGoClient D (vo_ReadTimeout opts) (vo_WriteTimeout opts)) (vo_TTL opts)"
    and "vc_Ping (valkeyGoClient D (vo_ReadTimeout opts) (vo_WriteTimeout opts)) ctx v = (None, v')"
  using assms
  by (auto simp: NewValkeyStore_def newValkeyGoClient_def split: sum.splits prod.splits option.splits if_splits)

lemma buildTokenCache_valkey:
  assumes "buildTokenCache h cfg v = (Inr (ValkeyCache S w), v')"
  obtains opt D rt wt ctx where "NewValkeyClient h opt = Inr D" and "v' = w"
    and "S = newValkeyStoreForClient (valkeyGoClient D rt wt) (cf_TokenCacheTTL cfg)"
    and "vc_Ping (valkeyGoClient D rt wt) ctx v = (None, w)"
  using assms
  by (auto simp: buildTokenCache_def valkey_options_of_def split: if_splits sum.splits prod.splits
      elim!: NewValkeyStore_Inr)

text \<open>The errors of \<open>buildIdentities\<close> name an entry of the file.\<close>

lemma validateTaskQueues_error:
  assumes "validateTaskQueues key qs = Inl e"
  shows "e \<noteq> EmptyAudience"
proof -
  have "validate_queues_from key i out qs = Inl e \<Longrightarrow> e \<noteq> EmptyAudience" for i out
    by (induction key i out qs rule: validate_queues_from.induct) (auto split: if_splits)
  with assms show ?thesis by (auto simp: validateTaskQueues_def split: if_splits)
qed

lemma buildIdentities_error: "buildIdentities es hash = Inl e \<Longrightarrow> e \<noteq> EmptyAudience"
proof -
  have "build_identities_from hash m es = Inl e \<Longrightarrow> e \<noteq> EmptyAudience" for m
    by (induction hash m es rule: build_identities_from.induct)
      (auto split: if_splits sum.splits dest: validateTaskQueues_error)
  then show "buildIdentities es hash = Inl e \<Longrightarrow> e \<noteq> EmptyAudience" by (simp add: buildIdentities_def)
qed

lemma valkeyTLSConfig_error: "valkeyTLSConfig h cfg = Inl e \<Longrightarrow> e \<noteq> ValkeyFailed err"
  by (auto simp: valkeyTLSConfig_def Let_def split: if_splits sum.splits prod.splits)

lemma NewValkeyStore_error:
  "NewValkeyStore NewClient ctx opts v = (Inl e, v') \<Longrightarrow> vo_Addrs opts \<noteq> [] \<Longrightarrow> 0 < vo_TTL opts \<Longrightarrow>
     e \<noteq> AddrsRequired \<and> e \<noteq> TTLNotPositive"
  by (auto simp: NewValkeyStore_def newValkeyGoClient_def split: sum.splits option.splits prod.splits if_splits)

subsection \<open>Properties\<close>

text \<open>The two ways a run can go: it fails before it serves, or it serves.\<close>

lemma run_shape:
  obtains (failed) e ls rs where "run h v ending = (Some e, map SetLogLevel ls @ map Opened rs @ map Closed (rev rs))"
      and "rs \<in> {[], [UpstreamConnection], [UpstreamConnection, TokenCache]}" and "length ls \<le> 1"
    | (served) l p where "run h v ending = (case ending of Signalled \<Rightarrow> None | ServeError err \<Rightarrow> Some (ServingFailed err),
        [SetLogLevel l] @ map Opened [UpstreamConnection, TokenCache, Listener, SignalHandler] @
        [Serving p, case ending of Signalled \<Rightarrow> GracefulStop | ServeError err \<Rightarrow> ServeFailed] @
        map Closed [Listener, SignalHandler, TokenCache, UpstreamConnection])"
proof -
  have "(\<exists>e. run h v ending = (Some e, [])) \<or> (\<exists>e l. run h v ending = (Some e, [SetLogLevel l])) \<or>
    (\<exists>e l. run h v ending = (Some e, [SetLogLevel l, Opened UpstreamConnection, Closed UpstreamConnection])) \<or>
    (\<exists>e l. run h v ending = (Some e, [SetLogLevel l, Opened UpstreamConnection, Opened TokenCache,
       Closed TokenCache, Closed UpstreamConnection])) \<or>
    (\<exists>l p. run h v ending = (case ending of Signalled \<Rightarrow> None | ServeError err \<Rightarrow> Some (ServingFailed err),
        [SetLogLevel l, Opened UpstreamConnection, Opened TokenCache, Opened Listener, Opened SignalHandler,
         Serving p, case ending of Signalled \<Rightarrow> GracefulStop | ServeError err \<Rightarrow> ServeFailed,
         Closed Listener, Closed SignalHandler, Closed TokenCache, Closed UpstreamConnection]))"
    by (cases ending) (simp_all add: run_def listen_and_serve_def return_from_run_def Let_def
        split: sum.split prod.split option.split)
  then show thesis
  proof (elim disjE exE)
    fix e assume "run h v ending = (Some e, [])"
    then show thesis by (intro failed [of _ "[]" "[]"]) simp_all
  next
    fix e l assume "run h v ending = (Some e, [SetLogLevel l])"
    then show thesis by (intro failed [of _ "[l]" "[]"]) simp_all
  next
    fix e l assume "run h v ending = (Some e, [SetLogLevel l, Opened UpstreamConnection, Closed UpstreamConnection])"
    then show thesis by (intro failed [of _ "[l]" "[UpstreamConnection]"]) simp_all
  next
    fix e l assume "run h v ending = (Some e, [SetLogLevel l, Opened UpstreamConnection, Opened TokenCache,
       Closed TokenCache, Closed UpstreamConnection])"
    then show thesis by (intro failed [of _ "[l]" "[UpstreamConnection, TokenCache]"]) simp_all
  qed (rule served, simp)
qed

text \<open>
  A resource is held from when it is opened until it is closed; it is not opened while it is held,
  and closed only while it is.  The server serves, and stops, with everything it needs in its hands.
\<close>

fun balanced :: "resource set \<Rightarrow> ('u, 'v) act list \<Rightarrow> bool" where
  "balanced held [] \<longleftrightarrow> held = {}"
| "balanced held (Opened r # acts) \<longleftrightarrow> r \<notin> held \<and> balanced (insert r held) acts"
| "balanced held (Closed r # acts) \<longleftrightarrow> r \<in> held \<and> balanced (held - {r}) acts"
| "balanced held (SetLogLevel l # acts) \<longleftrightarrow> balanced held acts"
| "balanced held (a # acts) \<longleftrightarrow>
     held = {UpstreamConnection, TokenCache, Listener, SignalHandler} \<and> balanced held acts"

definition opened :: "('u, 'v) act list \<Rightarrow> resource list" where
  "opened acts = concat (map (\<lambda>a. case a of Opened r \<Rightarrow> [r] | _ \<Rightarrow> []) acts)"

definition closed :: "('u, 'v) act list \<Rightarrow> resource list" where
  "closed acts = concat (map (\<lambda>a. case a of Closed r \<Rightarrow> [r] | _ \<Rightarrow> []) acts)"

text \<open>C17:
  Every run gives back what it has acquired, the connection, the token cache, the listening socket and
  the signal handler, each once, wherever it fails.  It serves only while it holds all of them, and
  closes none before the server has stopped; what it has deferred is released in the reverse order of
  acquisition.  It ends without an error exactly if it has served and a signal has stopped it, and
  then the handlers have returned before anything is closed.
\<close>

theorem run_releases_resources:
  "balanced {} (snd (run h v ending)) \<and>
   filter (\<lambda>r. r \<noteq> Listener) (closed (snd (run h v ending))) =
     rev (filter (\<lambda>r. r \<noteq> Listener) (opened (snd (run h v ending)))) \<and>
   (fst (run h v ending) = None \<longleftrightarrow> ending = Signalled \<and> (\<exists>p. Serving p \<in> set (snd (run h v ending)))) \<and>
   (fst (run h v ending) = None \<longleftrightarrow>
     (\<exists>p acts acts'. snd (run h v ending) = acts @ [Serving p, GracefulStop] @ acts' \<and> closed acts = []))"
proof (cases rule: run_shape [of h v ending])
  case (failed e ls rs)
  then consider "ls = []" | l where "ls = [l]" by (cases ls) auto
  then show ?thesis
    using failed by cases (auto simp: opened_def closed_def Cons_eq_append_conv)
next
  case (served l p)
  then show ?thesis
    by (cases ending) (auto simp: opened_def closed_def Cons_eq_append_conv
        intro!: exI [of _ "[SetLogLevel l] @ map Opened [UpstreamConnection, TokenCache, Listener, SignalHandler]"])
qed

text \<open>C34:
  The configuration is validated in one place: once it has loaded, the constructors called with it
  find nothing to object to in it, neither an empty audience nor missing addresses nor a lifetime
  that is not positive.
\<close>

theorem no_late_config_error:
  "fst (run h v ending) \<notin>
     Some ` {BuildingAuthenticator EmptyAudience, BuildingTokenCache (ValkeyFailed AddrsRequired),
             BuildingTokenCache (ValkeyFailed TTLNotPositive)}"
proof -
  have auth: "buildAuthenticator h cfg \<noteq> Inl EmptyAudience" if "valid_config cfg" for cfg
  proof (cases "cf_WorkerAuthMode cfg = WorkerAuthModeJWT")
    case True
    with that have "cf_JWTAudience cfg \<noteq> ''''" by (auto simp: valid_config_def)
    with True show ?thesis
      by (auto simp: buildAuthenticator_def NewJWTAuthenticatorFromFile_def loadAuthFile_def
          split: sum.splits option.splits dest: buildIdentities_error)
  next
    case False
    then show ?thesis
      by (auto simp: buildAuthenticator_def NewStaticAuthenticatorFromFile_def loadAuthFile_def
          split: sum.splits option.splits dest: buildIdentities_error)
  qed
  have cache: "fst (buildTokenCache h cfg v) \<notin> Inl ` ValkeyFailed ` {AddrsRequired, TTLNotPositive}"
    if "valid_config cfg" for cfg
  proof (cases "cf_TokenCacheBackend cfg = TokenCacheBackendValkey")
    case True
    with that have "vk_Addrs (cf_Valkey cfg) \<noteq> []" and "0 < cf_TokenCacheTTL cfg"
      by (auto simp: valid_config_def)
    then have opts: "vo_Addrs (valkey_options_of cfg t) \<noteq> []" "0 < vo_TTL (valkey_options_of cfg t)" for t
      by (simp_all add: valkey_options_of_def)
    from True show ?thesis
      by (auto simp: buildTokenCache_def split: sum.splits prod.splits
          dest: valkeyTLSConfig_error NewValkeyStore_error [OF _ opts])
  qed (simp add: buildTokenCache_def image_iff)
  show ?thesis
  proof (cases "Load (Env h)")
    case (Inr cfg)
    then have "valid_config cfg" by (auto simp: Load_Inr)
    from auth [OF this] cache [OF this] Inr show ?thesis
      by (auto simp: run_def listen_and_serve_def return_from_run_def downstreamTLS_def Let_def
          split: sum.splits prod.splits option.splits ending.splits if_splits)
  qed (auto simp: run_def return_from_run_def)
qed

end
