(* ===== verification/Example_Run.thy ===== *)
theory Example_Run
  imports Proxy_Instances
begin

section \<open>A run of the shipped configuration\<close>

text \<open>
  One run on which the results are evaluated: the auth file shipped with the image, the local cache,
  and an upstream that hands out one workflow task.  The worker polls its queue, receives the task,
  and completes it with a command for its own queue.
\<close>

definition sample_answers :: "request \<Rightarrow> unit \<Rightarrow> (status + response) \<times> unit" where
  "sample_answers req u =
     (case req of
        PollWorkflowTaskQueueRequest _ _ \<Rightarrow> (Inr (PollWorkflowTaskQueueResponse ''tok''), u)
      | RespondWorkflowTaskCompletedRequest _ _ _ \<Rightarrow> (Inr (RespondWorkflowTaskCompletedResponse None []), u)
      | DescribeNamespaceRequest _ \<Rightarrow> (Inr (DescribeNamespaceResponse None), u)
      | _ \<Rightarrow> (Inr (OtherResponse (method_of req)), u))"

text \<open>It answers those only who present the proxy's API key.\<close>

definition sample_credential :: "(string \<times> string) list" where
  "sample_credential = [(''authorization'', ''Bearer upstream-key'')]"

definition sample_connection :: "unit client" where
  "sample_connection ctx req u =
     (if cx_outgoing ctx = sample_credential then sample_answers req u
      else (Inl (status_of (OtherCode 16) (UpstreamReason ''unauthenticated'')), u))"

definition sample_client :: "unit client" where
  "sample_client ctx req u = sample_connection (ctx\<lparr>cx_outgoing := cx_outgoing ctx @ sample_credential\<rparr>) req u"

definition sample_queue :: "task_queue option" where
  "sample_queue = Some \<lparr>tq_name = ''proxy-test-queue'', tq_kind = KIND_NORMAL, tq_normal_name = ''''\<rparr>"

definition sample_namespace :: string where
  "sample_namespace = ''stefan-ephemeral-workers.a2dd6''"

definition sample_metadata :: "metadata option" where
  "sample_metadata = Some [''authorization'' \<mapsto> [''Bearer test'']]"

definition poll_request :: request where
  "poll_request = PollWorkflowTaskQueueRequest sample_namespace sample_queue"

definition done_request :: request where
  "done_request =
     RespondWorkflowTaskCompletedRequest sample_namespace ''tok'' [ScheduleActivityTask sample_queue]"

definition service :: string where
  "service = ''/temporal.api.workflowservice.v1.WorkflowService/''"

definition poll_call :: call where
  "poll_call = \<lparr>ca_method = service @ ''PollWorkflowTaskQueue'', ca_metadata = sample_metadata,
                ca_request = Some poll_request\<rparr>"

definition done_call :: call where
  "done_call = \<lparr>ca_method = service @ ''RespondWorkflowTaskCompleted'', ca_metadata = sample_metadata,
                ca_request = Some done_request\<rparr>"

definition poll_checked :: checked where
  "poll_checked =
     \<lparr>ck_rpc = ''PollWorkflowTaskQueue'', ck_policy = policy_of CategoryPoll False,
      ck_identity = identity_of shipped_entry, ck_request = poll_request,
      ck_scope = ''proxy-test-queue'',
      ck_context = withIdentity (incoming_context sample_metadata) (identity_of shipped_entry)\<rparr>"

definition done_checked :: checked where
  "done_checked =
     \<lparr>ck_rpc = ''RespondWorkflowTaskCompleted'', ck_policy = policy_of CategoryToken True,
      ck_identity = identity_of shipped_entry, ck_request = done_request,
      ck_scope = ''proxy-test-queue'',
      ck_context = withIdentity (incoming_context sample_metadata) (identity_of shipped_entry)\<rparr>"

abbreviation sample_auth :: authenticator where
  "sample_auth \<equiv> StaticAuthenticate shipped_identities"

abbreviation sample_handler :: "unit handler" where
  "sample_handler \<equiv> Server sample_client"

definition sample_cache :: cache where
  "sample_cache = NewCache (3600 * second) 100000 (\<lambda>_. 0)"

definition cache_polled :: cache where
  "cache_polled = snd (cachePut (0, 0) ''tok'' (entry_of poll_checked) sample_cache)"

definition cache_checked :: cache where
  "cache_checked = snd (cacheGet (0, 0) ''tok'' cache_polled)"

definition cache_done :: cache where
  "cache_done = snd (cacheDelete (0, 0) ''tok'' cache_checked)"

lemma typed_sample: "typed_client sample_client"
  by (auto simp: typed_client_def sample_client_def sample_connection_def sample_answers_def split: request.splits if_splits)

lemma sample_identity: "sample_auth ''test'' = Inr (identity_of shipped_entry)"
  by (simp add: StaticAuthenticate_def shipped_identities_def)

lemma sample_key: "extractAPIKey (incoming_context sample_metadata) = Some ''test''"
  by (simp add: extractAPIKey_def sample_metadata_def mdGet_def bearer_prefix_def hasPrefix_def
      trimPrefix_def)

lemma service_method:
  "rpcNameFromFullMethod (service @ ''PollWorkflowTaskQueue'') = ''PollWorkflowTaskQueue''"
  "rpcNameFromFullMethod (service @ ''RespondWorkflowTaskCompleted'') = ''RespondWorkflowTaskCompleted''"
  by (simp_all add: rpcNameFromFullMethod_def service_def lastIndex_def)

lemma sample_request_for:
  "request_for ''PollWorkflowTaskQueue'' poll_request"
  "request_for ''RespondWorkflowTaskCompleted'' done_request"
  by (simp_all add: request_for_def poll_request_def done_request_def)

lemma sample_deliverable: "deliverable UNIV poll_call" "deliverable UNIV done_call"
  by (simp_all add: deliverable_def poll_call_def done_call_def service_method sample_request_for)

lemma poll_checks: "check_call sample_auth S clk poll_call c = (Inr poll_checked, [], c)"
  by (simp add: check_call_def poll_call_def service_method sample_key sample_identity
      authorizeRequest_def authorizePoll_def poll_request_def sample_queue_def sample_namespace_def
      pollTaskQueueScope_def poll_checked_def identity_of_def shipped_entry_def Let_def)

lemma polled_ok: "cache_ok cache_polled"
  unfolding cache_polled_def sample_cache_def by (rule cachePut_lru(1) [OF _ prod.collapse [symmetric]]) simp

lemma sample_hit: "cacheGet (0, 0) ''tok'' cache_polled = (Inr (Some (entry_of poll_checked)), cache_checked)"
proof -
  have put: "cachePut (0, 0) ''tok'' (entry_of poll_checked) sample_cache =
      (fst (cachePut (0, 0) ''tok'' (entry_of poll_checked) sample_cache), cache_polled)"
    by (simp add: cache_polled_def)
  have "\<forall>s \<in> set (c_shards sample_cache). 0 < sh_maxSize s"
    by (simp add: sample_cache_def NewCache_def newShard_def)
  moreover have "cache_ok sample_cache" and ttl: "c_ttl sample_cache = 3600 * second"
    by (simp_all add: sample_cache_def) (simp add: NewCache_def)
  ultimately have
    kept: "kept ''tok'' (entry_of poll_checked) (3600 * second) {} (cache_lru cache_polled ''tok'')"
    using put_kept [OF _ put] by simp
  have "fst (0, 0) \<le> 3600 * second" by (simp add: second_def)
  from kept_hit [OF polled_ok kept this] obtain c where
    "cacheGet (0, 0) ''tok'' cache_polled = (Inr (Some (entry_of poll_checked)), c)" by blast
  then show ?thesis by (simp add: cache_checked_def)
qed

lemma done_checks:
  "check_call sample_auth local_store (0, 0) done_call cache_polled = (Inr done_checked, [], cache_checked)"
  using sample_hit
  by (simp add: check_call_def done_call_def service_method sample_key sample_identity
      authorizeRequest_def authorizeToken_def done_request_def sample_queue_def sample_namespace_def
      local_store_def entry_of_def poll_checked_def command_check_def
      done_checked_def identity_of_def shipped_entry_def Let_def)

subsection \<open>The steps of the run\<close>

definition poll_reply :: "response option" where
  "poll_reply = Some (PollWorkflowTaskQueueResponse ''tok'')"

definition done_reply :: "response option" where
  "done_reply = Some (RespondWorkflowTaskCompletedResponse None [])"

lemma poll_handler: "sample_handler (ck_context poll_checked) (ck_request poll_checked) u = (Inr poll_reply, u)"
  by (simp add: poll_checked_def poll_request_def call_upstream_def sample_client_def sample_connection_def
      sample_answers_def withIdentity_def poll_reply_def)

lemma done_handler: "sample_handler (ck_context done_checked) (ck_request done_checked) u = (Inr done_reply, u)"
  by (simp add: done_checked_def done_request_def call_upstream_def sample_client_def sample_connection_def
      sample_answers_def withIdentity_def done_reply_def)

definition sample_start :: "(cache, unit) sys" where
  "sample_start = initial_sys sample_cache ()"

text \<open>After the poll: call 0 has returned, and its token is registered.\<close>

definition sample_polled :: "(cache, unit) sys" where
  "sample_polled = sample_start\<lparr>sy_store := cache_polled,
     sy_calls := [0 \<mapsto> Registering poll_checked poll_reply []],
     sy_trace := [EvForward 0 poll_checked, EvReply 0 poll_checked poll_reply]\<rparr>"

text \<open>After the completion has been forwarded.\<close>

definition sample_completed :: "(cache, unit) sys" where
  "sample_completed = sample_polled\<lparr>sy_store := cache_checked,
     sy_calls := [0 \<mapsto> Registering poll_checked poll_reply [], 1 \<mapsto> Completing done_checked done_reply],
     sy_trace := [EvForward 0 poll_checked, EvReply 0 poll_checked poll_reply,
       EvForward 1 done_checked, EvReply 1 done_checked done_reply]\<rparr>"

abbreviation sample_reachable :: "(cache, unit) sys \<Rightarrow> (cache, unit) sys \<Rightarrow> bool" where
  "sample_reachable \<equiv> reachable sample_auth local_store janitor_step sample_handler UNIV"

lemma polled_reachable: "sample_reachable sample_start sample_polled"
proof -
  let ?step = "proxy_step sample_auth local_store janitor_step sample_handler UNIV"
  let ?y1 = "sample_start\<lparr>sy_calls := [0 \<mapsto> Authorized poll_checked]\<rparr>"
  let ?y2 = "?y1\<lparr>sy_calls := [0 \<mapsto> Completing poll_checked poll_reply],
      sy_trace := [EvForward 0 poll_checked, EvReply 0 poll_checked poll_reply]\<rparr>"
  let ?y3 = "?y2\<lparr>sy_calls := [0 \<mapsto> Registering poll_checked poll_reply [''tok'']]\<rparr>"
  have "?step sample_start ?y1"
    using step_check [of sample_start 0 UNIV poll_call sample_auth local_store "(0, 0)"
        "Inr poll_checked" "[]" sample_cache janitor_step sample_handler] sample_deliverable
      poll_checks [of local_store "(0, 0)" sample_cache]
    by (simp add: sample_start_def initial_sys_def after_check_def)
  moreover have "?step ?y1 ?y2"
    using step_forward [of ?y1 0 poll_checked sample_handler poll_reply "()" UNIV sample_auth
        local_store janitor_step] poll_handler [of "()"]
    by (simp add: sample_start_def initial_sys_def)
  moreover have "?step ?y2 ?y3"
    using step_delete [of ?y2 0 poll_checked poll_reply local_store "(0, 0)" "[]" sample_cache
        sample_auth janitor_step sample_handler UNIV]
    by (simp add: sample_start_def initial_sys_def delete_terminal_def poll_checked_def poll_reply_def
        response_tokens_def)
  moreover have "?step ?y3 sample_polled"
    using step_register [of ?y3 0 poll_checked poll_reply "''tok''" "[]" local_store "(0, 0)" None "[]"
        cache_polled sample_auth janitor_step sample_handler UNIV]
    by (simp add: sample_start_def initial_sys_def register_token_def local_store_def
        after_register_def sample_polled_def cache_polled_def entry_of_def
        cachePut_def Let_def poll_checked_def)
  ultimately show ?thesis by (blast intro: run_step reach_start)
qed

lemma completed_reachable: "sample_reachable sample_start sample_completed"
proof -
  let ?step = "proxy_step sample_auth local_store janitor_step sample_handler UNIV"
  let ?y1 = "sample_polled\<lparr>sy_store := cache_checked,
      sy_calls := [0 \<mapsto> Registering poll_checked poll_reply [], 1 \<mapsto> Authorized done_checked]\<rparr>"
  have "?step sample_polled ?y1"
    using step_check [of sample_polled 1 UNIV done_call sample_auth local_store "(0, 0)"
        "Inr done_checked" "[]" cache_checked janitor_step sample_handler] done_checks sample_deliverable
    by (simp add: sample_polled_def sample_start_def initial_sys_def after_check_def)
  moreover have "?step ?y1 sample_completed"
    using step_forward [of ?y1 1 done_checked sample_handler done_reply "()" UNIV sample_auth
        local_store janitor_step] done_handler [of "()"]
    by (simp add: sample_completed_def sample_polled_def sample_start_def initial_sys_def)
  ultimately show ?thesis using polled_reachable by (blast intro: reach_step)
qed

end
