(* ===== verification/Fleet.thy ===== *)
theory Fleet
  imports Proxy_Instances
begin

section \<open>Several proxies in front of one token store\<close>

text \<open>
  A deployment runs any number of instances of the proxy, each with an authenticator, a store client
  and an upstream connection of its own, which share the Valkey server and the Temporal server.  A
  call belongs to the instance \<open>inst i\<close> it arrived at; a step of the fleet is a step of one instance
  that moves calls of that instance only.  Instances may be configured with different auth files, and
  one that starts later is one whose first call comes later.
\<close>

inductive fleet_step ::
  "('k \<Rightarrow> authenticator) \<Rightarrow> ('k \<Rightarrow> 's store) \<Rightarrow> ('s \<Rightarrow> 's \<Rightarrow> bool) \<Rightarrow> ('k \<Rightarrow> 'u handler) \<Rightarrow> bytes set
   \<Rightarrow> (nat \<Rightarrow> 'k) \<Rightarrow> ('s, 'u) sys \<Rightarrow> ('s, 'u) sys \<Rightarrow> bool"
  for A :: "'k \<Rightarrow> authenticator" and S :: "'k \<Rightarrow> 's store" and drift :: "'s \<Rightarrow> 's \<Rightarrow> bool"
    and handler :: "'k \<Rightarrow> 'u handler" and U :: "bytes set" and inst :: "nat \<Rightarrow> 'k" where
  fleet_move:
    "proxy_step (A k) (S k) drift (handler k) U y y' \<Longrightarrow>
     (\<forall>i. inst i \<noteq> k \<longrightarrow> sy_calls y' i = sy_calls y i) \<Longrightarrow>
     fleet_step A S drift handler U inst y y'"

inductive fleet_reachable ::
  "('k \<Rightarrow> authenticator) \<Rightarrow> ('k \<Rightarrow> 's store) \<Rightarrow> ('s \<Rightarrow> 's \<Rightarrow> bool) \<Rightarrow> ('k \<Rightarrow> 'u handler) \<Rightarrow> bytes set
   \<Rightarrow> (nat \<Rightarrow> 'k) \<Rightarrow> ('s, 'u) sys \<Rightarrow> ('s, 'u) sys \<Rightarrow> bool"
  for A :: "'k \<Rightarrow> authenticator" and S :: "'k \<Rightarrow> 's store" and drift :: "'s \<Rightarrow> 's \<Rightarrow> bool"
    and handler :: "'k \<Rightarrow> 'u handler" and U :: "bytes set" and inst :: "nat \<Rightarrow> 'k"
    and y0 :: "('s, 'u) sys" where
  fleet_start: "fleet_reachable A S drift handler U inst y0 y0"
| fleet_next: "fleet_reachable A S drift handler U inst y0 y \<Longrightarrow>
    fleet_step A S drift handler U inst y y' \<Longrightarrow> fleet_reachable A S drift handler U inst y0 y'"

text \<open>A step of one call is a step of the instance that the call is at.\<close>

lemma fleet_of_call:
  assumes "proxy_step (A (inst i)) (S (inst i)) drift (handler (inst i)) U y y'"
    and "\<forall>j. j \<noteq> i \<longrightarrow> sy_calls y' j = sy_calls y j"
  shows "fleet_step A S drift handler U inst y y'"
  by (rule fleet_move [of A "inst i" S drift handler, OF assms(1)]) (use assms(2) in metis)

text \<open>A run of one instance is a run of the fleet, as long as it moves no calls of the others.\<close>

lemma fleet_of_step:
  "proxy_step (A k) (S k) drift (handler k) U y y' \<Longrightarrow> (\<And>i. inst i = k) \<Longrightarrow>
   fleet_step A S drift handler U inst y y'"
  by (rule fleet_move) auto

lemma fleet_of_reachable:
  "reachable (A k) (S k) drift (handler k) U y0 y \<Longrightarrow> (\<And>i. inst i = k) \<Longrightarrow>
   fleet_reachable A S drift handler U inst y0 y"
  by (induction rule: reachable.induct) (blast intro: fleet_start fleet_next fleet_of_step)+

subsection \<open>What the instances promise each other\<close>

text \<open>A member's contract holds for the identities of the whole fleet.\<close>

lemma guarded_proxy_widen:
  assumes "guarded_proxy A C S tokens admissible ok holds drift" and "\<And>i. C i \<Longrightarrow> C' i"
    and "\<And>i. C' i \<Longrightarrow> well_formed_identity i"
    and "\<And>i q. C' i \<Longrightarrow> q \<in> set (id_task_queues i) \<Longrightarrow>
           admissible \<lparr>entry_namespace = id_namespace i, entry_task_queue = q\<rparr>"
  shows "guarded_proxy A C' S tokens admissible ok holds drift"
proof (intro guarded_proxy.intro guarded_proxy_axioms.intro)
  have "authenticator_contract A C" using assms(1) by (simp add: guarded_proxy_def)
  then show "authenticator_contract A C'"
    using assms(2,3) by (auto simp: authenticator_contract_def)
  show "token_store S tokens admissible ok holds drift" using assms(1) by (simp add: guarded_proxy_def)
qed (fact assms(4))

locale guarded_fleet =
  fixes A :: "'k \<Rightarrow> authenticator" and configured :: "'k \<Rightarrow> identity \<Rightarrow> bool"
    and S :: "'k \<Rightarrow> 's store" and tokens :: "bytes set" and admissible :: "entry \<Rightarrow> bool"
    and ok :: "'s \<Rightarrow> bool" and holds :: "'s \<Rightarrow> bytes \<Rightarrow> entry option"
    and drift :: "'s \<Rightarrow> 's \<Rightarrow> bool"
  assumes member: "guarded_proxy (A k) (configured k) (S k) tokens admissible ok holds drift"
begin

definition somewhere :: "identity \<Rightarrow> bool" where
  "somewhere i \<longleftrightarrow> (\<exists>k. configured k i)"

lemma member_contract: "authenticator_contract (A k) (configured k)"
  using member [of k] by (simp add: guarded_proxy_def)

lemma member_somewhere: "guarded_proxy (A k) somewhere (S k) tokens admissible ok holds drift"
proof (rule guarded_proxy_widen [OF member])
  show "well_formed_identity i" if "somewhere i" for i
    using that authenticator_contract.configured_well_formed [OF member_contract]
    by (auto simp: somewhere_def)
  show "admissible \<lparr>entry_namespace = id_namespace i, entry_task_queue = q\<rparr>"
    if "somewhere i" and "q \<in> set (id_task_queues i)" for i q
    using that guarded_proxy.configured_admissible [OF member] by (auto simp: somewhere_def)
qed (auto simp: somewhere_def)

text \<open>The invariant of one proxy, for the identities of all of them, is kept by a step of each.\<close>

abbreviation fleet_safe :: "('s, 'u) sys \<Rightarrow> bool" where
  "fleet_safe \<equiv> guarded_proxy.safe somewhere tokens ok holds"

lemma fleet_safe_reachable:
  "fleet_reachable A S drift handler tokens inst y0 y \<Longrightarrow> fleet_safe y0 \<Longrightarrow> fleet_safe y"
  by (induction rule: fleet_reachable.induct)
    (auto elim!: fleet_step.cases intro: guarded_proxy.safe_step [OF member_somewhere])

text \<open>An authorized call has an identity of the instance it arrived at.\<close>

definition at_home :: "(nat \<Rightarrow> 'k) \<Rightarrow> ('s, 'u) sys \<Rightarrow> bool" where
  "at_home inst y \<longleftrightarrow>
     (\<forall>i ck. sy_calls y i = Some (Authorized ck) \<or> EvForward i ck \<in> set (sy_trace y) \<longrightarrow>
        configured (inst i) (ck_identity ck))"

lemma checked_configured:
  "check_call (A k) T clk ca s = (Inr ck, logs, s') \<Longrightarrow> configured k (ck_identity ck)"
  by (auto simp: check_call_def Let_def split: option.splits sum.splits if_splits prod.splits
      intro: authenticator_contract.valid_configured [OF member_contract])

lemma at_home_step:
  assumes "fleet_step A S drift handler tokens inst y y'" and "at_home inst y"
  shows "at_home inst y'"
proof -
  from assms(1) obtain k where step: "proxy_step (A k) (S k) drift (handler k) tokens y y'"
    and others: "\<And>i. inst i \<noteq> k \<Longrightarrow> sy_calls y' i = sy_calls y i" by (auto elim: fleet_step.cases)
  from step show ?thesis
  proof (cases rule: proxy_step.cases)
    case (step_check i ca clk r logs s')
    then have "inst i = k" using others [of i] by auto
    with step_check assms(2) show ?thesis
      by (auto simp: at_home_def after_check_def checked_configured split: sum.splits)
  qed (use assms(2) in \<open>auto simp: at_home_def after_register_def split: option.splits if_splits\<close>)
qed

lemma at_home_reachable:
  "fleet_reachable A S drift handler tokens inst (initial_sys s u) y \<Longrightarrow> at_home inst y"
  by (induction rule: fleet_reachable.induct)
    (auto simp: at_home_def initial_sys_def intro: at_home_step [unfolded at_home_def, rule_format])

lemma fleet_event_justified:
  assumes "fleet_reachable A S drift handler tokens inst (initial_sys s u) y"
    and "ok s" and "\<forall>t. holds s t = None" and "EvForward i ck \<in> set (sy_trace y)"
  obtains tr1 tr2 where "sy_trace y = tr1 @ EvForward i ck # tr2" and "justified somewhere tr1 ck"
    and "configured (inst i) (ck_identity ck)"
proof -
  have "fleet_safe y"
    by (rule fleet_safe_reachable [OF assms(1) guarded_proxy.safe_initial [OF member_somewhere assms(2,3)]])
  from trace_ok_event [OF guarded_proxy.safeD(2) [OF member_somewhere this] assms(4)]
  obtain tr1 tr2 where "sy_trace y = tr1 @ EvForward i ck # tr2"
    and "justified somewhere tr1 (ev_checked (EvForward i ck))" by blast
  then have "sy_trace y = tr1 @ EvForward i ck # tr2" and "justified somewhere tr1 ck" by simp_all
  moreover have "configured (inst i) (ck_identity ck)"
    using at_home_reachable [OF assms(1)] assms(4) by (auto simp: at_home_def)
  ultimately show thesis by (rule that)
qed

end

subsection \<open>Instances in front of one Valkey server\<close>

lemma valkey_fleet_guarded:
  assumes "\<And>k. buildIdentities (entries k) (hash k) = Inr (identities k)" and "\<And>k. entries_utf8 (entries k)"
    and "\<And>k. guards (identities k) (A k)" and "\<And>k. valkey_tokens (client k) c_ok c_held c_drift U"
  shows "guarded_fleet A (\<lambda>k. in_table (identities k)) (\<lambda>k. newValkeyStoreForClient (client k) (ttl k)) U
           utf8_entry c_ok (valkey_holds c_held) c_drift"
  by (intro guarded_fleet.intro valkey_guarded [OF assms])

text \<open>
  One instance for API keys and one for identity tokens, with the two sections of the shipped auth
  file, over a server on which the results can be evaluated.
\<close>

definition sample_email :: string where
  "sample_email = ''782178815298-compute@developer.gserviceaccount.com''"

definition sample_tables :: "bool \<Rightarrow> string \<Rightarrow> identity option" where
  "sample_tables jwt =
     (if jwt then [sample_email \<mapsto> identity_of shipped_entry] else shipped_identities)"

definition sample_fleet_auth :: "bool \<Rightarrow> authenticator" where
  "sample_fleet_auth jwt =
     (if jwt then JWTAuthenticate (sample_tables jwt) (googleTokenValidator sample_validate ''https://proxy'')
      else StaticAuthenticate (sample_tables jwt))"

definition sample_fleet_store :: "bool \<Rightarrow> kv_server store" where
  "sample_fleet_store jwt =
     newValkeyStoreForClient (valkeyGoClient kv_driver (2 * 10 ^ 9) (2 * 10 ^ 9)) (3600 * 10 ^ 9)"

lemma sample_tables_built:
  "buildIdentities (if jwt then [(sample_email, shipped_entry)] else shipped_keys) (\<not> jwt) = Inr (sample_tables jwt)"
proof (cases jwt)
  case True
  then show ?thesis
    by (simp add: sample_tables_def)
      (simp add: buildIdentities_Inr map_key_def entry_ok_def shipped_entry_def sample_email_def)
next
  case False
  then show ?thesis using shipped.built by (simp add: sample_tables_def)
qed

interpretation kv_fleet: guarded_fleet sample_fleet_auth "\<lambda>jwt. in_table (sample_tables jwt)"
    sample_fleet_store "{t}" utf8_entry "\<lambda>_. True" "valkey_holds kv_held" kv_drift for t
  unfolding sample_fleet_store_def
proof (rule valkey_fleet_guarded)
  show "buildIdentities (if jwt then [(sample_email, shipped_entry)] else shipped_keys) (\<not> jwt) =
      Inr (sample_tables jwt)" for jwt
    by (rule sample_tables_built)
  show "entries_utf8 (if jwt then [(sample_email, shipped_entry)] else shipped_keys)" for jwt
    using decode_auth_file_valid [OF shipped_file_decoded] by (simp add: config_utf8_def sample_email_def)
  show "guards (sample_tables jwt) (sample_fleet_auth jwt)" for jwt
    by (auto simp: guards_def sample_fleet_auth_def)
  show "valkey_tokens (valkeyGoClient kv_driver rt wt) (\<lambda>_. True) kv_held kv_drift {t}" for rt wt
    by (rule kv_tokens.valkey_tokens_axioms)
qed

end
