(* ===== verification/Served_Proxy.thy ===== *)
theory Served_Proxy
  imports Wiring Example_Run Fleet
begin

section \<open>The proxy that a run serves with\<close>

text \<open>
  What holds of the authenticator and the store that \<open>run\<close> has built: together they are a
  \<open>guarded_proxy\<close>, with either token cache.  The laws of the Valkey server are assumed of every driver
  that \<open>valkey.NewClient\<close> can return.  At the end, sample hosts for the witnesses: the shipped auth
  file with each of the two caches.
\<close>

lemma served_guarded:
  assumes "Serving p \<in> set (snd (run h v ending))"
  obtains cfg data af identities v' where "Load (Env h) = Inr cfg" and "configured_table h cfg identities"
    and "decode_auth_file data = Some af" and "guards identities (px_Authenticator p)"
    and "buildIdentities (auth_section cfg af) (cf_WorkerAuthMode cfg \<noteq> WorkerAuthModeJWT) = Inr identities"
    and "buildTokenCache h cfg v = (Inr (px_Cache p), v')"
proof -
  from assms obtain cfg stub v' where cfg: "Load (Env h) = Inr cfg"
    and auth: "buildAuthenticator h cfg = Inr (px_Authenticator p)"
    and cache: "buildTokenCache h cfg v = (Inr (px_Cache p), v')"
    by (rule run_serving)
  from auth obtain data af identities where rf: "ReadFile h (cf_StaticAuthFile cfg) = Inr data"
      "decode_auth_file data = Some af"
    and table: "buildIdentities (auth_section cfg af) (cf_WorkerAuthMode cfg \<noteq> WorkerAuthModeJWT) = Inr identities"
    and guards: "guards identities (px_Authenticator p)"
    by (rule buildAuthenticator_Inr)
  then have "configured_table h cfg identities" by (auto simp: configured_table_def)
  with cfg rf(2) table guards cache that show thesis by blast
qed

lemma served_local:
  assumes "Serving p \<in> set (snd (run h v ending))" and "px_Cache p = LocalCache c"
  obtains cfg identities where "Load (Env h) = Inr cfg" and "configured_table h cfg identities"
    and "guarded_proxy (px_Authenticator p) (in_table identities) local_store UNIV (\<lambda>_. True) cache_ok cache_holds janitor_step"
    and "c = NewCache (cf_TokenCacheTTL cfg) (cf_TokenCacheMaxSize cfg) (Seed h)"
proof -
  from assms(1) obtain cfg data af identities v' where "Load (Env h) = Inr cfg"
    and "configured_table h cfg identities" and "guards identities (px_Authenticator p)"
    and "buildIdentities (auth_section cfg af) (cf_WorkerAuthMode cfg \<noteq> WorkerAuthModeJWT) = Inr identities"
    and "buildTokenCache h cfg v = (Inr (LocalCache c), v')"
    using assms(2) by (elim served_guarded) simp
  with that local_guarded buildTokenCache_local show thesis by metis
qed

context valkey_server
begin

lemma client_contract: "valkey_client_contract (valkeyGoClient D rt wt) v_ok v_held v_drift"
  by (rule go.valkey_client_contract_axioms)

lemma pinged:
  assumes "v_ok v" and "vc_Ping (valkeyGoClient D rt wt) ctx v = (r, w)"
  shows "v_ok w" and "v_held w k = Some y \<Longrightarrow> v_held v k = Some y"
  using assms ping_ok ping_held by (auto simp: valkeyGoClient_def)

end

lemma auth_section_utf8:
  assumes "decode_auth_file data = Some af"
  shows "entries_utf8 (auth_section cfg af)"
  using decode_auth_file_valid [OF assms] by (simp add: auth_section_def config_utf8_def)

lemma served_valkey_guarded:
  assumes "Serving p \<in> set (snd (run h v ending))" and "px_Cache p = ValkeyCache S w"
    and server: "\<And>opt D. NewValkeyClient h opt = Inr D \<Longrightarrow> valkey_server D v_ok v_held v_drift"
    and "inj_on sha256_hex U"
  obtains cfg identities opt D rt wt ctx where "Load (Env h) = Inr cfg" and "configured_table h cfg identities"
    and "guarded_proxy (px_Authenticator p) (in_table identities) S U utf8_entry v_ok (valkey_holds v_held) v_drift"
    and "NewValkeyClient h opt = Inr D" and "vc_Ping (valkeyGoClient D rt wt) ctx v = (None, w)"
proof -
  from assms(1) obtain cfg data af identities v' where cfg: "Load (Env h) = Inr cfg"
    and table: "configured_table h cfg identities" and af: "decode_auth_file data = Some af"
    and guards: "guards identities (px_Authenticator p)"
    and built: "buildIdentities (auth_section cfg af) (cf_WorkerAuthMode cfg \<noteq> WorkerAuthModeJWT) = Inr identities"
    and cache: "buildTokenCache h cfg v = (Inr (ValkeyCache S w), v')"
    using assms(2) by (elim served_guarded) simp
  from cache obtain opt D rt wt ctx where D: "NewValkeyClient h opt = Inr D"
    and S: "S = newValkeyStoreForClient (valkeyGoClient D rt wt) (cf_TokenCacheTTL cfg)"
    and ping: "vc_Ping (valkeyGoClient D rt wt) ctx v = (None, w)"
    by (rule buildTokenCache_valkey)
  have "valkey_tokens (valkeyGoClient D rt wt) v_ok v_held v_drift U"
    by (intro valkey_tokens.intro valkey_tokens_axioms.intro
        valkey_server.client_contract [OF server [OF D]] assms(4))
  from valkey_guarded [OF built auth_section_utf8 [OF af] guards this]
  have "guarded_proxy (px_Authenticator p) (in_table identities) S U utf8_entry v_ok (valkey_holds v_held) v_drift"
    unfolding S .
  with that cfg table D ping show thesis by blast
qed

text \<open>A server without entries.\<close>

lemma empty_holds: "\<forall>k. v_held v k = None \<Longrightarrow> \<forall>t. valkey_holds v_held v t = None"
  by (simp add: valkey_holds_def decoded_def)

lemma served_valkey:
  assumes "Serving p \<in> set (snd (run h v ending))" and "px_Cache p = ValkeyCache S w"
    and server: "\<And>opt D. NewValkeyClient h opt = Inr D \<Longrightarrow> valkey_server D v_ok v_held v_drift"
    and "inj_on sha256_hex U" and "v_ok v" and "\<forall>k. v_held v k = None"
  obtains cfg identities where "Load (Env h) = Inr cfg" and "configured_table h cfg identities"
    and "guarded_proxy (px_Authenticator p) (in_table identities) S U utf8_entry v_ok (valkey_holds v_held) v_drift"
    and "v_ok w" and "\<forall>t. valkey_holds v_held w t = None"
proof -
  from assms(1-4) obtain cfg identities opt D rt wt ctx where c: "Load (Env h) = Inr cfg"
    "configured_table h cfg identities"
    "guarded_proxy (px_Authenticator p) (in_table identities) S U utf8_entry v_ok (valkey_holds v_held) v_drift"
    and D: "NewValkeyClient h opt = Inr D" and ping: "vc_Ping (valkeyGoClient D rt wt) ctx v = (None, w)"
    by (rule served_valkey_guarded)
  note pinged = valkey_server.pinged [OF server [OF D] assms(5) ping]
  have "v_held w k = None" for k using pinged(2) [of k] assms(6) by (cases "v_held w k") auto
  then show thesis using that c pinged(1) empty_holds [of v_held w] by simp
qed

text \<open>Several runs, each on its own host, on one Valkey server.\<close>

lemma served_fleet:
  fixes h :: "'k \<Rightarrow> ('u, 'v) host"
  assumes "\<And>k. Serving (p k) \<in> set (snd (run (h k) (v k) (ending k)))"
    and "\<And>k. px_Cache (p k) = ValkeyCache (S k) (w k)"
    and "\<And>k opt D. NewValkeyClient (h k) opt = Inr D \<Longrightarrow> valkey_server D v_ok v_held v_drift"
    and "inj_on sha256_hex U"
  obtains cfg identities where "\<forall>k. Load (Env (h k)) = Inr (cfg k) \<and> configured_table (h k) (cfg k) (identities k)"
    and "guarded_fleet (\<lambda>k. px_Authenticator (p k)) (\<lambda>k. in_table (identities k)) S U utf8_entry v_ok
           (valkey_holds v_held) v_drift"
proof -
  have "\<exists>cfg identities. Load (Env (h k)) = Inr cfg \<and> configured_table (h k) cfg identities \<and>
      guarded_proxy (px_Authenticator (p k)) (in_table identities) (S k) U utf8_entry v_ok (valkey_holds v_held) v_drift"
    for k
    by (rule served_valkey_guarded [OF assms(1,2) assms(3) assms(4), of k]) blast+
  then obtain cfg identities where "Load (Env (h k)) = Inr (cfg k)"
    "configured_table (h k) (cfg k) (identities k)"
    "guarded_proxy (px_Authenticator (p k)) (in_table (identities k)) (S k) U utf8_entry v_ok (valkey_holds v_held) v_drift"
    for k by metis
  then show thesis by (intro that guarded_fleet.intro) auto
qed

subsection \<open>Sample hosts\<close>

definition sample_env :: "string \<Rightarrow> environment" where
  "sample_env backend =
     [''TEMPORAL_PROXY_STATIC_AUTH_FILE'' \<mapsto> ''static-auth.json'',
      ''TEMPORAL_PROXY_UPSTREAM_AUTH_MODE'' \<mapsto> ''api-key'',
      ''TEMPORAL_PROXY_UPSTREAM_API_KEY'' \<mapsto> ''upstream-key'',
      ''TEMPORAL_PROXY_TOKEN_CACHE_BACKEND'' \<mapsto> backend,
      ''TEMPORAL_PROXY_VALKEY_ADDRS'' \<mapsto> ''a:1'',
      ''TEMPORAL_PROXY_VALKEY_TLS_MODE'' \<mapsto> ''plaintext'']"

definition sample_host :: "string \<Rightarrow> (unit, kv_server) host" where
  "sample_host backend =
     \<lparr>Env = sample_env backend, ReadFile = (\<lambda>_. Inr shipped_file), ParsePEM = (\<lambda>_. []),
      SystemCertPool = Inl ''none'', NewValidator = Inl ''offline'',
      NewGrpcClient = (\<lambda>_ _. Inr sample_connection), NewValkeyClient = (\<lambda>_. Inr kv_driver),
      Seed = (\<lambda>_. 0), NewServerTLSFromFile = (\<lambda>_ _. Inl ''none''), Listen = (\<lambda>_. None)\<rparr>"

definition sample_proxy :: "kv_server token_cache \<Rightarrow> (unit, kv_server) proxy" where
  "sample_proxy cache =
     \<lparr>px_Authenticator = sample_auth, px_Upstream = sample_client, px_Cache = cache, px_TLS = None,
      px_ListenAddr = ''127.0.0.1:7243''\<rparr>"

lemma sample_addrs: "getEnvList (sample_env b) ''TEMPORAL_PROXY_VALKEY_ADDRS'' = [''a:1'']"
  by (rule getEnvList_join) (simp_all add: list_element_def trimmed_printable byte_class sample_env_def)

lemma sample_Load:
  assumes "b \<in> {''local'', ''valkey''}"
  shows "Load (sample_env b) = Inr (config_of (sample_env b))"
proof -
  have "read_errors (sample_env b) = []"
    by (simp add: read_errors_def errors_of_def getEnvBool_def getEnvDuration_def getEnvInt_def sample_env_def)
  moreover have "valid_config (config_of (sample_env b))"
    using assms unfolding valid_config_def config_of_simps sample_addrs
    by (auto simp: getEnv_def Getenv_def sample_env_def getEnvDuration_def getEnvInt_def mode_defs)
  ultimately show ?thesis by (simp add: Load_Inr)
qed

lemma sample_authenticator: "buildAuthenticator (sample_host b) (config_of (sample_env b)) = Inr sample_auth"
  by (simp add: buildAuthenticator_def config_of_simps getEnv_def sample_env_def NewStaticAuthenticatorFromFile_def
      loadAuthFile_def sample_host_def shipped_file_decoded shipped.built)

lemma sample_Dial:
  "Dial (ReadFile (sample_host b)) (ParsePEM (sample_host b)) (NewGrpcClient (sample_host b))
     (cf_Upstream (config_of (sample_env b))) = Inr sample_client"
  by (simp add: Dial_def transportCredentials_def config_of_simps getEnv_def Getenv_def sample_env_def sample_host_def
      chain_def mode_defs fun_eq_iff apiKeyInterceptor_def AppendToOutgoingContext_def sample_client_def
      sample_credential_def)

lemma sample_run:
  assumes "b \<in> {''local'', ''valkey''}"
    and "buildTokenCache (sample_host b) (config_of (sample_env b)) sample_server = (Inr cache, v')"
  shows "run (sample_host b) sample_server Signalled =
     (None, [SetLogLevel (configureLogging (cf_LogLevel (config_of (sample_env b)))), Opened UpstreamConnection,
        Opened TokenCache, Opened Listener, Opened SignalHandler, Serving (sample_proxy cache), GracefulStop,
        Closed Listener, Closed SignalHandler, Closed TokenCache, Closed UpstreamConnection])"
proof -
  have env: "Env (sample_host b) = sample_env b" and listen: "Listen (sample_host b) a = None" for a
    by (simp_all add: sample_host_def)
  have down: "downstreamTLS (sample_host b) (config_of (sample_env b)) = Inr None"
    by (simp add: downstreamTLS_def config_of_simps getEnv_def sample_env_def)
  have addr: "dc_ListenAddr (cf_Downstream (config_of (sample_env b))) = ''127.0.0.1:7243''"
    by (simp add: config_of_def base_config_def Let_def getEnv_def sample_env_def)
  show ?thesis
    by (simp add: run_def env sample_Load [OF assms(1)] sample_authenticator sample_Dial assms(2) down addr
        listen_and_serve_def return_from_run_def listen sample_proxy_def)
qed

lemma sample_local_cache:
  "buildTokenCache (sample_host ''local'') (config_of (sample_env ''local'')) v = (Inr (LocalCache sample_cache), v)"
  by (simp add: buildTokenCache_def config_of_simps getEnv_def sample_env_def mode_defs getEnvDuration_def getEnvInt_def
      sample_cache_def hour_def second_def sample_host_def)

lemma local_serving:
  "Serving (sample_proxy (LocalCache sample_cache)) \<in> set (snd (run (sample_host ''local'') sample_server Signalled))"
  by (simp add: sample_run [OF _ sample_local_cache])

definition sample_valkey_store :: "kv_server store" where
  "sample_valkey_store = newValkeyStoreForClient (valkeyGoClient kv_driver (seconds 2) (seconds 2)) hour"

lemma sample_valkey_cache:
  "buildTokenCache (sample_host ''valkey'') (config_of (sample_env ''valkey'')) sample_server =
     (Inr (ValkeyCache sample_valkey_store sample_server), sample_server)"
proof -
  have ping: "vc_Ping (valkeyGoClient kv_driver rt wt) ctx sample_server = (None, sample_server)" for rt wt ctx
    by (simp add: valkeyGoClient_def kv_driver_def sample_server_def)
  let ?c = "config_of (sample_env ''valkey'')"
  have "cf_TokenCacheBackend ?c = TokenCacheBackendValkey" and "vk_TLSMode (cf_Valkey ?c) = TLSModePlaintext"
    and "cf_TokenCacheTTL ?c = hour" and "vk_ReadTimeout (cf_Valkey ?c) = seconds 2"
    and "vk_WriteTimeout (cf_Valkey ?c) = seconds 2"
    by (simp_all add: config_of_simps getEnv_def getEnvDuration_def sample_env_def mode_defs)
  moreover have "vk_Addrs (cf_Valkey ?c) = [''a:1'']" by (simp add: config_of_simps sample_addrs)
  moreover have "\<not> hour \<le> 0" by (simp add: hour_def)
  ultimately show ?thesis
    by (simp add: buildTokenCache_def valkeyTLSConfig_def NewValkeyStore_def newValkeyGoClient_def
        valkey_options_of_def sample_host_def ping sample_valkey_store_def)
qed

lemma valkey_serving:
  "Serving (sample_proxy (ValkeyCache sample_valkey_store sample_server)) \<in>
     set (snd (run (sample_host ''valkey'') sample_server Signalled))"
  by (simp add: sample_run [OF _ sample_valkey_cache])

text \<open>With the Valkey store, a poll that has been forwarded.\<close>

definition valkey_polled :: "(kv_server, unit) sys" where
  "valkey_polled = (initial_sys sample_server ())\<lparr>sy_calls := [0 \<mapsto> Completing poll_checked poll_reply],
     sy_trace := [EvForward 0 poll_checked, EvReply 0 poll_checked poll_reply]\<rparr>"

lemma valkey_poll_steps:
  "proxy_step sample_auth sample_valkey_store kv_drift sample_handler {''tok''} (initial_sys sample_server ())
     ((initial_sys sample_server ())\<lparr>sy_calls := [0 \<mapsto> Authorized poll_checked]\<rparr>)"
  "proxy_step sample_auth sample_valkey_store kv_drift sample_handler {''tok''}
     ((initial_sys sample_server ())\<lparr>sy_calls := [0 \<mapsto> Authorized poll_checked]\<rparr>) valkey_polled"
proof -
  let ?step = "proxy_step sample_auth sample_valkey_store kv_drift sample_handler {''tok''}"
  let ?y0 = "initial_sys sample_server ()"
  let ?y1 = "?y0\<lparr>sy_calls := [0 \<mapsto> Authorized poll_checked]\<rparr>"
  have "deliverable {''tok''} poll_call"
    by (simp add: deliverable_def poll_call_def service_method sample_request_for) (simp add: poll_request_def)
  then show "?step ?y0 ?y1"
    using step_check [of ?y0 0 "{''tok''}" poll_call sample_auth sample_valkey_store "(0, 0)" "Inr poll_checked" "[]"
        sample_server kv_drift sample_handler] poll_checks [of sample_valkey_store "(0, 0)" sample_server]
    by (simp add: initial_sys_def after_check_def)
  show "?step ?y1 valkey_polled"
    using step_forward [of ?y1 0 poll_checked sample_handler poll_reply "()" "{''tok''}" sample_auth
        sample_valkey_store kv_drift] poll_handler [of "()"]
    by (simp add: valkey_polled_def initial_sys_def poll_reply_def response_tokens_def)
qed

lemma valkey_polled_reachable:
  "reachable sample_auth sample_valkey_store kv_drift sample_handler {''tok''} (initial_sys sample_server ()) valkey_polled"
  using valkey_poll_steps by (blast intro: run_step reach_start)

subsection \<open>A token that is issued by one instance and used at another\<close>

text \<open>
  Call 0 is a poll at one instance of the sample fleet; call 1, at the other, completes the task.
\<close>

definition stored_server :: kv_server where
  "stored_server =
     sample_server\<lparr>kv_data := [tokenKey ''tok'' \<mapsto> (encodeValkeyEntry (entry_of poll_checked), 3600000)]\<rparr>"

definition fleet_completed :: "(kv_server, unit) sys" where
  "fleet_completed = (initial_sys stored_server ())\<lparr>
     sy_calls := [0 \<mapsto> Registering poll_checked poll_reply [], 1 \<mapsto> Completing done_checked done_reply],
     sy_trace := [EvForward 0 poll_checked, EvReply 0 poll_checked poll_reply,
       EvForward 1 done_checked, EvReply 1 done_checked done_reply]\<rparr>"

lemma poll_entry_utf8: "utf8_entry (entry_of poll_checked)"
  by (simp add: entry_of_def poll_checked_def identity_of_def shipped_entry_def utf8_entry_def
      html_safe_body html_safe_def)

lemma stored_put: "Put sample_valkey_store clk ''tok'' (entry_of poll_checked) sample_server = (None, stored_server)"
  by (simp add: sample_valkey_store_def newValkeyStoreForClient_def valkeyPut_def valkeyGoClient_def kv_driver_def
      sample_server_def stored_server_def hour_def second_def ttlMilliseconds_def millisecond_def
      signed_divide_int_def signed_modulo_int_def)

lemma stored_get: "Get sample_valkey_store clk ''tok'' stored_server = (Inr (Some (entry_of poll_checked)), stored_server)"
  by (simp add: sample_valkey_store_def newValkeyStoreForClient_def valkeyGet_def valkeyGoClient_def kv_driver_def
      sample_server_def stored_server_def kv_held_def decode_encode [OF poll_entry_utf8] hour_def second_def
      ttlMilliseconds_def millisecond_def signed_divide_int_def signed_modulo_int_def)

lemma stored_checks:
  "check_call sample_auth sample_valkey_store clk done_call stored_server = (Inr done_checked, [], stored_server)"
  using stored_get
  by (simp add: check_call_def done_call_def service_method sample_key sample_identity
      authorizeRequest_def authorizeToken_def done_request_def sample_queue_def sample_namespace_def
      entry_of_def poll_checked_def command_check_def done_checked_def identity_of_def shipped_entry_def Let_def)

lemma fleet_completed_reachable:
  "fleet_reachable (\<lambda>_. sample_auth) (\<lambda>_. sample_valkey_store) kv_drift (\<lambda>_. sample_handler) {''tok''} inst
    (initial_sys sample_server ()) fleet_completed"
proof -
  let ?fleet = "fleet_step (\<lambda>_. sample_auth) (\<lambda>_. sample_valkey_store) kv_drift (\<lambda>_. sample_handler) {''tok''} inst"
  let ?step = "proxy_step sample_auth sample_valkey_store kv_drift sample_handler {''tok''}"
  let ?y0 = "initial_sys sample_server ()"
  let ?y1 = "?y0\<lparr>sy_calls := [0 \<mapsto> Authorized poll_checked]\<rparr>"
  let ?y3 = "valkey_polled\<lparr>sy_calls := [0 \<mapsto> Registering poll_checked poll_reply [''tok'']]\<rparr>"
  let ?y4 = "valkey_polled\<lparr>sy_store := stored_server, sy_calls := [0 \<mapsto> Registering poll_checked poll_reply []]\<rparr>"
  let ?y5 = "?y4\<lparr>sy_calls := [0 \<mapsto> Registering poll_checked poll_reply [], 1 \<mapsto> Authorized done_checked]\<rparr>"
  have move: "?fleet y y'" if "?step y y'" and "\<forall>j. j \<noteq> i \<longrightarrow> sy_calls y' j = sy_calls y j" for y y' i
    by (rule fleet_of_call [where i = i]) (fact that)+
  have s3: "?step valkey_polled ?y3"
    using step_delete [of valkey_polled 0 poll_checked poll_reply sample_valkey_store "(0, 0)" "[]" sample_server
        sample_auth kv_drift sample_handler "{''tok''}"]
    by (simp add: valkey_polled_def initial_sys_def delete_terminal_def poll_checked_def poll_reply_def response_tokens_def)
  have s4: "?step ?y3 ?y4"
    using step_register [of ?y3 0 poll_checked poll_reply "''tok''" "[]" sample_valkey_store "(0, 0)" None "[]"
        stored_server sample_auth kv_drift sample_handler "{''tok''}"] stored_put [of "(0, 0)"]
    by (simp add: valkey_polled_def initial_sys_def register_token_def after_register_def entry_of_def poll_checked_def)
  have s5: "?step ?y4 ?y5"
    using step_check [of ?y4 1 "{''tok''}" done_call sample_auth sample_valkey_store "(0, 0)" "Inr done_checked" "[]"
        stored_server kv_drift sample_handler] stored_checks [of "(0, 0)"]
    by (simp add: valkey_polled_def initial_sys_def after_check_def deliverable_def done_call_def service_method
        sample_request_for) (simp add: done_request_def)
  have s6: "?step ?y5 fleet_completed"
    using step_forward [of ?y5 1 done_checked sample_handler done_reply "()" "{''tok''}" sample_auth
        sample_valkey_store kv_drift] done_handler [of "()"]
    by (simp add: valkey_polled_def fleet_completed_def initial_sys_def done_reply_def response_tokens_def)
  note states = valkey_polled_def initial_sys_def fleet_completed_def
  have f1: "?fleet ?y0 ?y1" by (rule move [of _ _ 0, OF valkey_poll_steps(1)]) (simp add: states)
  have f2: "?fleet ?y1 valkey_polled" by (rule move [of _ _ 0, OF valkey_poll_steps(2)]) (simp add: states)
  have f3: "?fleet valkey_polled ?y3" by (rule move [of _ _ 0, OF s3]) (simp add: states)
  have f4: "?fleet ?y3 ?y4" by (rule move [of _ _ 0, OF s4]) (simp add: states)
  have f5: "?fleet ?y4 ?y5" by (rule move [of _ _ 1, OF s5]) (simp add: states)
  have f6: "?fleet ?y5 fleet_completed" by (rule move [of _ _ 1, OF s6]) (simp add: states)
  show ?thesis
    by (rule fleet_next [OF fleet_next [OF fleet_next [OF fleet_next [OF fleet_next [OF fleet_next [OF fleet_start
        f1] f2] f3] f4] f5] f6])
qed

subsection \<open>What the upstream is sent\<close>

text \<open>C24:
  The upstream sees the proxy's credential and nothing of the worker's.  In every run of the proxy that
  \<open>run\<close> serves with, and however its calls interleave, the upstream connection is invoked, in the
  context of a forwarded call, with the configured API key as the one pair of outgoing metadata, or
  with none when there is no key: neither the worker's metadata nor the authenticated identity, which
  the context carries for the proxy's own use, is put there.  The connection's transport is the
  configured one, plaintext only in plaintext mode.
\<close>

theorem upstream_sees_proxy_credential:
  assumes "Serving p \<in> set (snd (run h v ending))"
    and "reachable (px_Authenticator p) S drift (Server (px_Upstream p)) U (initial_sys s u) y"
    and "EvForward i ck \<in> set (sy_trace y)"
  shows "\<exists>cfg t conn. Load (Env h) = Inr cfg \<and> NewGrpcClient h (uc_Addr (cf_Upstream cfg)) t = Inr conn \<and>
     transport_as_configured (ReadFile h) (ParsePEM h) (cf_Upstream cfg) t \<and>
     (\<forall>req u. px_Upstream p (ck_context ck) req u = conn ((ck_context ck)\<lparr>cx_outgoing :=
        if uc_AuthMode (cf_Upstream cfg) = AuthModeAPIKey
        then [(''authorization'', ''Bearer '' @ uc_APIKey (cf_Upstream cfg))] else []\<rparr>) req u) \<and>
     IdentityFromContext (ck_context ck) = (ck_identity ck, True)"
proof -
  from assms(1) obtain cfg where cfg: "Load (Env h) = Inr cfg"
    and dial: "Dial (ReadFile h) (ParsePEM h) (NewGrpcClient h) (cf_Upstream cfg) = Inr (px_Upstream p)"
    by (elim run_serving) simp
  have own: "own_context ck" by (rule forwarded_in_own_context [OF assms(2,3)])
  obtain t conn where "transportCredentials (ReadFile h) (ParsePEM h) (cf_Upstream cfg) = Inr t"
    and conn: "NewGrpcClient h (uc_Addr (cf_Upstream cfg)) t = Inr conn"
    and "\<And>ctx req u. px_Upstream p ctx req u =
        conn (AppendToOutgoingContext ctx (upstream_credential (cf_Upstream cfg))) req u"
    using Dial_Inr [OF dial] by blast
  then show ?thesis
    using cfg conn own_contextD [OF own] transportCredentials_configured
    by (intro exI [of _ cfg] exI [of _ t] exI [of _ conn]) (auto simp: upstream_credential_def AppendToOutgoingContext_def)
qed

theorem upstream_sees_proxy_credential_witness:
  "\<forall>req u. sample_client (ck_context done_checked) req u = sample_answers req u"
proof (intro allI)
  fix req :: request and u :: unit
  have "EvForward 1 done_checked \<in> set (sy_trace sample_completed)" by (simp add: sample_completed_def)
  then obtain cfg t conn where cfg: "Load (Env (sample_host ''local'')) = Inr cfg"
    and conn: "NewGrpcClient (sample_host ''local'') (uc_Addr (cf_Upstream cfg)) t = Inr conn"
    and sent: "sample_client (ck_context done_checked) req u = conn ((ck_context done_checked)\<lparr>cx_outgoing :=
        if uc_AuthMode (cf_Upstream cfg) = AuthModeAPIKey
        then [(''authorization'', ''Bearer '' @ uc_APIKey (cf_Upstream cfg))] else []\<rparr>) req u"
    using upstream_sees_proxy_credential [OF local_serving, of local_store janitor_step UNIV sample_cache "()"
        sample_completed 1 done_checked] completed_reachable
    by (auto simp: sample_proxy_def sample_start_def)
  have "cfg = config_of (sample_env ''local'')" and "conn = sample_connection"
    using cfg conn sample_Load [of "''local''"] by (simp_all add: sample_host_def)
  then show "sample_client (ck_context done_checked) req u = sample_answers req u"
    unfolding sent
    by (simp add: sample_connection_def sample_credential_def config_of_simps getEnv_def Getenv_def sample_env_def
        mode_defs)
qed

end
