(* ===== verification/Sha256_Vector.thy ===== *)
theory Sha256_Vector
  imports Sha256
begin

section \<open>The digest of a known message\<close>

text \<open>
  The example of the standard: the model of crypto/sha256 evaluated on a message of one block, down
  to the hexadecimal digits that \<open>hashKey\<close> and \<open>tokenKey\<close> use, in four runs of sixteen rounds.
\<close>

definition abc_schedule :: "u32 list" where
  "abc_schedule = [
     1633837952, 0, 0, 0, 0, 0, 0, 0, 0, 0, 0, 0, 0, 0, 0, 24, 1633837952, 983040, 2108187653,
     1610613702, 1050508152, 25426944, 316456923, 3806512014, 3357629466, 3073800610, 3854317833,
     845560923, 2636160359, 3968280267, 1881225380, 3552024379, 2482346367, 996719219,
     2952069057, 4043988066, 176896406, 1924104970, 2483675966, 610538786, 2672279444,
     4037431130, 1042573945, 657669027, 206005234, 2215296807, 2049510749, 106709978, 4215179723,
     3430291419, 3118885940, 2845390439, 2226839261, 3256115900, 344409900, 2987358873,
     4015503821, 3957764664, 2682456414, 2025622859, 2755645205, 1720397816, 4004225740, 313650667]"

definition abc_rounds :: "nat \<Rightarrow> (u32 \<times> u32) list" where
  "abc_rounds i = take 16 (drop (16 * i) (zip round_constants abc_schedule))"

lemma abc_blocks: "sha_blocks (be_words (sha_pad (map of_char ''abc''))) = [take 16 abc_schedule]"
  by code_simp

lemma abc_scheduled: "schedule (take 16 abc_schedule) = abc_schedule"
  by code_simp

lemma abc_rounds_0:
  "sha_rounds (abc_rounds 0)
     (1779033703, 3144134277, 1013904242, 2773480762, 1359893119, 2600822924, 528734635, 1541459225) =
     (2969183118, 3227803614, 3643992854, 2274437520, 123276749, 194179596, 1952073950, 509051416)"
  by code_simp

lemma abc_rounds_1:
  "sha_rounds (abc_rounds 1)
     (2969183118, 3227803614, 3643992854, 2274437520, 123276749, 194179596, 1952073950, 509051416) =
     (1941126133, 3935906338, 2684750640, 909411017, 3126399250, 17410874, 2917635127, 1628611511)"
  by code_simp

lemma abc_rounds_2:
  "sha_rounds (abc_rounds 2)
     (1941126133, 3935906338, 2684750640, 909411017, 3126399250, 17410874, 2917635127, 1628611511) =
     (1098003085, 2706117808, 1923828625, 643991573, 4274981830, 3581645993, 3077922209, 2819559920)"
  by code_simp

lemma abc_rounds_3:
  "sha_rounds (abc_rounds 3)
     (1098003085, 2706117808, 1923828625, 643991573, 4274981830, 3581645993, 3077922209, 2819559920) =
     (1349398616, 3550093669, 80891244, 3093179625, 1593118500, 4212265488, 2492278198, 2518632596)"
  by code_simp

lemma abc_split:
  "zip round_constants abc_schedule = abc_rounds 0 @ abc_rounds 1 @ abc_rounds 2 @ abc_rounds 3"
  by (simp add: abc_rounds_def round_constants_def abc_schedule_def)

lemma sha_rounds_append: "sha_rounds (xs @ ys) s = sha_rounds ys (sha_rounds xs s)"
  by (induction xs s rule: sha_rounds.induct) (simp_all add: Let_def)

lemma abc_compressed:
  "sha_compress (take 16 abc_schedule) initial_state =
     (3128432319, 2399260650, 1094795486, 1571693091, 2953011619, 2518121116, 3021012833, 4060091821)"
  unfolding initial_state_def sha_compress.simps abc_scheduled abc_split sha_rounds_append
    abc_rounds_0 abc_rounds_1 abc_rounds_2 abc_rounds_3
  by simp

lemma abc_digits:
  "EncodeToString (concat (map u32_bytes (sha_state_words
     (3128432319, 2399260650, 1094795486, 1571693091, 2953011619, 2518121116, 3021012833, 4060091821)))) =
     ''ba7816bf8f01cfea414140de5dae2223b00361a396177a9cb410ff61f20015ad''"
  by code_simp

lemma sha256_abc:
  "sha256_hex ''abc'' = ''ba7816bf8f01cfea414140de5dae2223b00361a396177a9cb410ff61f20015ad''"
  by (simp only: sha256_hex_def Sum256_def abc_blocks fold_simps abc_compressed abc_digits)

end
