(* ===== verification/Verify_Worker.thy ===== *)
theory Verify_Worker
  imports Upstream Example_Run
begin

section \<open>examples: the worker that verifies the proxy, and its connection\<close>

text \<open>
  \<open>examples/internal/verifytls/verifytls.go\<close> and \<open>examples/verify-worker/main.go\<close>: the connection
  options, the credential of either authentication mode with the request to the metadata server, the
  two workflows and \<open>main\<close>.  The Temporal SDK and the metadata server are parameters.  \<open>log.Fatalf\<close>
  ends the process without running the deferred calls; a fatal error is a constructor.
\<close>

subsection \<open>verifytls\<close>

datatype verify_tls_error =
    InvalidTLSMode string
  | InvalidSkipVerify string
  | ReadingCAFile string
  | NoCertificatesIn string

text \<open>\<open>client.ConnectionOptions\<close> is the value of its field \<open>TLS\<close>, nil in the zero value.\<close>

definition ConnectionOptions ::
  "file_system \<Rightarrow> pem_parser \<Rightarrow> environment \<Rightarrow> verify_tls_error + tls_config option" where
  "ConnectionOptions ReadFile ParsePEM env =
     (let mode = Getenv env ''VERIFY_TLS_MODE'' in
      if mode = '''' \<or> mode = ''plaintext'' then Inr None
      else if mode \<noteq> ''tls'' then Inl (InvalidTLSMode mode)
      else
        (let v = Getenv env ''VERIFY_TLS_SKIP_VERIFY'' in
         case (if v \<noteq> '''' then ParseBool v else Some False) of
           None \<Rightarrow> Inl (InvalidSkipVerify v)
         | Some skipVerify \<Rightarrow>
             (let tlsConfig = zero_tls_config\<lparr>InsecureSkipVerify := skipVerify,
                                ServerName := Getenv env ''VERIFY_TLS_SERVER_NAME''\<rparr>;
                  caFile = Getenv env ''VERIFY_TLS_CA_FILE'' in
              if caFile \<noteq> ''''
              then (case ReadFile caFile of
                      Inl err \<Rightarrow> Inl (ReadingCAFile err)
                    | Inr pem \<Rightarrow>
                        (case AppendCertsFromPEM ParsePEM pem NewCertPool of (ok, pool) \<Rightarrow>
                           if \<not> ok then Inl (NoCertificatesIn caFile)
                           else Inr (Some (tlsConfig\<lparr>RootCAs := Some pool\<rparr>))))
              else Inr (Some tlsConfig))))"

subsection \<open>The identity token of the instance\<close>

text \<open>\<open>url.QueryEscape\<close>: what is not unreserved is escaped, byte by byte.\<close>

definition unreserved :: "char \<Rightarrow> bool" where
  "unreserved c \<longleftrightarrow> in_range 0x61 0x7A c \<or> in_range 0x41 0x5A c \<or> is_digit c \<or> c \<in> set ''-_.~''"

declare unreserved_def [byte_class]

definition upper_hex :: string where
  "upper_hex = ''0123456789ABCDEF''"

definition query_escape_char :: "char \<Rightarrow> string" where
  "query_escape_char c =
     (if c = CHR '' '' then ''+''
      else if unreserved c then [c]
      else [CHR ''%'', upper_hex ! (ord c div 16), upper_hex ! (ord c mod 16)])"

definition QueryEscape :: "string \<Rightarrow> string" where
  "QueryEscape s = concat (map query_escape_char s)"

record http_request =
  hr_URL :: string
  hr_Header :: "(string \<times> string) list"
  hr_Timeout :: duration

record http_response =
  StatusCode :: nat
  Status :: string
  Body :: "string + bytes"
    \<comment> \<open>what \<open>io.ReadAll\<close> gives\<close>

datatype token_log =
    ReadingMetadataResponse string
  | CloudRunTokenUnavailable string string

definition metadataURL :: string where
  "metadataURL =
     ''http://metadata.google.internal/computeMetadata/v1/instance/service-accounts/default/identity''"

text \<open>
  \<open>http.NewRequestWithContext\<close> for a method that is valid and a URL that continues \<open>metadataURL\<close>
  by a query: \<open>url.Parse\<close> objects to control characters only.
\<close>

definition NewRequest :: "string \<Rightarrow> duration \<Rightarrow> http_request option" where
  "NewRequest url timeout =
     (if \<exists>c \<in> set url. ord c < 0x20 \<or> ord c = 0x7F then None
      else Some \<lparr>hr_URL = url, hr_Header = [], hr_Timeout = timeout\<rparr>)"

type_synonym http_client = "http_request \<Rightarrow> string + http_response"

definition getCloudRunToken :: "http_client \<Rightarrow> string \<Rightarrow> string option \<times> token_log list" where
  "getCloudRunToken Do audience =
     (case NewRequest (metadataURL @ ''?audience='' @ QueryEscape audience) (2 * 10 ^ 9) of
        None \<Rightarrow> (None, [])
      | Some req \<Rightarrow>
          (case Do (req\<lparr>hr_Header := hr_Header req @ [(''Metadata-Flavor'', ''Google'')]\<rparr>) of
             Inl err \<Rightarrow> (None, [])
           | Inr resp \<Rightarrow>
               (case Body resp of
                  Inl err \<Rightarrow> (None, [ReadingMetadataResponse err])
                | Inr body \<Rightarrow>
                    (if StatusCode resp \<noteq> 200
                     then (None, [CloudRunTokenUnavailable (Status resp) (TrimSpace body)])
                     else (Some (TrimSpace body), [])))))"

subsection \<open>The credential\<close>

datatype worker_fatal =
    WorkerAPIKeyRequired
  | CloudRunTokenRequired string
  | InvalidWorkerAuthMode string
  | WorkerConfiguringTLS verify_tls_error
  | WorkerCreatingClient string
  | WorkerRunFailed string

definition verify_getEnv :: "environment \<Rightarrow> string \<Rightarrow> string \<Rightarrow> string" where
  "verify_getEnv env key def = (let v = Getenv env key in if v \<noteq> '''' then v else def)"

definition authModeStatic :: string where
  "authModeStatic = ''static''"

definition authModeJWT :: string where
  "authModeJWT = ''jwt''"

definition resolveCredential ::
  "environment \<Rightarrow> http_client \<Rightarrow> string \<Rightarrow> string \<Rightarrow> (worker_fatal + string) \<times> token_log list" where
  "resolveCredential env Do authMode proxyAddr =
     (if authMode = authModeStatic
      then (let apiKey = Getenv env ''VERIFY_API_KEY'' in
            (if apiKey = '''' then Inl WorkerAPIKeyRequired else Inr apiKey, []))
      else if authMode = authModeJWT
      then (let audience = verify_getEnv env ''VERIFY_CLOUDRUN_TOKEN_AUDIENCE'' proxyAddr in
            case getCloudRunToken Do audience of
              (None, logs) \<Rightarrow> (Inl (CloudRunTokenRequired audience), logs)
            | (Some token, logs) \<Rightarrow> (Inr token, logs))
      else (Inl (InvalidWorkerAuthMode authMode), []))"

subsection \<open>The workflows\<close>

text \<open>
  A workflow is polymorphic in what the SDK makes of an activity: \<open>ExecuteActivity\<close> of the options
  of the context, the activity and its argument.
\<close>

record activity_options =
  ao_TaskQueue :: string
  ao_StartToCloseTimeout :: duration

definition EchoActivity :: "string \<Rightarrow> string" where
  "EchoActivity msg = msg"

definition minute :: duration where
  "minute = 60 * 10 ^ 9"

definition EchoWorkflow ::
  "(activity_options \<Rightarrow> (string \<Rightarrow> string) \<Rightarrow> string \<Rightarrow> 'r) \<Rightarrow> string \<Rightarrow> 'r" where
  "EchoWorkflow ExecuteActivity msg =
     ExecuteActivity \<lparr>ao_TaskQueue = '''', ao_StartToCloseTimeout = minute\<rparr> EchoActivity msg"

definition CrossQueueWorkflow ::
  "(activity_options \<Rightarrow> (string \<Rightarrow> string) \<Rightarrow> string \<Rightarrow> 'r) \<Rightarrow> string \<Rightarrow> 'r" where
  "CrossQueueWorkflow ExecuteActivity msg =
     ExecuteActivity \<lparr>ao_TaskQueue = ''forbidden-queue'', ao_StartToCloseTimeout = minute\<rparr> EchoActivity msg"

subsection \<open>main\<close>

record client_options =
  HostPort :: string
  Namespace :: string
  Credentials :: "string option"
  ConnectionTLS :: "tls_config option"

datatype 'c worker_event = WorkerDialed client_options | WorkerRan 'c string | WorkerClosed 'c

text \<open>
  \<open>Dial\<close> gives a client, and \<open>Run\<close> for the client and the task queue the error the worker ends
  with, if any.  The result is the fatal error, if any, and what was done.
\<close>

definition verify_worker ::
  "environment \<Rightarrow> file_system \<Rightarrow> pem_parser \<Rightarrow> http_client
   \<Rightarrow> (client_options \<Rightarrow> string + 'c) \<Rightarrow> ('c \<Rightarrow> string \<Rightarrow> string option)
   \<Rightarrow> worker_fatal option \<times> 'c worker_event list" where
  "verify_worker env ReadFile ParsePEM Do SdkDial Run =
     (let proxyAddr = verify_getEnv env ''VERIFY_PROXY_ADDR'' ''127.0.0.1:7243'';
          namespace = verify_getEnv env ''VERIFY_NAMESPACE'' ''default'';
          taskQueue = verify_getEnv env ''VERIFY_TASK_QUEUE'' ''proxy-test-queue'';
          authMode = verify_getEnv env ''VERIFY_AUTH_MODE'' authModeStatic in
      case fst (resolveCredential env Do authMode proxyAddr) of
        Inl f \<Rightarrow> (Some f, [])
      | Inr credential \<Rightarrow>
          (case ConnectionOptions ReadFile ParsePEM env of
             Inl err \<Rightarrow> (Some (WorkerConfiguringTLS err), [])
           | Inr connOpts \<Rightarrow>
               (let opts = \<lparr>HostPort = proxyAddr, Namespace = namespace,
                            Credentials = Some credential, ConnectionTLS = connOpts\<rparr> in
                case SdkDial opts of
                  Inl err \<Rightarrow> (Some (WorkerCreatingClient err), [])
                | Inr c \<Rightarrow>
                    (case Run c taskQueue of
                       Some err \<Rightarrow> (Some (WorkerRunFailed err), [WorkerDialed opts, WorkerRan c taskQueue])
                     | None \<Rightarrow> (None, [WorkerDialed opts, WorkerRan c taskQueue, WorkerClosed c])))))"

subsection \<open>The worker's TLS knobs mirror those of the proxy\<close>

text \<open>The settings of the proxy's upstream connection that correspond to the worker's environment.\<close>

definition mirrored :: "environment \<Rightarrow> bool \<Rightarrow> upstream_config \<Rightarrow> upstream_config" where
  "mirrored env skip cfg =
     cfg\<lparr>uc_TLSMode := (if Getenv env ''VERIFY_TLS_MODE'' = ''tls'' then TLSModeTLS else TLSModePlaintext),
         uc_TLSCAFile := Getenv env ''VERIFY_TLS_CA_FILE'',
         uc_TLSServerName := Getenv env ''VERIFY_TLS_SERVER_NAME'',
         uc_TLSSkipVerify := skip\<rparr>"

text \<open>The errors of the two variables that the proxy's configuration has read before are \<open>None\<close>.\<close>

fun as_upstream :: "verify_tls_error + tls_config option \<Rightarrow> (dial_error + transport) option" where
  "as_upstream (Inr None) = Some (Inr Plaintext)"
| "as_upstream (Inr (Some c)) = Some (Inr (TLS c))"
| "as_upstream (Inl (ReadingCAFile err)) = Some (Inl (ReadingUpstreamCA err))"
| "as_upstream (Inl (NoCertificatesIn f)) = Some (Inl (NoUpstreamCertificates f))"
| "as_upstream (Inl (InvalidTLSMode m)) = None"
| "as_upstream (Inl (InvalidSkipVerify v)) = None"

lemma connection_mirrors_upstream:
  assumes "Getenv env ''VERIFY_TLS_MODE'' \<in> {'''', ''plaintext'', ''tls''}"
    and "(if Getenv env ''VERIFY_TLS_SKIP_VERIFY'' \<noteq> '''' then ParseBool (Getenv env ''VERIFY_TLS_SKIP_VERIFY'')
          else Some False) = Some skip"
  shows "as_upstream (ConnectionOptions ReadFile ParsePEM env) =
     Some (transportCredentials ReadFile ParsePEM (mirrored env skip cfg))"
  using assms(1)
  by (auto simp: ConnectionOptions_def transportCredentials_def mirrored_def assms(2)
      TLSModePlaintext_def TLSModeTLS_def Let_def split: sum.splits prod.splits)

subsection \<open>The audience in the query\<close>

text \<open>
  What the metadata server reads back from an escaped query: \<open>+\<close> is a space and \<open>%\<close> is followed by
  two hexadecimal digits.
\<close>

definition hex_digit_value :: "char \<Rightarrow> nat" where
  "hex_digit_value c = (if is_digit c then ord c - 0x30 else ord c - 0x37)"

fun query_unescape :: "string \<Rightarrow> string" where
  "query_unescape [] = []"
| "query_unescape (c # cs) =
     (if c = CHR ''+'' then CHR '' '' # query_unescape cs
      else if c = CHR ''%''
      then (case cs of a # b # r \<Rightarrow> char_of (16 * hex_digit_value a + hex_digit_value b) # query_unescape r
                     | _ \<Rightarrow> [])
      else c # query_unescape cs)"

lemma upper_hex_value: "n < 16 \<Longrightarrow> hex_digit_value (upper_hex ! n) = n"
  by (auto simp: upper_hex_def hex_digit_value_def byte_class numeral_eq_Suc less_Suc_eq)

lemma upper_hex_plain: "n < 16 \<Longrightarrow> unreserved (upper_hex ! n)"
  by (auto simp: upper_hex_def byte_class numeral_eq_Suc less_Suc_eq)

lemma query_unescape_char: "query_unescape (query_escape_char c @ s) = c # query_unescape s"
proof -
  have "ord c div 16 < 16" by (simp add: less_mult_imp_div_less)
  moreover have "char_of (16 * (ord c div 16) + ord c mod 16) = c" by simp
  ultimately show ?thesis
    by (auto simp: query_escape_char_def upper_hex_value byte_class)
qed

lemma audience_roundtrip: "query_unescape (QueryEscape s) = s"
  by (induction s) (simp_all add: QueryEscape_def query_unescape_char)

lemma query_escape_char_safe: "d \<in> set (query_escape_char c) \<Longrightarrow> unreserved d \<or> d \<in> {CHR ''+'', CHR ''%''}"
proof -
  have "ord c div 16 < 16" by (simp add: less_mult_imp_div_less)
  then show "d \<in> set (query_escape_char c) \<Longrightarrow> unreserved d \<or> d \<in> {CHR ''+'', CHR ''%''}"
    by (auto simp: query_escape_char_def upper_hex_plain split: if_splits)
qed

text \<open>So no audience ends the query or starts another parameter.\<close>

lemma QueryEscape_safe: "set (QueryEscape s) \<inter> {CHR ''&'', CHR ''#'', CHR ''='', CHR '' ''} = {}"
  using query_escape_char_safe
  by (fastforce simp: QueryEscape_def byte_class)

lemma unreserved_printable: "unreserved c \<Longrightarrow> 0x20 \<le> ord c \<and> ord c < 0x7F"
  by (auto simp: byte_class)

lemma NewRequest_succeeds:
  "NewRequest (metadataURL @ ''?audience='' @ QueryEscape s) t =
     Some \<lparr>hr_URL = metadataURL @ ''?audience='' @ QueryEscape s, hr_Header = [], hr_Timeout = t\<rparr>"
proof -
  have "0x20 \<le> ord c \<and> ord c < 0x7F" if "c \<in> set (QueryEscape s)" for c
    using that query_escape_char_safe unreserved_printable by (fastforce simp: QueryEscape_def)
  moreover have "\<forall>c \<in> set (metadataURL @ ''?audience=''). 0x20 \<le> ord c \<and> ord c < 0x7F"
    by (simp add: metadataURL_def)
  ultimately have "0x20 \<le> ord c \<and> ord c < 0x7F" if "c \<in> set (metadataURL @ ''?audience='' @ QueryEscape s)" for c
    using that by (auto simp del: set_append simp: set_append [of metadataURL])
  then show ?thesis by (force simp: NewRequest_def)
qed

subsection \<open>The credential reaches the proxy\<close>

text \<open>The metadata that an SDK client with these credentials sends.\<close>

definition bearer_metadata :: "string \<Rightarrow> metadata" where
  "bearer_metadata credential = [''authorization'' \<mapsto> [''Bearer '' @ credential]]"

lemma extract_bearer: "extractAPIKey (incoming_context (Some (bearer_metadata k))) = (if k = '''' then None else Some k)"
  by (simp add: extractAPIKey_def bearer_metadata_def mdGet_def bearer_prefix_def hasPrefix_def
      trimPrefix_def Let_def)

text \<open>
  What the worker resolves is what the proxy extracts; only an empty identity token, which a metadata
  server would have to answer with success, is refused as missing.
\<close>

lemma credential_reaches_proxy:
  "fst (resolveCredential env Do mode addr) = Inr credential \<Longrightarrow>
     extractAPIKey (incoming_context (Some (bearer_metadata credential))) = Some credential \<or>
     mode = authModeJWT \<and> credential = ''''"
  by (auto simp: extract_bearer resolveCredential_def Let_def split: if_splits option.splits prod.splits)

lemma token_is_trimmed_body:
  assumes "getCloudRunToken Do audience = (Some token, logs)"
  obtains resp body where
    "Do \<lparr>hr_URL = metadataURL @ ''?audience='' @ QueryEscape audience,
         hr_Header = [(''Metadata-Flavor'', ''Google'')], hr_Timeout = 2 * 10 ^ 9\<rparr> = Inr resp"
    and "StatusCode resp = 200" and "Body resp = Inr body" and "token = TrimSpace body" and "logs = []"
  using assms unfolding getCloudRunToken_def NewRequest_succeeds
  by (auto split: sum.splits if_splits)

subsection \<open>The workflow that crosses queues\<close>

text \<open>
  The SDK turns an activity into a command for the task queue of its options, or of the workflow when
  they name none: \<open>sdk\<close> is the command it makes.
\<close>

definition dispatches :: "(activity_options \<Rightarrow> (string \<Rightarrow> string) \<Rightarrow> string \<Rightarrow> command) \<Rightarrow> bool" where
  "dispatches sdk \<longleftrightarrow>
     (\<forall>opts f m. ao_TaskQueue opts \<noteq> '''' \<longrightarrow>
        (\<exists>q. sdk opts f m = ScheduleActivityTask (Some q) \<and> tq_name q = ao_TaskQueue opts))"

lemma cross_queue_command:
  "dispatches sdk \<Longrightarrow> \<exists>q. CrossQueueWorkflow sdk msg = ScheduleActivityTask (Some q) \<and> tq_name q = ''forbidden-queue''"
  unfolding dispatches_def CrossQueueWorkflow_def
  by (erule allE [of _ "\<lparr>ao_TaskQueue = ''forbidden-queue'', ao_StartToCloseTimeout = minute\<rparr>"]) simp

lemma cross_queue_rejected:
  assumes "dispatches sdk" and "CrossQueueWorkflow sdk msg \<in> set cmds" and "tq \<noteq> ''forbidden-queue''"
  shows "ValidateCommands cmds ns tq \<noteq> None"
proof
  assume "ValidateCommands cmds ns tq = None"
  then have "confined ns tq cmds" by (simp add: ValidateCommands_confined)
  with assms(2) have "dispatch_target ns tq (CrossQueueWorkflow sdk msg) \<in> {None, Some (ns, tq)}"
    by (simp add: confined_def)
  with cross_queue_command [OF assms(1), of msg] assms(3) show False by auto
qed

lemma forbidden_token_denied:
  assumes "dispatches sdk" and "CrossQueueWorkflow sdk msg \<in> set cmds"
    and "\<not> AllowsTaskQueue i ''forbidden-queue''"
  shows "\<exists>err s'. authorizeToken S clk (RespondWorkflowTaskCompletedRequest ns t cmds)
     ''RespondWorkflowTaskCompleted'' i s = (Inl err, s')"
proof -
  have "ValidateCommands cmds (id_namespace i) (entry_task_queue e) \<noteq> None"
    if "AllowsTaskQueue i (entry_task_queue e)" for e
    using cross_queue_rejected [OF assms(1,2)] that assms(3) by metis
  then have "\<not> AllowsTaskQueue i (entry_task_queue e)"
    if "ValidateCommands cmds (id_namespace i) (entry_task_queue e) = None" for e
    using that by blast
  then show ?thesis
    by (auto simp: authorizeToken_def command_check_def simp del: AllowsTaskQueue_iff
        split: sum.split option.split prod.split)
qed

text \<open>C38:
  The workflow of the example that crosses queues is stopped.  When no identity may use the forbidden
  queue, a completion that carries the command of that workflow is answered with PermissionDenied or
  Unavailable and never reaches the upstream, whoever sends it, whatever token it carries and whatever
  the token store answers.
\<close>

theorem cross_queue_blocked:
  assumes "dispatches sdk" and "CrossQueueWorkflow sdk msg \<in> set cmds"
    and "\<And>k i. A k = Inr i \<Longrightarrow> id_valid i \<Longrightarrow> \<not> AllowsTaskQueue i ''forbidden-queue''"
    and "rpcNameFromFullMethod (ca_method ca) = ''RespondWorkflowTaskCompleted''"
    and "ca_request ca = Some (RespondWorkflowTaskCompletedRequest ns t cmds)"
  shows "\<exists>st logs s'. interceptor A S handler clk ca s u = (Inl st, logs, s', u) \<and>
     st_code st \<in> {PermissionDenied, Unavailable}"
proof -
  have p: "Allowed ''RespondWorkflowTaskCompleted'' = Some (policy_of CategoryToken True)"
    by (simp add: Allowed_def allowed_table_def)
  have "\<exists>st logs s'. check_call A S (clk 0) ca s = (Inl st, logs, s') \<and>
      st_code st \<in> {PermissionDenied, Unavailable}"
  proof (cases "extractAPIKey (call_context ca)")
    case None
    with assms(4) p show ?thesis by (simp add: check_call_def)
  next
    case (Some k)
    show ?thesis
    proof (cases "\<exists>i. A k = Inr i \<and> id_valid i")
      case True
      then obtain i where i: "A k = Inr i" "id_valid i" by blast
      obtain err s' where
        "authorizeToken S (clk 0) (RespondWorkflowTaskCompletedRequest ns t cmds)
           ''RespondWorkflowTaskCompleted'' i s = (Inl err, s')"
        using forbidden_token_denied [OF assms(1,2) assms(3) [OF i]] by metis
      with assms(4,5) p Some i show ?thesis
        by (cases err) (simp_all add: check_call_def authorizeRequest_def grpcErrorForAuthorizationError_def)
    next
      case False
      with assms(4) p Some show ?thesis
        by (cases "A k") (simp_all add: check_call_def Let_def)
    qed
  qed
  then show ?thesis by (auto simp: interceptor_def)
qed

text \<open>The shipped authentication file and a worker that follows the documented translation.\<close>

definition sample_sdk :: "activity_options \<Rightarrow> (string \<Rightarrow> string) \<Rightarrow> string \<Rightarrow> command" where
  "sample_sdk opts f m =
     ScheduleActivityTask (Some \<lparr>tq_name = (if ao_TaskQueue opts = '''' then ''proxy-test-queue'' else ao_TaskQueue opts),
                                 tq_kind = KIND_NORMAL, tq_normal_name = ''''\<rparr>)"

definition cross_call :: call where
  "cross_call = \<lparr>ca_method = service @ ''RespondWorkflowTaskCompleted'', ca_metadata = sample_metadata,
     ca_request = Some (RespondWorkflowTaskCompletedRequest sample_namespace ''tok''
       [EchoWorkflow sample_sdk ''hi'', CrossQueueWorkflow sample_sdk ''hi''])\<rparr>"

lemma sample_sdk_dispatches: "dispatches sample_sdk"
  by (simp add: dispatches_def sample_sdk_def)

theorem cross_queue_blocked_witness:
  "\<exists>st logs s'. interceptor sample_auth local_store sample_handler (\<lambda>_. (0, 0)) cross_call cache_polled () =
     (Inl st, logs, s', ()) \<and> st_code st \<in> {PermissionDenied, Unavailable}"
proof (rule cross_queue_blocked [OF sample_sdk_dispatches])
  show "CrossQueueWorkflow sample_sdk ''hi'' \<in> set [EchoWorkflow sample_sdk ''hi'', CrossQueueWorkflow sample_sdk ''hi'']"
    by simp
  show "rpcNameFromFullMethod (ca_method cross_call) = ''RespondWorkflowTaskCompleted''"
    by (simp add: cross_call_def service_method)
  show "ca_request cross_call = Some (RespondWorkflowTaskCompletedRequest sample_namespace ''tok''
      [EchoWorkflow sample_sdk ''hi'', CrossQueueWorkflow sample_sdk ''hi''])"
    by (simp add: cross_call_def)
  show "\<not> AllowsTaskQueue i ''forbidden-queue''" if "sample_auth k = Inr i" "id_valid i" for k i
    using that by (auto simp: StaticAuthenticate_def shipped_identities_def identity_of_def
        shipped_entry_def zero_identity_def split: if_splits option.splits)
qed

end
