(* ===== verification/Verify_Client.thy ===== *)
theory Verify_Client
  imports Verify_Worker
begin

section \<open>examples: the client that verifies the proxy\<close>

text \<open>
  \<open>examples/verify-client/main.go\<close>: it starts the two workflows of the example directly at the Temporal
  server and decides from the history of the second whether the proxy has stopped its activity.  The
  SDK client is a parameter, operations over the state \<open>'k\<close> of the server; an iterator over a
  history is the list of what its \<open>Next\<close> gives.  The context's deadline and the sleep are part of
  that parameter.
\<close>

datatype event_type = EVENT_TYPE_ACTIVITY_TASK_SCHEDULED | OtherEventType string

record workflow_options =
  wo_ID :: string
  wo_TaskQueue :: string

record workflow_run =
  GetID :: string
  GetRunID :: string

record 'k sdk_client =
  ExecuteWorkflow :: "workflow_options \<Rightarrow> string \<Rightarrow> string \<Rightarrow> 'k \<Rightarrow> (string + workflow_run) \<times> 'k"
  RunGet :: "workflow_run \<Rightarrow> 'k \<Rightarrow> (string + string) \<times> 'k"
  GetWorkflowHistory :: "string \<Rightarrow> string \<Rightarrow> 'k \<Rightarrow> (string + event_type) list \<times> 'k"
  TerminateWorkflow :: "string \<Rightarrow> string \<Rightarrow> string \<Rightarrow> 'k \<Rightarrow> string option \<times> 'k"
  CloseClient :: "'k \<Rightarrow> 'k"

datatype client_fatal =
    ClientConfiguringTLS verify_tls_error
  | ClientCreatingClient string
  | StartingWorkflow string
  | WorkflowFailed string
  | StartingCrossQueueWorkflow string
  | ReadingHistory string
  | ActivityScheduledOnForbiddenQueue

datatype client_log =
    WorkflowResult string
  | StartedCrossQueueWorkflow
  | TerminateFailed string
  | CrossQueueBlocked

text \<open>The loop over the history, with \<open>scheduledActivity\<close>; an error of \<open>Next\<close> ends the process.\<close>

fun scan_history :: "(string + event_type) list \<Rightarrow> bool \<Rightarrow> string + bool" where
  "scan_history [] scheduledActivity = Inr scheduledActivity"
| "scan_history (Inl err # events) scheduledActivity = Inl err"
| "scan_history (Inr event # events) scheduledActivity =
     scan_history events
       (if event = EVENT_TYPE_ACTIVITY_TASK_SCHEDULED then True else scheduledActivity)"

definition verifyCrossQueueBlocked ::
  "'k sdk_client \<Rightarrow> int \<Rightarrow> string \<Rightarrow> 'k \<Rightarrow> client_fatal option \<times> client_log list \<times> 'k" where
  "verifyCrossQueueBlocked c now taskQueue k =
     (case ExecuteWorkflow c \<lparr>wo_ID = ''verify-cross-queue-'' @ show_int now, wo_TaskQueue = taskQueue\<rparr>
             ''CrossQueueWorkflow'' ''hello from verify-client'' k of
        (Inl err, k1) \<Rightarrow> (Some (StartingCrossQueueWorkflow err), [], k1)
      | (Inr run, k1) \<Rightarrow>
          (case GetWorkflowHistory c (GetID run) (GetRunID run) k1 of
             (iter, k2) \<Rightarrow>
               (case scan_history iter False of
                  Inl err \<Rightarrow> (Some (ReadingHistory err), [StartedCrossQueueWorkflow], k2)
                | Inr scheduledActivity \<Rightarrow>
                    (case TerminateWorkflow c (GetID run) (GetRunID run)
                            ''verify-client: cross-queue command correctly blocked, cleaning up'' k2 of
                       (err, k3) \<Rightarrow>
                         (let logs = StartedCrossQueueWorkflow #
                                (case err of None \<Rightarrow> [] | Some e \<Rightarrow> [TerminateFailed e]) in
                          if scheduledActivity then (Some ActivityScheduledOnForbiddenQueue, logs, k3)
                          else (None, logs @ [CrossQueueBlocked], k3))))))"

text \<open>\<open>main\<close>; its deferred \<open>Close\<close> runs when it returns, not at a fatal error.\<close>

definition verify_client ::
  "environment \<Rightarrow> file_system \<Rightarrow> pem_parser \<Rightarrow> (client_options \<Rightarrow> string + 'k sdk_client)
   \<Rightarrow> int \<times> int \<Rightarrow> 'k \<Rightarrow> client_fatal option \<times> client_log list \<times> 'k" where
  "verify_client env ReadFile ParsePEM SdkDial now k =
     (let upstreamAddr = verify_getEnv env ''VERIFY_UPSTREAM_ADDR'' ''127.0.0.1:7233'';
          namespace = verify_getEnv env ''VERIFY_NAMESPACE'' ''default'';
          taskQueue = verify_getEnv env ''VERIFY_TASK_QUEUE'' ''proxy-test-queue'' in
      case ConnectionOptions ReadFile ParsePEM env of
        Inl err \<Rightarrow> (Some (ClientConfiguringTLS err), [], k)
      | Inr connOpts \<Rightarrow>
          (case SdkDial \<lparr>HostPort = upstreamAddr, Namespace = namespace, Credentials = None,
                         ConnectionTLS = connOpts\<rparr> of
             Inl err \<Rightarrow> (Some (ClientCreatingClient err), [], k)
           | Inr c \<Rightarrow>
               (case ExecuteWorkflow c \<lparr>wo_ID = ''verify-'' @ show_int (fst now), wo_TaskQueue = taskQueue\<rparr>
                       ''EchoWorkflow'' ''hello from verify-client'' k of
                  (Inl err, k1) \<Rightarrow> (Some (StartingWorkflow err), [], k1)
                | (Inr run, k1) \<Rightarrow>
                    (case RunGet c run k1 of
                       (Inl err, k2) \<Rightarrow> (Some (WorkflowFailed err), [], k2)
                     | (Inr result, k2) \<Rightarrow>
                         (case verifyCrossQueueBlocked c (snd now) taskQueue k2 of
                            (Some f, logs, k3) \<Rightarrow> (Some f, WorkflowResult result # logs, k3)
                          | (None, logs, k3) \<Rightarrow> (None, WorkflowResult result # logs, CloseClient c k3))))))"

subsection \<open>Properties\<close>

lemma scan_history_Inr:
  "scan_history events b = Inr b' \<longleftrightarrow>
     (\<forall>e \<in> set events. \<exists>t. e = Inr t) \<and> (b' \<longleftrightarrow> b \<or> Inr EVENT_TYPE_ACTIVITY_TASK_SCHEDULED \<in> set events)"
  by (induction events b rule: scan_history.induct) auto

text \<open>
  The client confirms that the activity was stopped exactly if it has read a whole history of the
  workflow it started and there is no scheduled activity in it.
\<close>

lemma verify_client_verdict:
  "fst (verifyCrossQueueBlocked c now tq k) = None \<longleftrightarrow>
   (\<exists>run k1. ExecuteWorkflow c \<lparr>wo_ID = ''verify-cross-queue-'' @ show_int now, wo_TaskQueue = tq\<rparr>
        ''CrossQueueWorkflow'' ''hello from verify-client'' k = (Inr run, k1) \<and>
      set (fst (GetWorkflowHistory c (GetID run) (GetRunID run) k1))
        \<subseteq> range Inr - {Inr EVENT_TYPE_ACTIVITY_TASK_SCHEDULED})"
proof (cases "ExecuteWorkflow c \<lparr>wo_ID = ''verify-cross-queue-'' @ show_int now, wo_TaskQueue = tq\<rparr>
    ''CrossQueueWorkflow'' ''hello from verify-client'' k")
  case (Pair r k1)
  show ?thesis
  proof (cases r)
    case (Inl err)
    with Pair show ?thesis by (simp add: verifyCrossQueueBlocked_def)
  next
    case (Inr run)
    let ?events = "fst (GetWorkflowHistory c (GetID run) (GetRunID run) k1)"
    have "fst (verifyCrossQueueBlocked c now tq k) = None \<longleftrightarrow> scan_history ?events False = Inr False"
      using Pair Inr by (simp add: verifyCrossQueueBlocked_def Let_def split: sum.split prod.split)
    also have "\<dots> \<longleftrightarrow> set ?events \<subseteq> range Inr - {Inr EVENT_TYPE_ACTIVITY_TASK_SCHEDULED}"
      by (auto simp: scan_history_Inr)
    finally show ?thesis using Pair Inr by simp
  qed
qed

end
