(* ===== verification/Valkey_Retention.thy ===== *)
theory Valkey_Retention
  imports Fleet
begin

section \<open>A token issued by one instance is known to all\<close>

text \<open>
  What makes the shared backend work: an entry that one instance has put is found by every other, for
  as long as the shortest lifetime of the fleet.  \<open>token_store\<close> lets a store forget at any time; here
  the server is assumed to have the memory it needs, the interface \<open>valkey_memory\<close>: a key that was set
  with \<open>PX\<close> is kept, and \<open>GETEX\<close> answers with it or fails, until its time is over.
\<close>

locale valkey_memory =
  fixes D :: "'v driver" and v_now :: "'v \<Rightarrow> int" and v_entry :: "'v \<Rightarrow> string \<Rightarrow> (string \<times> int) option"
    and m_drift :: "'v \<Rightarrow> 'v \<Rightarrow> bool"
  assumes set_time: "0 < px \<Longrightarrow> DoError D tmo (SetPX k x px) v = (r, v') \<Longrightarrow> v_now v \<le> v_now v'"
    and set_stores: "0 < px \<Longrightarrow> DoError D tmo (SetPX k x px) v = (None, v') \<Longrightarrow>
          \<exists>d. v_entry v' k = Some (x, d) \<and> v_now v + px \<le> d"
    and set_others: "0 < px \<Longrightarrow> DoError D tmo (SetPX k x px) v = (r, v') \<Longrightarrow> k' \<noteq> k \<Longrightarrow>
          v_entry v' k' = v_entry v k'"
    and getex_time: "0 < px \<Longrightarrow> DoString D tmo (GetexPX k px) v = (g, v') \<Longrightarrow> v_now v \<le> v_now v'"
    and getex_others: "0 < px \<Longrightarrow> DoString D tmo (GetexPX k px) v = (g, v') \<Longrightarrow> k' \<noteq> k \<Longrightarrow>
          v_entry v' k' = v_entry v k'"
    and getex_answer: "0 < px \<Longrightarrow> DoString D tmo (GetexPX k px) v = (g, v') \<Longrightarrow>
          v_entry v k = Some (x, d) \<Longrightarrow> v_now v' < d \<Longrightarrow> g = Inr (Some x) \<or> (\<exists>err. g = Inl err)"
    and getex_renews: "0 < px \<Longrightarrow> DoString D tmo (GetexPX k px) v = (g, v') \<Longrightarrow>
          v_entry v k = Some (x, d) \<Longrightarrow> v_now v' < d \<Longrightarrow>
          \<exists>d'. v_entry v' k = Some (x, d') \<and> (d' = d \<or> v_now v + px \<le> d')"
    and del_time: "DoError D tmo (Del k) v = (r, v') \<Longrightarrow> v_now v \<le> v_now v'"
    and del_others: "DoError D tmo (Del k) v = (r, v') \<Longrightarrow> k' \<noteq> k \<Longrightarrow> v_entry v' k' = v_entry v k'"
    and m_drift_time: "m_drift v v' \<Longrightarrow> v_now v \<le> v_now v'"
    and m_drift_entry: "m_drift v v' \<Longrightarrow> v_entry v' k = v_entry v k"

text \<open>What the instances may do with the store in the meantime: anything but set or delete this token.\<close>

inductive accesses :: "('k \<Rightarrow> 's store) \<Rightarrow> ('s \<Rightarrow> 's \<Rightarrow> bool) \<Rightarrow> bytes \<Rightarrow> 's \<Rightarrow> 's \<Rightarrow> bool"
  for S :: "'k \<Rightarrow> 's store" and drift :: "'s \<Rightarrow> 's \<Rightarrow> bool" and t :: bytes and s0 :: 's where
  access_start: "accesses S drift t s0 s0"
| access_put: "accesses S drift t s0 s \<Longrightarrow> sha256_hex u \<noteq> sha256_hex t \<Longrightarrow> Put (S k) c u e s = (r, s') \<Longrightarrow>
    accesses S drift t s0 s'"
| access_get: "accesses S drift t s0 s \<Longrightarrow> Get (S k) c u s = (g, s') \<Longrightarrow> accesses S drift t s0 s'"
| access_delete: "accesses S drift t s0 s \<Longrightarrow> sha256_hex u \<noteq> sha256_hex t \<Longrightarrow> Delete (S k) c u s = (r, s') \<Longrightarrow>
    accesses S drift t s0 s'"
| access_drift: "accesses S drift t s0 s \<Longrightarrow> drift s s' \<Longrightarrow> accesses S drift t s0 s'"

context valkey_memory
begin

abbreviation go_store :: "duration \<Rightarrow> duration \<Rightarrow> duration \<Rightarrow> 'v store" where
  "go_store rt wt ttl \<equiv> newValkeyStoreForClient (valkeyGoClient D rt wt) ttl"

definition lives :: "bytes \<Rightarrow> entry \<Rightarrow> int \<Rightarrow> 'v \<Rightarrow> bool" where
  "lives t e until v \<longleftrightarrow> (\<exists>d. v_entry v (tokenKey t) = Some (encodeValkeyEntry e, d) \<and> until \<le> d)"

lemma lives_same: "v_entry v' (tokenKey t) = v_entry v (tokenKey t) \<Longrightarrow> lives t e n v \<Longrightarrow> lives t e n v'"
  by (simp add: lives_def)

lemma put_command:
  "Put (go_store rt wt ttl) c t e v = (r, v') \<Longrightarrow>
   \<exists>tmo r0. DoError D tmo (SetPX (tokenKey t) (encodeValkeyEntry e) (ttlMilliseconds ttl)) v = (r0, v') \<and>
     (r = None \<longrightarrow> r0 = None)"
  by (auto simp: valkeyPut_client valkeyGoClient_def)

lemma get_command:
  assumes "Get (go_store rt wt ttl) c t v = (g, v')"
  obtains tmo g0 where "DoString D tmo (GetexPX (tokenKey t) (ttlMilliseconds ttl)) v = (g0, v')"
    and "\<forall>err. g0 = Inl err \<longrightarrow> (\<exists>err'. g = Inl err')"
    and "\<forall>e. g0 = Inr (Some (encodeValkeyEntry e)) \<and> utf8_entry e \<longrightarrow> g = Inr (Some e)"
proof -
  obtain g0 v0 where cmd:
    "DoString D (contextWithOptionalTimeout None rt) (GetexPX (tokenKey t) (ttlMilliseconds ttl)) v = (g0, v0)"
    by (cases "DoString D (contextWithOptionalTimeout None rt) (GetexPX (tokenKey t) (ttlMilliseconds ttl)) v")
  with assms have "v0 = v'" and "\<forall>err. g0 = Inl err \<longrightarrow> (\<exists>err'. g = Inl err')"
    and "\<forall>e. g0 = Inr (Some (encodeValkeyEntry e)) \<and> utf8_entry e \<longrightarrow> g = Inr (Some e)"
    by (auto simp: newValkeyStoreForClient_def valkeyGet_def valkeyGoClient_def decode_encode
        split: sum.splits option.splits)
  with cmd that show thesis by simp
qed

lemma delete_command:
  "Delete (go_store rt wt ttl) c t v = (r, v') \<Longrightarrow> \<exists>tmo r0. DoError D tmo (Del (tokenKey t)) v = (r0, v')"
  by (auto simp: valkeyDelete_client valkeyGoClient_def)

lemma put_time: "Put (go_store rt wt ttl) c t e v = (r, v') \<Longrightarrow> v_now v \<le> v_now v'"
  by (blast dest: put_command set_time [OF ttlMilliseconds_pos])

lemma get_time: "Get (go_store rt wt ttl) c t v = (g, v') \<Longrightarrow> v_now v \<le> v_now v'"
  by (elim get_command) (rule getex_time [OF ttlMilliseconds_pos])

lemma delete_time: "Delete (go_store rt wt ttl) c t v = (r, v') \<Longrightarrow> v_now v \<le> v_now v'"
  by (blast dest: delete_command del_time)

lemma put_lives:
  assumes "Put (go_store rt wt ttl) c t e v = (None, v')" and "until \<le> v_now v + ttlMilliseconds ttl"
  shows "lives t e until v'"
  using put_command [OF assms(1)] set_stores [OF ttlMilliseconds_pos] assms(2)
  unfolding lives_def by fastforce

lemma put_keeps:
  assumes "Put (go_store rt wt ttl) c u f v = (r, v')" and "sha256_hex u \<noteq> sha256_hex t" and "lives t e until v"
  shows "lives t e until v'"
  using put_command [OF assms(1)] set_others [OF ttlMilliseconds_pos] assms(2,3) lives_same
  by (metis tokenKey_inj_digest)

lemma delete_keeps:
  assumes "Delete (go_store rt wt ttl) c u v = (r, v')" and "sha256_hex u \<noteq> sha256_hex t" and "lives t e until v"
  shows "lives t e until v'"
  using delete_command [OF assms(1)] del_others assms(2,3) lives_same by (metis tokenKey_inj_digest)

lemma get_keeps:
  assumes "Get (go_store rt wt ttl) c u v = (g, v')" and "lives t e until v" and "v_now v' < until"
    and "until \<le> v_now v + ttlMilliseconds ttl"
  shows "lives t e until v'"
proof -
  obtain tmo g0 where cmd: "DoString D tmo (GetexPX (tokenKey u) (ttlMilliseconds ttl)) v = (g0, v')"
    by (rule get_command [OF assms(1)])
  show ?thesis
  proof (cases "tokenKey u = tokenKey t")
    case True
    with getex_renews [OF ttlMilliseconds_pos cmd] assms(2-4) show ?thesis
      unfolding lives_def by fastforce
  next
    case False
    with getex_others [OF ttlMilliseconds_pos cmd, of "tokenKey t"] assms(2) show ?thesis
      by (simp add: lives_def)
  qed
qed

lemma get_answers:
  assumes "Get (go_store rt wt ttl) c t v = (g, v')" and "lives t e until v" and "v_now v' < until"
    and "utf8_entry e"
  shows "g = Inr (Some e) \<or> (\<exists>err. g = Inl err)"
proof -
  obtain tmo g0 where cmd: "DoString D tmo (GetexPX (tokenKey t) (ttlMilliseconds ttl)) v = (g0, v')"
    and g: "\<forall>err. g0 = Inl err \<longrightarrow> (\<exists>err'. g = Inl err')"
      "\<forall>e. g0 = Inr (Some (encodeValkeyEntry e)) \<and> utf8_entry e \<longrightarrow> g = Inr (Some e)"
    by (rule get_command [OF assms(1)])
  have "g0 = Inr (Some (encodeValkeyEntry e)) \<or> (\<exists>err. g0 = Inl err)"
    using getex_answer [OF ttlMilliseconds_pos cmd] assms(2,3) unfolding lives_def by fastforce
  with g assms(4) show ?thesis by blast
qed

end

interpretation kv_memory: valkey_memory kv_driver kv_now kv_data kv_drift
  by unfold_locales (auto simp: kv_driver_def kv_held_def kv_drift_def split: if_splits option.splits)

subsection \<open>Properties\<close>

text \<open>The store of an instance: its driver, its two timeouts and its lifetime.\<close>

definition member_store :: "'v driver \<times> duration \<times> duration \<times> duration \<Rightarrow> 'v store" where
  "member_store m = (case m of (D, rt, wt, ttl) \<Rightarrow> newValkeyStoreForClient (valkeyGoClient D rt wt) ttl)"

lemma accesses_keep:
  assumes "accesses (\<lambda>k. member_store (D k, rt k, wt k, ttl k)) drift t v1 v"
    and "\<And>k. valkey_memory (D k) v_now v_entry drift" and "\<And>k. until \<le> v_now v1 + ttlMilliseconds (ttl k)"
    and "valkey_memory.lives v_entry t e until v1"
  shows "v_now v1 \<le> v_now v \<and> (v_now v < until \<longrightarrow> valkey_memory.lives v_entry t e until v)"
  using assms(1)
proof (induction rule: accesses.induct)
  case access_start
  show ?case by (simp add: assms(4))
next
  case (access_put s u k c f r s')
  then have put: "Put (newValkeyStoreForClient (valkeyGoClient (D k) (rt k) (wt k)) (ttl k)) c u f s = (r, s')"
    by (simp add: member_store_def)
  from valkey_memory.put_time [OF assms(2) put] valkey_memory.put_keeps [OF assms(2) put] access_put
  show ?case by auto
next
  case (access_get s k c u g s')
  then have get: "Get (newValkeyStoreForClient (valkeyGoClient (D k) (rt k) (wt k)) (ttl k)) c u s = (g, s')"
    by (simp add: member_store_def)
  from valkey_memory.get_time [OF assms(2) get] valkey_memory.get_keeps [OF assms(2) get, of t e until]
    assms(3) [of k] access_get.IH
  show ?case by auto
next
  case (access_delete s u k c r s')
  then have del: "Delete (newValkeyStoreForClient (valkeyGoClient (D k) (rt k) (wt k)) (ttl k)) c u s = (r, s')"
    by (simp add: member_store_def)
  from valkey_memory.delete_time [OF assms(2) del] valkey_memory.delete_keeps [OF assms(2) del] access_delete
  show ?case by auto
next
  case (access_drift s s')
  from valkey_memory.m_drift_time [OF assms(2) access_drift(2)] access_drift.IH
    valkey_memory.lives_same [OF assms(2) valkey_memory.m_drift_entry [OF assms(2) access_drift(2)]]
  show ?case by auto
qed

text \<open>In milliseconds, no instance lets the server forget a token within the lifetime \<open>T\<close>.\<close>

lemma shortest_lifetime:
  assumes "T \<le> ttl" and "n * millisecond < T"
  shows "n < ttlMilliseconds ttl"
proof -
  have "n * millisecond < ttlMilliseconds ttl * millisecond"
    using assms ttl_rounds_up [of ttl] by linarith
  then show ?thesis by (simp add: millisecond_def)
qed

lemma known_everywhere:
  assumes "\<And>k. valkey_memory (D k) v_now v_entry drift" and "\<And>k. T \<le> ttl k" and "utf8_entry e"
    and "Put (member_store (D p, rt p, wt p, ttl p)) c t e v0 = (None, v1)"
    and "accesses (\<lambda>k. member_store (D k, rt k, wt k, ttl k)) drift t v1 v2"
    and "Get (member_store (D q, rt q, wt q, ttl q)) c' t v2 = (g, v3)"
    and "(v_now v3 - v_now v0) * millisecond < T"
  shows "g = Inr (Some e) \<or> (\<exists>err. g = Inl err)"
proof -
  let ?until = "v_now v3 + 1"
  note put = assms(4) [unfolded member_store_def prod.case]
  note get = assms(6) [unfolded member_store_def prod.case]
  have life: "?until \<le> v_now v0 + ttlMilliseconds (ttl k)" for k
    using shortest_lifetime [OF assms(2,7), of k] by simp
  have "v_now v0 \<le> v_now v1" by (rule valkey_memory.put_time [OF assms(1) put])
  then have "?until \<le> v_now v1 + ttlMilliseconds (ttl k)" for k using life [of k] by simp
  from accesses_keep [OF assms(5,1) this valkey_memory.put_lives [OF assms(1) put life]]
    valkey_memory.get_time [OF assms(1) get]
  have "valkey_memory.lives v_entry t e ?until v2" by simp
  from valkey_memory.get_answers [OF assms(1) get this _ assms(3)] show ?thesis by simp
qed

text \<open>C13:
  A token crosses instances.  Once any instance of a fleet has registered a task token, every other
  instance lets an identity of the token's namespace and task queue use it, or reports that the store
  is unavailable, for as long as less than the shortest configured lifetime has passed, whatever the
  instances do with other tokens and however often this one is looked up in between.
\<close>

theorem token_crosses_instances:
  assumes "\<And>k. valkey_memory (D k) v_now v_entry drift" and "\<And>k. T \<le> ttl k" and "utf8_entry e"
    and "S = (\<lambda>k. member_store (D k, rt k, wt k, ttl k))"
    and "Put (S p) c t e v0 = (None, v1)" and "accesses S drift t v1 v2"
    and "(v_now (snd (Get (S q) c' t v2)) - v_now v0) * millisecond < T"
    and "Allowed (rpcNameFromFullMethod (ca_method ca)) = Some pol" and "Category pol = CategoryToken"
    and "extractAPIKey (call_context ca) = Some key" and "A key = Inr i" and "id_valid i"
    and "ca_request ca = Some req" and "RequestNamespace req = (id_namespace i, True)"
    and "RequestTaskToken req = (t, True)" and "t \<noteq> []"
    and "entry_namespace e = id_namespace i" and "AllowsTaskQueue i (entry_task_queue e)"
    and "command_check (rpcNameFromFullMethod (ca_method ca)) req (id_namespace i) (entry_task_queue e) = None"
  shows "case fst (check_call A (S q) c' ca v2) of
           Inl st \<Rightarrow> st_code st = Unavailable
         | Inr ck \<Rightarrow> ck_scope ck = entry_task_queue e"
proof -
  obtain g v3 where get: "Get (S q) c' t v2 = (g, v3)" by (cases "Get (S q) c' t v2")
  have "g = Inr (Some e) \<or> (\<exists>err. g = Inl err)"
    by (rule known_everywhere [OF assms(1-3) assms(5) [unfolded assms(4)] assms(6) [unfolded assms(4)]
          get [unfolded assms(4)]]) (use assms(7) get in simp)
  then show ?thesis
    using get assms(8-19)
    by (auto simp: check_call_def authorizeRequest_def authorizeToken_def grpcErrorForAuthorizationError_def)
qed

end
