(* ===== verification/Auth_File_Text.thy ===== *)
theory Auth_File_Text
  imports Utf8_Decoding
begin

section \<open>Auth files as they are written\<close>

text \<open>
  The text of a JSON document is laid out from its tokens, with any white space in between; the parser
  reads the document back.  An auth file is written as the comment on \<open>authFileConfig\<close> shows it, and
  \<open>loadAuthFile\<close> reads it as the entries that were written, section by section.
\<close>

subsection \<open>The text of a document\<close>

fun token_text :: "token \<Rightarrow> string" where
  "token_text TObjOpen = ''{''"
| "token_text TObjClose = ''}''"
| "token_text TArrOpen = ''[''"
| "token_text TArrClose = '']''"
| "token_text TComma = '',''"
| "token_text TColon = '':''"
| "token_text (TString s) = quote s"
| "token_text TNumber = ''0''"
| "token_text TTrue = ''true''"
| "token_text TFalse = ''false''"
| "token_text TNull = ''null''"

text \<open>Each token after its white space, and what white space follows the last.\<close>

definition lay_out :: "(string \<times> token) list \<Rightarrow> string \<Rightarrow> string" where
  "lay_out gts end = concat (map (\<lambda>(g, t). g @ token_text t) gts) @ end"

definition blanks :: "string \<Rightarrow> bool" where
  "blanks s \<longleftrightarrow> list_all blank s"

lemma tokenize_blanks: "blanks g \<Longrightarrow> tokenize (g @ s) = tokenize s"
  by (induction g) (simp_all add: blanks_def)

lemma tokenize_token:
  assumes "token_valid t" and "t \<noteq> TNumber"
  shows "tokenize (token_text t @ s) = map_option ((#) t) (tokenize s)"
proof (cases t)
  case (TString u)
  with assms(1) show ?thesis by (simp add: tokenize_quote)
qed (use assms(2) in \<open>simp_all add: next_token_def punctuation_def keyword_def blank_def hasPrefix_def
    is_digit_def in_range_def\<close>)

lemma tokenize_lay_out:
  "\<forall>(g, t) \<in> set gts. blanks g \<and> token_valid t \<and> t \<noteq> TNumber \<Longrightarrow> blanks end \<Longrightarrow>
   tokenize (lay_out gts end) = Some (map snd gts)"
proof (induction gts)
  case Nil
  then show ?case using tokenize_blanks [of "end" "[]"] by (simp add: lay_out_def)
next
  case (Cons gt gts)
  obtain g t where gt: "gt = (g, t)" by (cases gt)
  have "lay_out (gt # gts) end = g @ token_text t @ lay_out gts end" by (simp add: lay_out_def gt)
  with Cons gt show ?case by (simp only: tokenize_blanks) (simp add: tokenize_blanks tokenize_token)
qed

fun separated :: "token list list \<Rightarrow> token list" where
  "separated [] = []"
| "separated [ts] = ts"
| "separated (ts # tss) = ts @ TComma # separated tss"

fun tokens_of :: "json \<Rightarrow> token list" where
  "tokens_of JNull = [TNull]"
| "tokens_of (JBool b) = [if b then TTrue else TFalse]"
| "tokens_of JNumber = [TNumber]"
| "tokens_of (JString s) = [TString s]"
| "tokens_of (JArray vs) = TArrOpen # separated (map tokens_of vs) @ [TArrClose]"
| "tokens_of (JObject kvs) =
     TObjOpen # separated (map (\<lambda>kv. TString (fst kv) # TColon # tokens_of (snd kv)) kvs) @ [TObjClose]"

lemma set_separated: "set (separated tss) \<subseteq> insert TComma (\<Union>(set ` set tss))"
  by (induction tss rule: separated.induct) auto

lemma tokens_of_valid: "json_valid v \<Longrightarrow> t \<in> set (tokens_of v) \<Longrightarrow> token_valid t"
proof (induction v rule: tokens_of.induct)
  case (6 kvs)
  then consider "t \<in> {TObjOpen, TObjClose, TComma, TColon}" | kv where "kv \<in> set kvs" "t = TString (fst kv)"
    | kv where "kv \<in> set kvs" "t \<in> set (tokens_of (snd kv))"
    by (auto dest!: set_separated [THEN subsetD])
  then show ?case using 6 by cases auto
qed (auto dest!: set_separated [THEN subsetD] split: if_splits)

subsection \<open>Reading a document back\<close>

text \<open>A document whose arrays and objects are at most \<open>n\<close> deep.\<close>

fun nested :: "nat \<Rightarrow> json \<Rightarrow> bool" where
  "nested n (JArray vs) \<longleftrightarrow> 0 < n \<and> (\<forall>v \<in> set vs. nested (n - 1) v)"
| "nested n (JObject kvs) \<longleftrightarrow> 0 < n \<and> (\<forall>kv \<in> set kvs. nested (n - 1) (snd kv))"
| "nested n _ \<longleftrightarrow> True"

definition reads_back :: "frame list \<Rightarrow> json \<Rightarrow> bool" where
  "reads_back fs v \<longleftrightarrow> (\<forall>ts. parse_tokens (tokens_of v @ ts) WantValue fs = parse_tokens ts (Got v) fs)"

lemma parse_elements:
  "\<forall>us. \<forall>v \<in> set (v # vs). reads_back (InArray us # fs) v \<Longrightarrow>
   parse_tokens (separated (map tokens_of (v # vs)) @ TArrClose # ts) WantValue (InArray us # fs) =
   parse_tokens ts (Got (JArray (rev us @ v # vs))) fs"
proof (induction vs arbitrary: v us)
  case Nil
  then show ?case by (simp add: reads_back_def after_value_def)
next
  case (Cons w vs)
  then show ?case by (simp add: reads_back_def after_value_def)
qed

lemma parse_fields:
  "\<forall>us k. \<forall>kv \<in> set (kv # kvs). reads_back (InField us k # fs) (snd kv) \<Longrightarrow>
   parse_tokens (separated (map (\<lambda>kv. TString (fst kv) # TColon # tokens_of (snd kv)) (kv # kvs)) @ TObjClose # ts)
     WantKey (InObject us # fs) = parse_tokens ts (Got (JObject (rev us @ kv # kvs))) fs"
proof (induction kvs arbitrary: kv us)
  case Nil
  then show ?case by (cases kv) (simp add: reads_back_def after_value_def key_token_def after_key_def)
next
  case (Cons w kvs)
  then show ?case by (cases kv) (simp add: reads_back_def after_value_def key_token_def after_key_def)
qed

lemma open_array:
  "parse_tokens (separated (tokens_of v # tss) @ ts) WantValueOrClose fs =
   parse_tokens (separated (tokens_of v # tss) @ ts) WantValue fs"
  by (cases v; cases tss) auto

lemma open_object:
  "parse_tokens (separated ((TString k # us) # tss) @ ts) WantKeyOrClose fs =
   parse_tokens (separated ((TString k # us) # tss) @ ts) WantKey fs"
  by (cases tss) auto

lemma nested_reads_back: "nested n v \<Longrightarrow> length fs + n \<le> maxNestingDepth \<Longrightarrow> reads_back fs v"
proof (induction n v arbitrary: fs rule: nested.induct)
  case (1 n vs)
  then have elems: "\<forall>us. \<forall>v \<in> set vs. reads_back (InArray us # fs) v" and room: "length fs < maxNestingDepth"
    by auto
  show ?case
  proof (cases vs)
    case Nil
    with room show ?thesis by (simp add: reads_back_def open_frame_def close_empty_def)
  next
    case (Cons v ws)
    from parse_elements [OF elems [unfolded Cons], of _ "[]"] room show ?thesis
      by (simp add: reads_back_def [of fs] open_frame_def Cons open_array)
  qed
next
  case (2 n kvs)
  then have elems: "\<forall>us k. \<forall>kv \<in> set kvs. reads_back (InField us k # fs) (snd kv)" and room: "length fs < maxNestingDepth"
    by auto
  show ?case
  proof (cases kvs)
    case Nil
    with room show ?thesis by (simp add: reads_back_def open_frame_def close_empty_def)
  next
    case (Cons kv ws)
    from parse_fields [OF elems [unfolded Cons], of _ "[]"] room show ?thesis
      by (simp add: reads_back_def [of fs] open_frame_def Cons open_object)
  qed
qed (simp_all add: reads_back_def)

lemma parse_lay_out:
  assumes "map snd gts = tokens_of v" and "\<forall>g \<in> fst ` set gts. blanks g" and "blanks end"
    and "json_valid v" and "TNumber \<notin> set (tokens_of v)" and "nested maxNestingDepth v"
  shows "parse_json (lay_out gts end) = Some v"
proof -
  have "snd gt \<in> set (tokens_of v)" if "gt \<in> set gts" for gt
    using that assms(1) by (metis image_eqI list.set_map)
  then have "\<forall>(g, t) \<in> set gts. blanks g \<and> token_valid t \<and> t \<noteq> TNumber"
    using assms(2,4,5) tokens_of_valid by fastforce
  then have "tokenize (lay_out gts end) = Some (tokens_of v)" by (simp add: tokenize_lay_out assms(1,3))
  moreover have "reads_back [] v" by (rule nested_reads_back [OF assms(6)]) simp
  then have "parse_tokens (tokens_of v) WantValue [] = Some v"
    by (auto simp: reads_back_def dest: spec [of _ "[]"])
  ultimately show ?thesis by (simp add: parse_json_def)
qed

subsection \<open>The document of an auth file\<close>

text \<open>An entry names its subject only if it has one.\<close>

definition entry_json :: "static_key_entry \<Rightarrow> json" where
  "entry_json e =
     JObject ([(''namespace'', JString (ske_namespace e)),
               (''task_queues'', JArray (map JString (ske_task_queues e)))] @
              (if ske_subject e = '''' then [] else [(''subject'', JString (ske_subject e))]))"

definition section_json :: "(string \<times> static_key_entry) list \<Rightarrow> json" where
  "section_json es = JObject (map (\<lambda>(k, e). (k, entry_json e)) es)"

definition auth_file_json :: "auth_file_config \<Rightarrow> json" where
  "auth_file_json cfg =
     JObject [(''keys'', section_json (afc_keys cfg)), (''emails'', section_json (afc_emails cfg))]"

definition writable :: "(string \<times> static_key_entry) list \<Rightarrow> bool" where
  "writable es \<longleftrightarrow> distinct (map fst es) \<and>
     (\<forall>(k, e) \<in> set es. valid_utf8 k \<and> entry_utf8 e \<and> valid_utf8 (ske_subject e))"

lemma field_names_valid:
  "valid_utf8 ''keys''" "valid_utf8 ''emails''" "valid_utf8 ''namespace''" "valid_utf8 ''task_queues''"
  "valid_utf8 ''subject''"
  by (simp_all add: html_safe_body html_safe_def)

lemma entry_json_valid: "entry_utf8 e \<Longrightarrow> valid_utf8 (ske_subject e) \<Longrightarrow> json_valid (entry_json e)"
  by (auto simp: entry_json_def entry_utf8_def field_names_valid)

lemma auth_file_json_valid:
  "writable (afc_keys cfg) \<Longrightarrow> writable (afc_emails cfg) \<Longrightarrow> json_valid (auth_file_json cfg)"
  by (auto simp: auth_file_json_def section_json_def writable_def field_names_valid intro!: entry_json_valid)

lemma auth_file_json_nested: "nested maxNestingDepth (auth_file_json cfg)"
  by (auto simp: auth_file_json_def section_json_def entry_json_def maxNestingDepth_def)

lemma auth_file_json_tokens: "TNumber \<notin> set (tokens_of (auth_file_json cfg))"
proof -
  have strings: "TNumber \<notin> set (tokens_of (JArray (map JString qs)))" for qs
    by (auto dest!: set_separated [THEN subsetD])
  have fields: "TNumber \<notin> set (tokens_of (JObject kvs))" if "\<forall>kv \<in> set kvs. TNumber \<notin> set (tokens_of (snd kv))" for kvs
    using that by (auto dest!: set_separated [THEN subsetD]) (metis snd_conv)
  have "TNumber \<notin> set (tokens_of (entry_json e))" for e
    unfolding entry_json_def by (rule fields) (auto simp del: tokens_of.simps(5) simp: strings)
  then have "TNumber \<notin> set (tokens_of (section_json es))" for es
    unfolding section_json_def by (intro fields) auto
  then show ?thesis unfolding auth_file_json_def by (intro fields) simp
qed

subsection \<open>Decoding it\<close>

lemma decode_elements_strings: "decode_elements (map JString qs) old = Some qs"
  by (induction qs arbitrary: old) (simp_all add: decode_string_def)

lemma decode_key_entry_json: "decode_key_entry (entry_json e) = Some e"
  by (simp add: decode_key_entry_def entry_json_def decode_struct_def entry_fields_def foldName_fields
      decode_string_def decode_strings_def decode_elements_strings zero_entry_def)

lemma decode_entries_section:
  "distinct (map fst (old @ es)) \<Longrightarrow>
   decode_entries decode_key_entry (map (\<lambda>(k, e). (k, entry_json e)) es) old = Some (old @ es)"
proof (induction es arbitrary: old)
  case (Cons ke es)
  obtain k e where ke: "ke = (k, e)" by (cases ke)
  from Cons.prems have "k \<notin> fst ` set old" by (auto simp: ke)
  with Cons.IH [of "old @ [(k, e)]"] Cons.prems show ?case
    by (simp add: ke decode_key_entry_json update_new)
qed simp

lemma decode_section: "distinct (map fst es) \<Longrightarrow> decode_map decode_key_entry (section_json es) [] = Some es"
  using decode_entries_section [of "[]" es] by (simp add: decode_map_def section_json_def)

subsection \<open>Properties\<close>


text \<open>The file that is shipped with the image, beside one that is cut off and one that is not there.\<close>

definition sample_files :: file_system where
  "sample_files path =
     (if path = ''static-auth.json'' then Inr shipped_file else if path = ''cut.json'' then Inr ''{''
      else Inl ''open: no such file or directory'')"

definition shipped_config :: auth_file_config where
  "shipped_config = \<lparr>afc_keys = [(''test'', shipped_entry)],
     afc_emails = [(''782178815298-compute@developer.gserviceaccount.com'', shipped_entry)]\<rparr>"

text \<open>The white space before each token of the shipped file: indentations, after a line feed, and blanks.\<close>

definition shipped_gaps :: "string list" where
  "shipped_gaps =
     (let line = \<lambda>n. CHR 0x0A # replicate n CHR '' '';
          field = [line 6, '''', '' ''];
          entry = [line 4, '''', '' ''] @ field @ [''''] @ [line 6, '''', '' '', '''', '''', ''''] @ field @ [line 4]
      in [''''] @ [line 2, '''', '' ''] @ entry @ [line 2, ''''] @ [line 2, '''', '' ''] @ entry @ [line 2, line 0])"

lemma shipped_laid_out:
  "shipped_file = lay_out (zip shipped_gaps (tokens_of (auth_file_json shipped_config))) [CHR 0x0A]"
  by (simp add: shipped_file_def lay_out_def shipped_gaps_def auth_file_json_def shipped_config_def section_json_def
      entry_json_def shipped_entry_def quote_dq html_safe_def numeral_eq_Suc)


end
