(* ===== verification/Answered_Tokens.thy ===== *)
theory Answered_Tokens
  imports Token_Lineage Cache_Retention
begin

section \<open>The tokens of an answer are known when it arrives\<close>

text \<open>
  A worker uses the task tokens of an answer right away, so they have to be in the cache before the
  answer leaves the proxy.  The lemmas follow the loop over the response tokens on the local cache.
\<close>

text \<open>
  Registration puts one token after the other; a token that is among them stays in its shard as long
  as they are not more than a shard holds.
\<close>

lemma register_token_put:
  assumes "register_token local_store clk ck u c = (None, logs, c')"
  shows "cachePut clk u (entry_of ck) c = (None, c')"
  using assms by (auto simp: register_token_def local_store_def entry_of_def split: if_splits option.splits prod.splits)

lemma put_frame:
  assumes "cache_ok c" and "cachePut clk u e c = (r, c')"
  shows "cache_ok c'" and "frame c c'"
  using run_op_ok [OF assms(1), of "CPut clk u e"] assms(2) by simp_all

lemma registered_stays:
  assumes "register_tokens local_store clk ck ts c = (None, logs, c')" and "cache_ok c"
    and "\<forall>s \<in> set (c_shards c). sh_maxSize s = m" and "finite K" and "int (card K + length ts) < m"
    and "\<forall>n. x \<le> fst (clk n) + c_ttl c" and "kept t (entry_of ck) x K (cache_lru c t)"
  shows "cache_ok c' \<and> (\<exists>K'. kept t (entry_of ck) x K' (cache_lru c' t))"
  using assms
proof (induction ts arbitrary: clk c logs K)
  case Nil
  then show ?case by auto
next
  case (Cons u ts)
  obtain c1 where reg: "register_token local_store (clk 0) ck u c = (None, [], c1)"
    and rest: "register_tokens local_store (\<lambda>n. clk (Suc n)) ck ts c1 = (None, logs, c')"
    using Cons.prems(1) by (auto simp: register_token_def split: if_splits option.splits prod.splits)
  note put = register_token_put [OF reg]
  note frame = put_frame [OF Cons.prems(2) put]
  have max: "sh_maxSize (c_shards c ! shardFor v c) = m" for v
    using Cons.prems(3) cache_ok_length [OF Cons.prems(2)] by simp
  have "\<exists>K'. finite K' \<and> int (card K' + length ts) < m \<and> kept t (entry_of ck) x K' (cache_lru c1 t)"
  proof (cases "u = t")
    case True
    have "kept t (entry_of ck) (fst (clk 0) + c_ttl c) {} (cache_lru c1 t)"
      using put_kept [OF Cons.prems(2) put [unfolded True]] Cons.prems(3,5) by auto
    with Cons.prems(5,6) show ?thesis by (intro exI [of _ "{}"]) (auto intro: kept_earlier)
  next
    case False
    let ?K = "if shardFor u c = shardFor t c then insert u K else K"
    have card: "card (insert u K) \<le> Suc (card K)" by (simp add: card_insert_if Cons.prems(4))
    have "kept t (entry_of ck) x ?K (cache_lru (snd (cachePut (clk 0) u (entry_of ck) c)) t)"
      by (rule cachePut_kept [OF Cons.prems(2,7) False Cons.prems(4)]) (use card Cons.prems(5) max in auto)
    with put card Cons.prems(4,5) show ?thesis by (intro exI [of _ ?K]) auto
  qed
  then obtain K' where K': "finite K'" "int (card K' + length ts) < m" "kept t (entry_of ck) x K' (cache_lru c1 t)"
    by blast
  have "\<forall>n. x \<le> fst (clk (Suc n)) + c_ttl c1" using Cons.prems(6) frame(2) by (simp add: frame_def)
  from Cons.IH [OF rest frame(1) frame_bound [OF frame(2) Cons.prems(3)] K'(1,2) this K'(3)] show ?case .
qed

lemma registered_known:
  assumes "register_tokens local_store clk ck ts c = (None, logs, c')" and "cache_ok c"
    and "\<forall>s \<in> set (c_shards c). sh_maxSize s = m" and "int (length ts) \<le> m"
    and "\<forall>n. x \<le> fst (clk n) + c_ttl c" and "t \<in> set ts"
  shows "cache_ok c' \<and> (\<exists>K. kept t (entry_of ck) x K (cache_lru c' t))"
  using assms
proof (induction ts arbitrary: clk c logs)
  case Nil
  then show ?case by simp
next
  case (Cons u ts)
  obtain c1 where reg: "register_token local_store (clk 0) ck u c = (None, [], c1)"
    and rest: "register_tokens local_store (\<lambda>n. clk (Suc n)) ck ts c1 = (None, logs, c')"
    using Cons.prems(1) by (auto simp: register_token_def split: if_splits option.splits prod.splits)
  note put = register_token_put [OF reg]
  note frame = put_frame [OF Cons.prems(2) put]
  have max: "\<forall>s \<in> set (c_shards c1). sh_maxSize s = m" by (rule frame_bound [OF frame(2) Cons.prems(3)])
  have later: "\<forall>n. x \<le> fst (clk (Suc n)) + c_ttl c1" using Cons.prems(5) frame(2) by (simp add: frame_def)
  show ?case
  proof (cases "t \<in> set ts")
    case True
    with Cons.prems(4) show ?thesis by (intro Cons.IH [OF rest frame(1) max _ later]) simp_all
  next
    case False
    with Cons.prems(6) have "u = t" by simp
    then have "kept t (entry_of ck) (fst (clk 0) + c_ttl c) {} (cache_lru c1 t)"
      using put_kept [OF Cons.prems(2) put [unfolded \<open>u = t\<close>]] Cons.prems(3,4) by auto
    then have "kept t (entry_of ck) x {} (cache_lru c1 t)" using Cons.prems(5) by (auto intro: kept_earlier)
    with Cons.prems(4) show ?thesis by (intro registered_stays [OF rest frame(1) max _ _ later]) simp_all
  qed
qed

text \<open>The operations before the registration keep the invariant, the lifetime and the bounds.\<close>

lemma check_call_frame:
  assumes "check_call A local_store clk ca c = (r, logs, c')" and "cache_ok c"
  shows "cache_ok c' \<and> frame c c'"
  using check_call_store [OF assms(1)]
proof
  assume "\<exists>req t g. ca_request ca = Some req \<and> RequestTaskToken req = (t, True) \<and> Get local_store clk t c = (g, c')"
  then obtain t g where "cacheGet clk t c = (g, c')" by (auto simp: local_store_def)
  then have "run_op (CGet clk t) c = c'" by simp
  with run_op_ok [OF assms(2)] show ?thesis by blast
qed (simp add: assms(2))

lemma delete_terminal_frame:
  assumes "delete_terminal local_store clk ck c = (logs, c')" and "cache_ok c"
  shows "cache_ok c' \<and> frame c c'"
proof (cases "c' = c")
  case False
  with assms(1) obtain t r where "cacheDelete clk t c = (r, c')"
    by (auto simp: delete_terminal_def local_store_def split: if_splits option.splits prod.splits)
  then have "run_op (CDelete clk t) c = c'" by simp
  with run_op_ok [OF assms(2)] show ?thesis by blast
qed (simp add: assms(2))

subsection \<open>Properties\<close>


end
