(* ===== verification/Spec2Isabelle.thy ===== *)
theory Spec2Isabelle
  imports Served_Proxy Sha256_Vector Verify_Client Valkey_Retention Auth_File_Text Answered_Tokens
begin

text \<open>
  \<^bold>\<open>What this is.\<close>  A model of temporal-proxy, the gRPC proxy of this repository that lets untrusted
  Temporal workers reach a Temporal server, and proofs of what makes it safe to put between them.  The
  program is one process: an environment is read into a configuration (\<open>internal/config\<close>), an
  authenticator (\<open>internal/auth\<close>), a connection to the Temporal server (\<open>internal/upstream\<close>) and a token
  store (\<open>internal/tokencache\<close>) are built from it, and a gRPC server runs every call through one
  interceptor (\<open>internal/proxy/interceptor.go\<close>) before \<open>internal/proxy/server.go\<close> forwards it.  The
  interceptor consults the allowlist (\<open>internal/rpcpolicy\<close>), reads requests and responses with
  \<open>internal/scope\<close>, remembers in the store which namespace and task queue each task token belongs to,
  and logs billable actions (\<open>internal/actions\<close>).

  \<^bold>\<open>The theories\<close>, in the order in which they build on each other:

  \<^item> \<open>Prelude\<close>: strings as bytes, durations, a few list and map lemmas.
  \<^item> \<open>Api_Messages\<close>: the protobuf messages, as datatypes with the fields that the proxy reads.
  \<^item> \<open>Rpc_Policy\<close>, \<open>Scope\<close>, \<open>Actions\<close>: \<open>allowlist.go\<close>, \<open>scope.go\<close>, \<open>actions.go\<close>.
  \<^item> \<open>Sha256\<close>, \<open>Sha256_Vector\<close>, \<open>Auth\<close>, \<open>Go_Json\<close>, \<open>Tls\<close>, \<open>Auth_File\<close>, \<open>Utf8_Decoding\<close>, \<open>Auth_File_Text\<close>:
    \<open>auth.go\<close>, \<open>static.go\<close> and \<open>jwt.go\<close>, with the parts of crypto/sha256, encoding/json and crypto/tls that
    they use, and the text of an auth file; the locales \<open>authenticator_contract\<close> and \<open>identity_table\<close>.
  \<^item> \<open>Token_Store\<close>: the interface \<open>Store\<close> and its contract, the locale \<open>token_store\<close>, with a map as its
    specification.
  \<^item> \<open>Lru_Shard\<close>, \<open>Lru_Refinement\<close>, \<open>Local_Cache\<close>, \<open>Cache_Retention\<close>: \<open>cache.go\<close>.  A shard keeps the
    code's map and linked list, with addresses for the list elements; it refines one LRU list; 32 of
    them, with the janitor goroutine as a state machine, keep the contract.
  \<^item> \<open>Interceptor\<close>, \<open>Server\<close>: \<open>interceptor.go\<close> and \<open>server.go\<close>, each branch with its status and log line.
  \<^item> \<open>Access_Policy\<close>: the declarative access policy that the interceptor's checks are proved to decide.
  \<^item> \<open>Concurrent_Calls\<close>, \<open>Proxy_Safety\<close>, \<open>Token_Lineage\<close>: any number of calls in progress at once,
    interleaved where they touch the store or the upstream; the invariant of the reachable states
    (locale \<open>guarded_proxy\<close>); where tokens come from, and that a terminal call ends them.
    \<open>interceptor_reachable\<close> relates the interceptor run in one go to the steps.
  \<^item> \<open>Answered_Tokens\<close>: the tokens of an answer are registered before it leaves the proxy.
  \<^item> \<open>Valkey_Store\<close>, \<open>Valkey_Contract\<close>: \<open>valkey.go\<close>, and the contract proved through three interfaces,
    the server's commands, the client, the store.
  \<^item> \<open>Proxy_Instances\<close>: both authenticators in front of both stores.
  \<^item> \<open>Fleet\<close>, \<open>Valkey_Retention\<close>: several instances of the proxy on one Valkey server, what they may
    forward (locale \<open>guarded_fleet\<close>), and how long a token that one has issued is known to the others
    (locale \<open>valkey_memory\<close>).
  \<^item> \<open>Go_Strings\<close>, \<open>Go_Numbers\<close>, \<open>Config\<close>, \<open>Config_Errors\<close>: \<open>config.go\<close>, with the parsers of package
    strings, strconv, time and path/filepath that it calls.
  \<^item> \<open>Upstream\<close>, \<open>Log_Level\<close>, \<open>Wiring\<close>, \<open>Served_Proxy\<close>: \<open>upstream.go\<close> and \<open>cmd/temporal-proxy/main.go\<close>.
  \<^item> \<open>Example_Run\<close>: one poll and one completion, for the witnesses.
  \<^item> \<open>Verify_Worker\<close>, \<open>Verify_Client\<close>: the Go programs under \<open>examples\<close> that verify a proxy end to end,
    with their TLS options, their credential and their workflows; the SDK is a parameter.

  \<^bold>\<open>How the code is represented.\<close>  A Go struct is a record, a map a partial function or an association
  list, an error a constructor of a datatype that names the message, \<open>(value, error)\<close> a sum.  State is
  passed explicitly: an operation of the store takes the state and the readings of the clock it makes.
  Instants and durations are unbounded integers in the cache, where they stay far from the ends of
  their type, and the parsers that may overflow (\<open>Atoi\<close>, \<open>ParseDuration\<close>, the log level) have their
  64 bits written out, \<open>ParseDuration\<close> its double precision arithmetic too.  There is no fuel: every
  loop is a structural recursion or has a measure (the eviction loops, trimming, the duration parser).

  \<^bold>\<open>What is proved.\<close>  Forwarding is safe in every reachable state, for a proxy that a run of the
  program serves with, from the environment and the auth file to the forwarded request, with the local
  cache and with Valkey, alone and in a fleet (\<open>served_local_proxy_safe\<close>,
  \<open>served_valkey_proxy_safe\<close>, \<open>served_fleet_safe\<close>, and the properties below on tenants, lineage and
  the cache's content).  The checks decide the access policy exactly
  (\<open>check_decides_policy\<close>); the error paths fail closed; commands are confined.  The stores refine a
  map, of which a failed operation may leave two readings; the shard refines an LRU list; the cache is
  bounded, and a token stays in it while its uses renew its lease, so that a legitimate worker is not
  turned away (\<open>token_retained\<close>, \<open>leased_token_accepted\<close>); a token is known when its answer arrives
  (\<open>answered_tokens_known\<close>) and is refused once a terminal call has consumed it
  (\<open>terminal_call_consumes_token\<close>).  The janitor stops.  Configuration errors are reported completely; a
  run releases what it acquires; printed numbers, auth files and stored entries are read back.  What a call carries stays in its context: the upstream is sent the proxy's own credential
  alone (\<open>upstream_sees_proxy_credential\<close>).

  \<^bold>\<open>Assumptions.\<close>  A mutex makes the section it guards one step; \<open>Authenticate\<close> and the loops over a
  request touch no shared state.  The Temporal server, grpc, valkey-go with its server, Google's token
  validator, the PEM and X.509 parsers and the operating system are parameters.  The server of Valkey
  is assumed to do what its commands are documented to do, and may forget anything at any time
  (\<open>valkey_server\<close>); it starts without entries and its keys are written by the instances of the fleet only;
  the tokens of a run have different SHA-256 digests.  Only for the retention of tokens across instances
  is it assumed to keep a key until its time is over (\<open>valkey_memory\<close>).  The hash that spreads tokens
  over the shards is arbitrary.

  \<^bold>\<open>Not modelled.\<close>  The example workers in TypeScript; the texts of error and log messages beyond the
  values in them; deadlines of the callers' contexts (of a context the model has the incoming metadata,
  the outgoing metadata and the identity); \<open>GracefulStop\<close> beyond its place in the run, and handlers that
  still run when \<open>Serve\<close> has failed and \<open>run\<close> returns; a call that blocks for ever.
\<close>

section \<open>Properties of the whole proxy\<close>

subsection \<open>From the environment to the forwarded call\<close>

text \<open>C1:
  The deployed proxy is safe.  Whenever a run of the program serves with the local cache, then in every
  interleaving of its calls a request reaches the upstream only for an identity of the auth file that
  the environment names, to an RPC of the allowlist, and permitted to that identity by the access
  policy on the strength of task tokens that this proxy had handed out before, with their namespace
  and task queue.
\<close>

theorem served_local_proxy_safe:
  assumes "Serving p \<in> set (snd (run h v ending))" and "px_Cache p = LocalCache c"
    and "reachable (px_Authenticator p) local_store janitor_step (Server (px_Upstream p)) UNIV (initial_sys c u) y"
    and "EvForward i ck \<in> set (sy_trace y)"
  shows "\<exists>cfg identities tr1 tr2 known. Load (Env h) = Inr cfg \<and> configured_table h cfg identities \<and>
     sy_trace y = tr1 @ EvForward i ck # tr2 \<and> in_table identities (ck_identity ck) \<and>
     Allowed (ck_rpc ck) = Some (ck_policy ck) \<and> method_of (ck_request ck) = ck_rpc ck \<and>
     (\<forall>t e. known t = Some e \<longrightarrow> issued tr1 t e) \<and>
     permitted (ck_identity ck) known (ck_request ck) (ck_scope ck)"
proof -
  from assms(1,2) obtain cfg identities where cfg: "Load (Env h) = Inr cfg" "configured_table h cfg identities"
    and guarded: "guarded_proxy (px_Authenticator p) (in_table identities) local_store UNIV (\<lambda>_. True)
      cache_ok cache_holds janitor_step"
    and c: "c = NewCache (cf_TokenCacheTTL cfg) (cf_TokenCacheMaxSize cfg) (Seed h)"
    by (rule served_local)
  obtain tr1 tr2 where "sy_trace y = tr1 @ EvForward i ck # tr2" and "justified (in_table identities) tr1 ck"
    using guarded_proxy.event_justified [OF guarded assms(3) _ _ assms(4)] c by auto
  with cfg show ?thesis unfolding justified_def request_for_def by blast
qed

theorem served_local_proxy_safe_witness:
  "\<exists>cfg identities. Load (sample_env ''local'') = Inr cfg \<and>
     configured_table (sample_host ''local'') cfg identities \<and> in_table identities (ck_identity done_checked)"
  using served_local_proxy_safe [OF local_serving, of sample_cache "()" sample_completed 1 done_checked]
    completed_reachable
  by (auto simp: sample_proxy_def sample_host_def sample_completed_def sample_start_def)

text \<open>C2:
  The same with the Valkey store, on a server that starts without entries and whose commands do what
  they are documented to do, for calls whose task tokens have different digests: what the server
  forgets, expires or fails to answer can only lead to refusals.
\<close>

theorem served_valkey_proxy_safe:
  assumes "Serving p \<in> set (snd (run h v ending))" and "px_Cache p = ValkeyCache S w"
    and "\<And>opt D. NewValkeyClient h opt = Inr D \<Longrightarrow> valkey_server D v_ok v_held v_drift"
    and "inj_on sha256_hex U" and "v_ok v" and "\<forall>k. v_held v k = None"
    and "reachable (px_Authenticator p) S v_drift (Server (px_Upstream p)) U (initial_sys w u) y"
    and "EvForward i ck \<in> set (sy_trace y)"
  shows "\<exists>cfg identities tr1 tr2 known. Load (Env h) = Inr cfg \<and> configured_table h cfg identities \<and>
     sy_trace y = tr1 @ EvForward i ck # tr2 \<and> in_table identities (ck_identity ck) \<and>
     Allowed (ck_rpc ck) = Some (ck_policy ck) \<and> method_of (ck_request ck) = ck_rpc ck \<and>
     (\<forall>t e. known t = Some e \<longrightarrow> issued tr1 t e) \<and>
     permitted (ck_identity ck) known (ck_request ck) (ck_scope ck)"
proof -
  from assms(1-6) obtain cfg identities where cfg: "Load (Env h) = Inr cfg" "configured_table h cfg identities"
    and guarded: "guarded_proxy (px_Authenticator p) (in_table identities) S U utf8_entry v_ok
      (valkey_holds v_held) v_drift"
    and w: "v_ok w" "\<forall>t. valkey_holds v_held w t = None"
    by (rule served_valkey)
  obtain tr1 tr2 where "sy_trace y = tr1 @ EvForward i ck # tr2" and "justified (in_table identities) tr1 ck"
    using guarded_proxy.event_justified [OF guarded assms(7) w(1) _ assms(8)] w(2) by auto
  with cfg show ?thesis unfolding justified_def request_for_def by blast
qed

theorem served_valkey_proxy_safe_witness:
  "\<exists>cfg identities. Load (sample_env ''valkey'') = Inr cfg \<and>
     configured_table (sample_host ''valkey'') cfg identities \<and> in_table identities (ck_identity poll_checked)"
proof -
  let ?p = "sample_proxy (ValkeyCache sample_valkey_store sample_server)"
  have cache: "px_Cache ?p = ValkeyCache sample_valkey_store sample_server" by (simp add: sample_proxy_def)
  have server: "valkey_server D (\<lambda>_. True) kv_held kv_drift"
    if "NewValkeyClient (sample_host ''valkey'') opt = Inr D" for opt D
    using that kv.valkey_server_axioms by (simp add: sample_host_def)
  have empty: "\<forall>k. kv_held sample_server k = None" by (simp add: kv_held_def sample_server_def)
  have run: "reachable (px_Authenticator ?p) sample_valkey_store kv_drift (Server (px_Upstream ?p)) {''tok''}
      (initial_sys sample_server ()) valkey_polled"
    using valkey_polled_reachable by (simp add: sample_proxy_def)
  have ev: "EvForward 0 poll_checked \<in> set (sy_trace valkey_polled)" by (simp add: valkey_polled_def)
  from served_valkey_proxy_safe [OF valkey_serving cache server _ _ empty run ev]
  show ?thesis by (auto simp: sample_host_def)
qed

text \<open>C3:
  A fleet is as safe as one proxy.  Any number of runs of the program, each with the configuration,
  auth file, authentication mode, lifetimes and upstream credential of its own host, may share one
  Valkey server, and their calls may interleave in any way: a request reaches the upstream through an
  instance only for an identity of the auth file of that instance, to an RPC of the allowlist, and
  permitted on the strength of task tokens that some instance had handed out before, with their
  namespace and task queue.
\<close>

theorem served_fleet_safe:
  fixes h :: "'k \<Rightarrow> ('u, 'v) host"
  assumes "\<And>k. Serving (p k) \<in> set (snd (run (h k) (v k) (ending k)))"
    and "\<And>k. px_Cache (p k) = ValkeyCache (S k) (w k)"
    and "\<And>k opt D. NewValkeyClient (h k) opt = Inr D \<Longrightarrow> valkey_server D v_ok v_held v_drift"
    and "inj_on sha256_hex U" and "v_ok v0" and "\<forall>k. v_held v0 k = None"
    and "fleet_reachable (\<lambda>k. px_Authenticator (p k)) S v_drift (\<lambda>k. Server (px_Upstream (p k))) U inst
           (initial_sys v0 u) y"
    and "EvForward i ck \<in> set (sy_trace y)"
  shows "\<exists>cfg identities tr1 tr2 known. Load (Env (h (inst i))) = Inr cfg \<and>
     configured_table (h (inst i)) cfg identities \<and>
     sy_trace y = tr1 @ EvForward i ck # tr2 \<and> in_table identities (ck_identity ck) \<and>
     Allowed (ck_rpc ck) = Some (ck_policy ck) \<and> method_of (ck_request ck) = ck_rpc ck \<and>
     (\<forall>t e. known t = Some e \<longrightarrow> issued tr1 t e) \<and>
     permitted (ck_identity ck) known (ck_request ck) (ck_scope ck)"
proof -
  obtain cfg identities where
      cfg: "\<forall>k. Load (Env (h k)) = Inr (cfg k) \<and> configured_table (h k) (cfg k) (identities k)"
    and fleet: "guarded_fleet (\<lambda>k. px_Authenticator (p k)) (\<lambda>k. in_table (identities k)) S U utf8_entry v_ok
      (valkey_holds v_held) v_drift"
    by (rule served_fleet [where h = h and p = p and S = S and w = w and v = v and ending = ending, OF assms(1-4)])
  obtain tr1 tr2 where "sy_trace y = tr1 @ EvForward i ck # tr2"
    and "justified (guarded_fleet.somewhere (\<lambda>k. in_table (identities k))) tr1 ck"
    and "in_table (identities (inst i)) (ck_identity ck)"
    by (rule guarded_fleet.fleet_event_justified [OF fleet assms(7,5) empty_holds [of v_held, OF assms(6)] assms(8)])
  with cfg show ?thesis unfolding justified_def request_for_def by blast
qed

theorem served_fleet_safe_witness:
  "\<exists>cfg identities tr1 known. Load (sample_env ''valkey'') = Inr cfg \<and>
     configured_table (sample_host ''valkey'') cfg identities \<and> in_table identities (ck_identity done_checked) \<and>
     (\<forall>t e. known t = Some e \<longrightarrow> issued tr1 t e) \<and>
     permitted (ck_identity done_checked) known done_request ''proxy-test-queue''"
proof -
  let ?p = "\<lambda>_ :: bool. sample_proxy (ValkeyCache sample_valkey_store sample_server)"
  have cache: "px_Cache (?p k) = ValkeyCache sample_valkey_store sample_server" for k by (simp add: sample_proxy_def)
  have server: "valkey_server D (\<lambda>_. True) kv_held kv_drift"
    if "NewValkeyClient (sample_host ''valkey'') opt = Inr D" for opt D
    using that kv.valkey_server_axioms by (simp add: sample_host_def)
  have empty: "\<forall>k. kv_held sample_server k = None" by (simp add: kv_held_def sample_server_def)
  have run: "fleet_reachable (\<lambda>k. px_Authenticator (?p k)) (\<lambda>_. sample_valkey_store) kv_drift
      (\<lambda>k. Server (px_Upstream (?p k))) {''tok''} (\<lambda>i. i = 0) (initial_sys sample_server ()) fleet_completed"
    using fleet_completed_reachable by (simp add: sample_proxy_def)
  have ev: "EvForward 1 done_checked \<in> set (sy_trace fleet_completed)" by (simp add: fleet_completed_def)
  have "ck_request done_checked = done_request" and "ck_scope done_checked = ''proxy-test-queue''"
    by (simp_all add: done_checked_def)
  with served_fleet_safe [where p = ?p and h = "\<lambda>_. sample_host ''valkey''",
      OF valkey_serving cache server _ _ empty run ev]
  show ?thesis by (auto simp: sample_host_def)
qed

subsection \<open>Safety of every reachable state, with the local cache\<close>

text \<open>C4:
  Every request that is ever forwarded, in any interleaving of any number of calls with each other and
  with the janitor, is made for a well-formed identity of the auth file, to an RPC of the allowlist,
  and is permitted to that identity by the access policy on the strength of task tokens that the
  upstream had handed out before, through this proxy, under the namespace and task queue presumed.
\<close>

theorem forwarded_calls_justified:
  assumes "buildIdentities entries hash = Inr identities" and "guards identities A"
    and "reachable A local_store janitor_step handler UNIV (initial_sys (NewCache ttl n seed) u) y"
    and "EvForward i ck \<in> set (sy_trace y)"
  shows "\<exists>tr1 tr2 known. sy_trace y = tr1 @ EvForward i ck # tr2 \<and>
     in_table identities (ck_identity ck) \<and> well_formed_identity (ck_identity ck) \<and>
     Allowed (ck_rpc ck) = Some (ck_policy ck) \<and> method_of (ck_request ck) = ck_rpc ck \<and>
     (\<forall>t e. known t = Some e \<longrightarrow> issued tr1 t e) \<and>
     permitted (ck_identity ck) known (ck_request ck) (ck_scope ck)"
proof -
  obtain tr1 tr2 where "sy_trace y = tr1 @ EvForward i ck # tr2"
    and "justified (in_table identities) tr1 ck"
    using guarded_proxy.event_justified [OF local_guarded [OF assms(1,2)] assms(3) _ _ assms(4)]
    by auto
  then show ?thesis by (auto simp: justified_def request_for_def)
qed

theorem forwarded_calls_justified_witness:
  "\<exists>known. permitted (identity_of shipped_entry) known done_request ''proxy-test-queue''"
  using forwarded_calls_justified [OF shipped.built _ completed_reachable [unfolded sample_start_def
      sample_cache_def], of 1 done_checked]
  by (auto simp: guards_def sample_completed_def done_checked_def)

text \<open>C5:
  Tenants are isolated.  A request that presents a task token is forwarded only for an identity of the
  namespace to which the upstream gave that token, in answer to an earlier call of an identity that
  shares the task queue of that call with it.
\<close>

theorem tenants_isolated:
  assumes "buildIdentities entries hash = Inr identities" and "guards identities A"
    and "reachable A local_store janitor_step handler UNIV (initial_sys (NewCache ttl n seed) u) y"
    and "EvForward i ck \<in> set (sy_trace y)" and "RequestTaskToken (ck_request ck) = (t, True)"
  shows "\<exists>tr1 tr2 j ck' resp q. sy_trace y = tr1 @ EvForward i ck # tr2 \<and>
     EvReply j ck' resp \<in> set tr1 \<and> t \<in> set (response_tokens resp) \<and>
     id_namespace (ck_identity ck') = id_namespace (ck_identity ck) \<and> ck_scope ck' = q \<and>
     q \<in> set (id_task_queues (ck_identity ck')) \<and> q \<in> set (id_task_queues (ck_identity ck))"
proof -
  note guarded = local_guarded [OF assms(1,2)]
  obtain tr1 tr2 where tr: "sy_trace y = tr1 @ EvForward i ck # tr2"
    and j: "justified (in_table identities) tr1 ck"
    using guarded_proxy.event_justified [OF guarded assms(3) _ _ assms(4)] by auto
  from guarded_proxy.justified_token [OF guarded j assms(5)] obtain k ck' resp where
    reply: "EvReply k ck' resp \<in> set tr1" "t \<in> set (response_tokens resp)" and e: "entry_of ck = entry_of ck'"
    by (auto simp: issued_def)
  have q: "ck_scope ck \<in> set (id_task_queues (ck_identity ck))"
    using j assms(5) by (auto simp: justified_def dest: permitted_token)
  have "well_formed_identity (ck_identity ck)" using j by (simp add: justified_def)
  with q have "ck_scope ck \<noteq> ''''" by (auto simp: well_formed_identity_def)
  moreover obtain tr3 where "justified (in_table identities) tr3 ck'"
    using guarded_proxy.event_justified [OF guarded assms(3) _ _, of "EvReply k ck' resp"] reply(1) tr
    by auto
  ultimately have "ck_scope ck' \<in> set (id_task_queues (ck_identity ck'))"
    using e by (auto simp: entry_of_def dest: justified_scope)
  with tr reply e q show ?thesis by (auto simp: entry_of_def)
qed

theorem tenants_isolated_witness:
  "RequestTaskToken done_request = (''tok'', True) \<and>
   (\<exists>tr1 ck' resp j. EvReply j ck' resp \<in> set tr1 \<and> ''tok'' \<in> set (response_tokens resp) \<and>
      id_namespace (ck_identity ck') = sample_namespace)"
proof
  show tok: "RequestTaskToken done_request = (''tok'', True)" by (simp add: done_request_def)
  show "\<exists>tr1 ck' resp j. EvReply j ck' resp \<in> set tr1 \<and> ''tok'' \<in> set (response_tokens resp) \<and>
      id_namespace (ck_identity ck') = sample_namespace"
    using tenants_isolated [OF shipped.built _ completed_reachable [unfolded sample_start_def
        sample_cache_def], of 1 done_checked "''tok''"] tok
    by (auto simp: guards_def sample_completed_def done_checked_def identity_of_def shipped_entry_def
        sample_namespace_def)
qed

text \<open>C7:
  Lineage.  With an upstream that answers each method with that method's response type, the authority
  to use a task token always goes back to a poll: some identity of the namespace polled the task
  queue, and was permitted to, before the token was used.
\<close>

theorem token_goes_back_to_poll:
  assumes "buildIdentities entries hash = Inr identities" and "guards identities A"
    and "typed_client Upstream"
    and "reachable A local_store janitor_step (Server Upstream) UNIV (initial_sys (NewCache ttl n seed) u) y"
    and "EvForward i ck \<in> set (sy_trace y)" and "RequestTaskToken (ck_request ck) = (t, True)"
  shows "\<exists>tr1 tr2 j pk resp. sy_trace y = tr1 @ EvForward i ck # tr2 \<and> EvReply j pk resp \<in> set tr1 \<and>
     Category (ck_policy pk) = CategoryPoll \<and>
     id_namespace (ck_identity pk) = id_namespace (ck_identity ck) \<and> ck_scope pk = ck_scope ck \<and>
     ck_scope ck \<in> set (id_task_queues (ck_identity ck))"
  by (rule guarded_proxy.forwarded_token_polled [OF local_guarded [OF assms(1,2)] assms(4) _ _
        typed_Server [OF assms(3)] assms(5,6)])
    (auto simp: polled_def entry_of_def)

theorem token_goes_back_to_poll_witness:
  "\<exists>tr1 j pk resp. EvReply j pk resp \<in> set tr1 \<and> Category (ck_policy pk) = CategoryPoll \<and>
     ck_scope pk = ''proxy-test-queue''"
proof -
  have "RequestTaskToken (ck_request done_checked) = (''tok'', True)"
    by (simp add: done_checked_def done_request_def)
  from token_goes_back_to_poll [OF shipped.built _ typed_sample completed_reachable [unfolded
      sample_start_def sample_cache_def] _ this, of 1]
  show ?thesis by (auto simp: guards_def sample_completed_def done_checked_def)
qed

text \<open>C22:
  Whatever the cache holds for a token, in any reachable state, is the namespace and task queue of a
  call to which the upstream had answered with that token.
\<close>

theorem cache_holds_issued:
  assumes "buildIdentities entries hash = Inr identities" and "guards identities A"
    and "reachable A local_store janitor_step handler UNIV (initial_sys (NewCache ttl n seed) u) y"
    and "cache_holds (sy_store y) t = Some e"
  shows "\<exists>j ck resp. EvReply j ck resp \<in> set (sy_trace y) \<and> t \<in> set (response_tokens resp) \<and>
     e = \<lparr>entry_namespace = id_namespace (ck_identity ck), entry_task_queue = ck_scope ck\<rparr>"
  using guarded_proxy.held_issued [OF local_guarded [OF assms(1,2)] assms(3) _ _ _ assms(4)]
  by (auto simp: issued_def entry_of_def)

theorem cache_holds_issued_witness:
  "\<exists>ck resp j. EvReply j ck resp \<in> set (sy_trace sample_polled) \<and> ''tok'' \<in> set (response_tokens resp)"
proof -
  have "cache_holds (sy_store sample_polled) ''tok'' = Some (entry_of poll_checked)"
    using cacheGet_hit [OF polled_ok sample_hit] by (simp add: sample_polled_def)
  from cache_holds_issued [OF shipped.built _ polled_reachable [unfolded sample_start_def
      sample_cache_def] this] show ?thesis by (auto simp: guards_def)
qed

text \<open>C23:
  The internal error of a response token without a task queue scope cannot occur: with a typed
  upstream, a call whose response has task tokens always has the scope to register them under.
\<close>

theorem missing_scope_unreachable:
  assumes "buildIdentities entries hash = Inr identities" and "guards identities A"
    and "typed_client Upstream"
    and "reachable A local_store janitor_step (Server Upstream) UNIV (initial_sys (NewCache ttl n seed) u) y"
  shows "LogMissingScope rpc subject \<notin> set (sy_logs y)"
  by (rule guarded_proxy.no_missing_scope [OF local_guarded [OF assms(1,2)] assms(4) _ _
        typed_Server [OF assms(3)]]) simp_all

theorem missing_scope_unreachable_witness:
  "LogMissingScope ''PollWorkflowTaskQueue'' ''worker-fleet-a'' \<notin> set (sy_logs sample_completed)"
  by (rule missing_scope_unreachable [OF shipped.built _ typed_sample completed_reachable [unfolded
        sample_start_def sample_cache_def]]) (simp add: guards_def)

subsection \<open>One call\<close>

text \<open>The completion of the sample task, from beginning to end.\<close>

lemma done_deleted: "delete_terminal local_store (0, 0) done_checked cache_checked = ([], cache_done)"
  by (simp add: delete_terminal_def done_checked_def done_request_def local_store_def cache_done_def
      cacheDelete_def Let_def)

lemma done_interceptor:
  "interceptor sample_auth local_store sample_handler (\<lambda>_. (0, 0)) done_call cache_polled () =
     (Inr done_reply, action_logs done_checked, cache_done, ())"
  unfolding interceptor_def done_checks
  by (simp add: done_handler done_deleted) (simp add: done_reply_def response_tokens_def)

text \<open>C12:
  A worker that may use a token is not turned away.  Once the proxy has registered a token with the
  local cache, the check lets through every call that presents it, from any identity of the
  registered namespace that may use the registered task queue, as long as the token's lease runs,
  however long that is and whatever other calls and the janitor do to the cache in between.
\<close>

theorem leased_token_accepted:
  assumes "cache_ok c" and "\<forall>s \<in> set (c_shards c). sh_maxSize s = m" and "0 < m"
    and "register_token local_store clk ck t c = (None, logs, c1)"
    and "lease c m t ops (fst clk + c_ttl c, {}) = Some (x, K)" and "fst clk' \<le> x"
    and "Allowed (rpcNameFromFullMethod (ca_method ca)) = Some p" and "Category p = CategoryToken"
    and "extractAPIKey (call_context ca) = Some key" and "A key = Inr i" and "id_valid i"
    and "ca_request ca = Some req" and "snd (RequestNamespace req) \<longrightarrow> fst (RequestNamespace req) = id_namespace i"
    and "RequestTaskToken req = (t, True)" and "t \<noteq> []"
    and "id_namespace i = id_namespace (ck_identity ck)" and "AllowsTaskQueue i (ck_scope ck)"
    and "command_check (rpcNameFromFullMethod (ca_method ca)) req (id_namespace i) (ck_scope ck) = None"
  shows "\<exists>ck' c2. check_call A local_store clk' ca (run_ops ops c1) = (Inr ck', [], c2) \<and>
    ck_scope ck' = ck_scope ck \<and> ck_identity ck' = i \<and> ck_request ck' = req"
proof -
  let ?e = "\<lparr>entry_namespace = id_namespace (ck_identity ck), entry_task_queue = ck_scope ck\<rparr>"
  have "cachePut clk t ?e c = (None, c1)"
    using assms(4) by (auto simp: register_token_def local_store_def split: if_splits option.splits prod.splits)
  from leased_token_found [OF assms(1-3) this assms(5,6)]
  obtain c2 where "Get local_store clk' t (run_ops ops c1) = (Inr (Some ?e), c2)"
    by (cases "cacheGet clk' t (run_ops ops c1)") (simp add: local_store_def)
  with assms(7-18) show ?thesis
    by (auto simp: check_call_def authorizeRequest_def authorizeToken_def)
qed

theorem leased_token_accepted_witness:
  "\<exists>ck c2. check_call sample_auth local_store (5000 * second, 5000 * second) done_call
      (run_ops [CPut (second, second) ''u'' sample_entry, CGet (3000 * second, 3000 * second) ''tok'',
         CSweep 0 (4000 * second)] cache_polled) = (Inr ck, [], c2) \<and> ck_scope ck = ''proxy-test-queue''"
proof -
  have ttl: "c_ttl sample_cache = 3600 * second" and shard: "\<And>u v. shardFor u sample_cache = shardFor v sample_cache"
    by (simp_all add: sample_cache_def NewCache_def shardFor_def)
  have bound: "\<forall>s \<in> set (c_shards sample_cache). sh_maxSize s = 3125"
    by (simp add: sample_cache_def NewCache_def newShard_def perShard_def numShards_def signed_divide_int_def)
  have reg: "register_token local_store (0, 0) poll_checked ''tok'' sample_cache = (None, [], cache_polled)"
    by (simp add: register_token_def local_store_def cache_polled_def entry_of_def poll_checked_def cachePut_def Let_def)
  have lease: "lease sample_cache 3125 ''tok'' [CPut (second, second) ''u'' sample_entry,
      CGet (3000 * second, 3000 * second) ''tok'', CSweep 0 (4000 * second)] (fst (0, 0) + c_ttl sample_cache, {}) =
      Some (6600 * second, {})"
    by (simp add: ttl shard second_def)
  have time: "fst (5000 * second, 5000 * second) \<le> 6600 * second" by (simp add: second_def)
  have ok: "cache_ok sample_cache" by (simp add: sample_cache_def)
  have pol: "Allowed (rpcNameFromFullMethod (ca_method done_call)) = Some (policy_of CategoryToken True)"
    and cmds: "command_check (rpcNameFromFullMethod (ca_method done_call)) done_request
      (id_namespace (identity_of shipped_entry)) (ck_scope poll_checked) = None"
    by (simp_all add: done_call_def service_method Allowed_def allowed_table_def command_check_def done_request_def
        sample_queue_def poll_checked_def)
  have key: "extractAPIKey (call_context done_call) = Some ''test''" by (simp add: done_call_def sample_key)
  have "\<exists>ck c2. check_call sample_auth local_store (5000 * second, 5000 * second) done_call
      (run_ops [CPut (second, second) ''u'' sample_entry, CGet (3000 * second, 3000 * second) ''tok'',
         CSweep 0 (4000 * second)] cache_polled) = (Inr ck, [], c2) \<and> ck_scope ck = ck_scope poll_checked \<and>
      ck_identity ck = identity_of shipped_entry \<and> ck_request ck = done_request"
    by (rule leased_token_accepted [where A = sample_auth and key = "''test''", OF ok bound _ reg lease time pol _ key sample_identity _ _ _ _ _ _ _ cmds])
      (simp_all add: done_call_def done_request_def poll_checked_def identity_of_def shipped_entry_def sample_namespace_def)
  then show ?thesis by (auto simp: poll_checked_def)
qed

text \<open>C14:
  A terminal call consumes its token, in the local cache.  From the step on in which a call to a
  terminal RPC that the upstream has answered deletes its token, and until the upstream hands the same
  token out again, no call that begins later gets a request with this token forwarded, in any
  interleaving of calls and janitor, and whoever presents the token in any later state is refused with
  the upstream untouched.  No other call may be about to register the token when it is deleted.
\<close>

theorem terminal_call_consumes_token:
  assumes "buildIdentities entries hash = Inr identities" and "guards identities A"
    and "reachable A local_store janitor_step handler UNIV (initial_sys (NewCache ttl n seed) u) y"
    and "proxy_step A local_store janitor_step handler UNIV y y1"
    and "sy_calls y i = Some (Completing ck resp)" and "sy_calls y1 i = Some (Registering ck resp ts)"
    and "Terminal (ck_policy ck)" and "RequestTaskToken (ck_request ck) = (t, True)"
    and "\<forall>j ph. sy_calls y1 j = Some ph \<longrightarrow> \<not> registers t ph"
    and "reachable A local_store janitor_step handler UNIV y1 y2" and "sy_trace y2 = sy_trace y1 @ tr"
    and "\<forall>j ck' resp'. EvReply j ck' resp' \<in> set tr \<longrightarrow> t \<notin> set (response_tokens resp')"
  shows "(\<forall>j ck'. EvForward j ck' \<in> set tr \<and> RequestTaskToken (ck_request ck') = (t, True) \<longrightarrow>
       sy_calls y1 j \<noteq> None) \<and>
    (\<forall>A' clk ca req v. ca_request ca = Some req \<and> RequestTaskToken req = (t, True) \<and>
       request_for (rpcNameFromFullMethod (ca_method ca)) req \<longrightarrow>
       (\<exists>st logs c. interceptor A' local_store handler clk ca (sy_store y2) v = (Inl st, logs, c, v)))"
proof -
  note guarded = local_guarded [OF assms(1,2)]
  have "guarded_proxy.safe (in_table identities) UNIV cache_ok cache_holds y"
    by (rule guarded_proxy.safe_reachable [OF guarded assms(3)], rule guarded_proxy.safe_initial [OF guarded]) simp_all
  from guarded_proxy.deletion_consumes [OF guarded assms(4) this assms(5-8) _ local_delete_succeeds assms(9)]
  have "guarded_proxy.consumed (in_table identities) UNIV cache_ok cache_holds t {j. sy_calls y1 j \<noteq> None} y1"
    by simp
  from guarded_proxy.consumed_reachable [OF guarded assms(10) this] assms(11,12)
  have "guarded_proxy.consumed (in_table identities) UNIV cache_ok cache_holds t {j. sy_calls y1 j \<noteq> None} y2"
    and "\<forall>j ck'. EvForward j ck' \<in> set tr \<and> RequestTaskToken (ck_request ck') = (t, True) \<longrightarrow> sy_calls y1 j \<noteq> None"
    by auto
  with guarded_proxy.consumed_refused [OF guarded this(1) UNIV_I, where handler = handler] show ?thesis by blast
qed

text \<open>The completion of the sample run deletes its token and returns.\<close>

definition sample_deleted :: "(cache, unit) sys" where
  "sample_deleted = sample_completed\<lparr>sy_store := cache_done,
     sy_calls := (sy_calls sample_completed)(1 \<mapsto> Registering done_checked done_reply [])\<rparr>"

definition sample_returned :: "(cache, unit) sys" where
  "sample_returned = sample_deleted\<lparr>sy_calls := (sy_calls sample_deleted)(1 \<mapsto> Finished (Inr done_reply)),
     sy_logs := sy_logs sample_deleted @ action_logs done_checked\<rparr>"

theorem terminal_call_consumes_token_witness:
  "\<exists>st logs c. interceptor sample_auth local_store sample_handler (\<lambda>_. (1, 1)) done_call (sy_store sample_returned) () =
     (Inl st, logs, c, ())"
proof -
  let ?step = "proxy_step sample_auth local_store janitor_step sample_handler UNIV"
  have tokens: "response_tokens done_reply = []" by (simp add: done_reply_def response_tokens_def)
  have del: "?step sample_completed sample_deleted"
    using step_delete [of sample_completed 1 done_checked done_reply local_store "(0, 0)" "[]" cache_done
        sample_auth janitor_step sample_handler UNIV]
    by (simp add: sample_deleted_def done_deleted tokens) (simp add: sample_completed_def done_deleted)
  have "?step sample_deleted sample_returned"
    using step_return [of sample_deleted 1 done_checked done_reply sample_auth local_store janitor_step
        sample_handler UNIV]
    by (simp add: sample_returned_def) (simp add: sample_deleted_def)
  then have run: "sample_reachable sample_deleted sample_returned" by (rule run_step [OF _ reach_start])
  have calls: "sy_calls sample_completed 1 = Some (Completing done_checked done_reply)"
    "sy_calls sample_deleted 1 = Some (Registering done_checked done_reply [])"
    "sy_trace sample_returned = sy_trace sample_deleted @ []"
    "Terminal (ck_policy done_checked)" "RequestTaskToken (ck_request done_checked) = (''tok'', True)"
    by (simp_all add: sample_completed_def sample_deleted_def sample_returned_def done_checked_def done_request_def)
  have quiet: "\<forall>j ph. sy_calls sample_deleted j = Some ph \<longrightarrow> \<not> registers ''tok'' ph"
    by (simp add: sample_deleted_def sample_completed_def)
  have "ca_request done_call = Some done_request" and "RequestTaskToken done_request = (''tok'', True)"
    and "request_for (rpcNameFromFullMethod (ca_method done_call)) done_request"
    by (simp_all add: done_call_def service_method sample_request_for) (simp add: done_request_def)
  with terminal_call_consumes_token [OF shipped.built _ completed_reachable [unfolded sample_start_def sample_cache_def]
      del calls(1,2,4,5) quiet run calls(3)]
  show ?thesis by (auto simp: guards_def)
qed

text \<open>C18:
  An upstream failure leaves no trace in the token store: the caller gets the upstream's status as it
  is, nothing is logged, no token is dropped or registered, and the store is as the authorization of
  the call had left it, which is untouched but for one lookup of the presented token.
\<close>

theorem upstream_failure_keeps_tokens:
  assumes "check_call A S (clk 0) ca s = (Inr ck, logs, s1)" and "handler (ck_context ck) (ck_request ck) u = (Inl st, u')"
  shows "interceptor A S handler clk ca s u = (Inl st, [], s1, u') \<and>
    (s1 = s \<or> (\<exists>req t g. ca_request ca = Some req \<and> RequestTaskToken req = (t, True) \<and>
                        Get S (clk 0) t s = (g, s1)))"
  using interceptor_upstream_error [of A S clk ca s ck logs s1 handler u st u', OF assms] check_call_store [OF assms(1)] by simp

theorem upstream_failure_keeps_tokens_witness:
  "fst (interceptor sample_auth local_store (\<lambda>ctx req u. (Inl (status_of Unavailable (UpstreamReason ''down'')), u))
      (\<lambda>_. (0, 0)) done_call cache_polled ()) = Inl (status_of Unavailable (UpstreamReason ''down''))"
  using upstream_failure_keeps_tokens [where A = sample_auth and S = local_store and clk = "\<lambda>_. (0, 0)"
      and handler = "\<lambda>ctx req u. (Inl (status_of Unavailable (UpstreamReason ''down'')), u)",
      OF done_checks, of "()" "status_of Unavailable (UpstreamReason ''down'')" "()"]
  by simp

subsection \<open>Witnesses of properties of the components\<close>

theorem check_decides_policy_witness:
  "permitted (identity_of shipped_entry) (answers local_store (0, 0) cache_polled) done_request ''proxy-test-queue''"
  using check_decides_policy [of done_call done_request sample_auth local_store "(0, 0)" cache_polled done_checked]
    done_checks
  by (auto simp: done_call_def service_method sample_request_for done_checked_def)

text \<open>
  A token put with a lifetime of five milliseconds by one instance, and four milliseconds later a
  heartbeat that presents it to another.
\<close>

definition beat_call :: call where
  "beat_call = \<lparr>ca_method = service @ ''RecordActivityTaskHeartbeat'', ca_metadata = sample_metadata,
     ca_request = Some (RecordActivityTaskHeartbeatRequest sample_namespace ''tok'')\<rparr>"

definition short_lived :: "bool \<Rightarrow> kv_server store" where
  "short_lived k = member_store (kv_driver, 2000000000, 2000000000, if k then 5000000 else 10000000)"

definition aged_server :: kv_server where
  "aged_server = sample_server\<lparr>kv_data := [tokenKey ''tok'' \<mapsto> (encodeValkeyEntry (entry_of poll_checked), 5)], kv_now := 4\<rparr>"

lemma short_lived_get_time: "kv_now (snd (Get (short_lived k) c t v)) = kv_now v"
  by (simp add: short_lived_def member_store_def newValkeyStoreForClient_def valkeyGet_def valkeyGoClient_def
      kv_driver_def split: option.split sum.split)

theorem token_crosses_instances_witness:
  "case fst (check_call sample_auth (short_lived False) (0, 0) beat_call aged_server) of
     Inl st \<Rightarrow> st_code st = Unavailable
   | Inr ck \<Rightarrow> ck_scope ck = ''proxy-test-queue''"
proof -
  let ?e = "entry_of poll_checked"
  have e: "?e = \<lparr>entry_namespace = sample_namespace, entry_task_queue = ''proxy-test-queue''\<rparr>"
    by (simp add: entry_of_def poll_checked_def identity_of_def shipped_entry_def sample_namespace_def)
  have utf8: "utf8_entry ?e"
    by (simp add: e utf8_entry_def sample_namespace_def html_safe_body html_safe_def)
  let ?v1 = "aged_server\<lparr>kv_now := 0\<rparr>"
  have put: "Put (short_lived True) (0, 0) ''tok'' ?e sample_server = (None, ?v1)"
    by (simp add: short_lived_def member_store_def newValkeyStoreForClient_def valkeyPut_def valkeyGoClient_def
        kv_driver_def sample_server_def aged_server_def ttlMilliseconds_def millisecond_def
        signed_divide_int_def signed_modulo_int_def)
  have run: "accesses short_lived kv_drift ''tok'' ?v1 aged_server"
    by (rule access_drift [OF access_start]) (simp add: kv_drift_def aged_server_def)
  have store: "short_lived = (\<lambda>k. member_store (kv_driver, 2000000000, 2000000000, if k then 5000000 else 10000000))"
    by (simp add: fun_eq_iff short_lived_def)
  have name: "rpcNameFromFullMethod (ca_method beat_call) = ''RecordActivityTaskHeartbeat''"
    by (simp add: beat_call_def rpcNameFromFullMethod_def service_def lastIndex_def)
  have pol: "Allowed (rpcNameFromFullMethod (ca_method beat_call)) = Some (policy_of CategoryToken False)"
    unfolding name by (simp add: Allowed_def allowed_table_def)
  have time: "(kv_now (snd (Get (short_lived False) (0, 0) ''tok'' aged_server)) - kv_now sample_server) * millisecond < 5000000"
    by (simp add: short_lived_get_time aged_server_def sample_server_def millisecond_def)
  have key: "extractAPIKey (call_context beat_call) = Some ''test''"
    by (simp add: beat_call_def sample_key)
  have cmds: "command_check (rpcNameFromFullMethod (ca_method beat_call))
      (RecordActivityTaskHeartbeatRequest sample_namespace ''tok'') ns q = None" for ns q
    by (simp add: name command_check_def)
  have ttl: "5000000 \<le> (if k then 5000000 else 10000000 :: int)" for k :: bool by simp
  have queue: "entry_task_queue ?e = ''proxy-test-queue''" by (simp add: e)
  have "case fst (check_call sample_auth (short_lived False) (0, 0) beat_call aged_server) of
      Inl st \<Rightarrow> st_code st = Unavailable | Inr ck \<Rightarrow> ck_scope ck = entry_task_queue ?e"
    by (rule token_crosses_instances [where D = "\<lambda>_. kv_driver" and v_now = kv_now and v_entry = kv_data
            and rt = "\<lambda>_. 2000000000" and wt = "\<lambda>_. 2000000000" and ttl = "\<lambda>k. if k then 5000000 else 10000000"
            and S = short_lived and p = True and q = False and drift = kv_drift and T = 5000000 and c' = "(0, 0)"
            and ?v2.0 = aged_server and ?v0.0 = sample_server and A = sample_auth and i = "identity_of shipped_entry"
            and e = ?e and t = "''tok''" and ca = beat_call
            and req = "RecordActivityTaskHeartbeatRequest sample_namespace ''tok''",
          OF kv_memory.valkey_memory_axioms ttl utf8 store put run time pol _ key sample_identity _ _ _ _ _ _ _ cmds])
      (simp_all add: e beat_call_def identity_of_def shipped_entry_def sample_namespace_def)
  then show ?thesis unfolding queue .
qed

theorem actions_logged_witness:
  "filter is_action (action_logs done_checked) \<noteq> []"
  using actions_logged [OF done_interceptor] done_checks
  by (simp add: done_checked_def done_request_def)

text \<open>The poll of the sample run, from beginning to end.\<close>

lemma poll_interceptor:
  "interceptor sample_auth local_store sample_handler (\<lambda>_. (0, 0)) poll_call sample_cache () =
     (Inr poll_reply, [], cache_polled, ())"
proof -
  have "delete_terminal local_store (0, 0) poll_checked sample_cache = ([], sample_cache)"
    by (simp add: delete_terminal_def poll_checked_def)
  moreover have "response_tokens poll_reply = [''tok'']" by (simp add: poll_reply_def response_tokens_def)
  moreover have "register_token local_store (0, 0) poll_checked ''tok'' sample_cache = (None, [], cache_polled)"
    by (simp add: register_token_def local_store_def cache_polled_def entry_of_def poll_checked_def cachePut_def Let_def)
  moreover have "action_logs poll_checked = []" by (simp add: action_logs_def poll_checked_def poll_request_def)
  ultimately show ?thesis by (simp add: interceptor_def poll_checks poll_handler)
qed


text \<open>A Valkey server that cannot be reached.\<close>

theorem put_failure_withholds_witness:
  "fst (interceptor sample_auth sample_valkey sample_handler (\<lambda>_. (0, 0)) poll_call (sample_server\<lparr>kv_up := False\<rparr>) ()) =
     Inl (status_of Unavailable CacheUnavailable)"
proof -
  let ?v = "sample_server\<lparr>kv_up := False\<rparr>"
  have put: "Put sample_valkey (0, 0) ''tok'' \<lparr>entry_namespace = id_namespace (ck_identity poll_checked),
       entry_task_queue = ck_scope poll_checked\<rparr> (sample_server\<lparr>kv_up := False\<rparr>) =
      (Some ''put valkey token: connection refused'', sample_server\<lparr>kv_up := False\<rparr>)"
    by (simp add: sample_valkey_def newValkeyStoreForClient_def valkeyPut_def valkeyGoClient_def
        kv_driver_def sample_server_def)
  have del: "delete_terminal sample_valkey (0, 0) poll_checked ?v = ([], ?v)"
    by (simp add: delete_terminal_def poll_checked_def)
  have tokens: "response_tokens poll_reply = [] @ ''tok'' # []" by (simp add: poll_reply_def response_tokens_def)
  have "interceptor sample_auth sample_valkey sample_handler (\<lambda>_. (0, 0)) poll_call ?v () =
      (Inl (status_of Unavailable CacheUnavailable),
       [] @ [LogPutFailed (ck_rpc poll_checked) (id_subject (ck_identity poll_checked)) ''put valkey token: connection refused''], ?v, ())"
    by (rule put_failure_withholds [where handler = sample_handler and u = "()" and clk = "\<lambda>_. (0, 0)" and ts = "[]",
          OF poll_checks poll_handler del tokens _ _ put]) (simp_all add: poll_checked_def)
  then show ?thesis by simp
qed

theorem store_failure_denies_witness:
  "fst (interceptor sample_auth sample_valkey sample_handler (\<lambda>_. (0, 0)) done_call
      (sample_server\<lparr>kv_up := False\<rparr>) ()) = Inl (status_of Unavailable CacheUnavailable)"
proof -
  have "Get sample_valkey (0, 0) ''tok'' (sample_server\<lparr>kv_up := False\<rparr>) =
      (Inl ''get valkey token: connection refused'', sample_server\<lparr>kv_up := False\<rparr>)"
    by (simp add: sample_valkey_def newValkeyStoreForClient_def valkeyGet_def valkeyGoClient_def
        kv_driver_def sample_server_def)
  from store_failure_denies [where A = sample_auth and S = sample_valkey and clk = "\<lambda>_. (0, 0)" and ca = done_call
      and s = "sample_server\<lparr>kv_up := False\<rparr>" and req = done_request and key = "''test''"
      and p = "policy_of CategoryToken True" and handler = sample_handler and u = "()", OF _ _ _ sample_identity _ _ _ _ _ this]
  show ?thesis
    by (simp add: done_call_def service_method sample_key identity_of_def done_request_def shipped_entry_def
        sample_namespace_def)
qed

end
